(* ===== verification/Prelude.thy ===== *)
theory Prelude
  imports Main "HOL-Library.Word" "HOL-Library.AList" "HOL-Library.Multiset"
begin

text \<open>
  Shared vocabulary of the development: Rust's machine integers and the checked, saturating and
  truncating conversions the code uses, the standard library's \<open>HashMap\<close> as an association list
  with distinct keys, \<open>Result\<close> as a sum, and the generic lemmas on lists, maps and words that the
  component theories share.

  The collections \<open>rust_int\<close> and \<open>hmap_simps\<close> are what the component proofs hand to the simplifier.
\<close>

named_theorems rust_int \<open>facts about the conversions between Rust's integer types\<close>
named_theorems hmap_simps \<open>lookup and domain equations of the HashMap model\<close>

section \<open>Machine integers\<close>

type_synonym u8 = "8 word"
type_synonym u32 = "32 word"
type_synonym u64 = "64 word"
type_synonym usize = "64 word"

definition i64_max :: int where
  "i64_max = 2 ^ 63 - 1"

text \<open>\<open>i64::try_from(x).unwrap_or(i64::MAX)\<close> for \<open>x: u64\<close>.\<close>

definition i64_clamp :: "u64 \<Rightarrow> int" where
  "i64_clamp x = (if uint x \<le> i64_max then uint x else i64_max)"

text \<open>\<open>u64::try_from(n).unwrap_or(d)\<close> for a length or a wider count \<open>n\<close>.\<close>

definition u64_try_from :: "nat \<Rightarrow> u64 option" where
  "u64_try_from n = (if n < 2 ^ 64 then Some (of_nat n) else None)"

definition u64_from_or :: "u64 \<Rightarrow> nat \<Rightarrow> u64" where
  "u64_from_or d n = (case u64_try_from n of Some v \<Rightarrow> v | None \<Rightarrow> d)"

definition saturating_sub :: "'a::len word \<Rightarrow> 'a word \<Rightarrow> 'a word" where
  "saturating_sub a b = (if a < b then 0 else a - b)"

definition saturating_add :: "'a::len word \<Rightarrow> 'a word \<Rightarrow> 'a word" where
  "saturating_add a b = (if unat a + unat b < 2 ^ LENGTH('a) then a + b else - 1)"

definition saturating_mul :: "'a::len word \<Rightarrow> 'a word \<Rightarrow> 'a word" where
  "saturating_mul a b = (if unat a * unat b < 2 ^ LENGTH('a) then a * b else - 1)"

text \<open>The bounds compare natural numbers; evaluation compares the integers instead.\<close>

lemma u64_try_from_code [code]: "u64_try_from n = (if int n < 2 ^ 64 then Some (of_nat n) else None)"
  using of_nat_less_iff [of n "2 ^ 64", where 'a = int] by (simp add: u64_try_from_def)

lemma saturating_add_code [code]:
  "saturating_add a b = (if uint a + uint b < 2 ^ LENGTH('a) then a + b else - 1)" for a b :: "'a::len word"
  using of_nat_less_iff [of "unat a + unat b" "2 ^ LENGTH('a)", where 'a = int] by (simp add: saturating_add_def)

lemma saturating_mul_code [code]:
  "saturating_mul a b = (if uint a * uint b < 2 ^ LENGTH('a) then a * b else - 1)" for a b :: "'a::len word"
  using of_nat_less_iff [of "unat a * unat b" "2 ^ LENGTH('a)", where 'a = int] by (simp add: saturating_mul_def)

lemma i64_clamp_nonneg [rust_int]: "0 \<le> i64_clamp x"
  by (simp add: i64_clamp_def i64_max_def)

lemma i64_clamp_le [rust_int]: "i64_clamp x \<le> i64_max"
  by (simp add: i64_clamp_def)

lemma i64_clamp_small: "uint x < 2 ^ 63 \<Longrightarrow> i64_clamp x = uint x"
  by (simp add: i64_clamp_def i64_max_def)

lemma i64_clamp_mono: "x \<le> y \<Longrightarrow> i64_clamp x \<le> i64_clamp y"
  by (simp add: i64_clamp_def word_le_def)

text \<open>The difference of two clamped timestamps is always an \<open>i64\<close>: the subtraction cannot wrap.\<close>

lemma i64_clamp_diff_in_range:
  "- i64_max \<le> i64_clamp x - i64_clamp y" "i64_clamp x - i64_clamp y \<le> i64_max"
  using i64_clamp_nonneg [of x] i64_clamp_le [of x] i64_clamp_nonneg [of y] i64_clamp_le [of y]
  by simp_all

lemma u64_from_or_small [rust_int]: "n < 2 ^ 64 \<Longrightarrow> u64_from_or d n = of_nat n"
  by (simp add: u64_from_or_def u64_try_from_def)

lemma unat_u64_of_nat: "n < 2 ^ 64 \<Longrightarrow> unat (of_nat n :: u64) = n"
  by (simp add: unat_of_nat take_bit_nat_eq_self)

lemma unat_saturating_sub [rust_int]:
  "unat (saturating_sub a b) = unat a - unat b"
  by (simp add: saturating_sub_def unat_sub_if_size word_less_nat_alt)

lemma saturating_sub_le [rust_int]: "saturating_sub a b \<le> a"
  by (simp add: word_le_nat_alt unat_saturating_sub)

lemma saturating_sub_mono: "a \<le> b \<Longrightarrow> saturating_sub a c \<le> saturating_sub b c"
  by (simp add: word_le_nat_alt unat_saturating_sub)

lemma unat_minus_one_max: "unat (- 1 :: 'a::len word) = 2 ^ LENGTH('a) - 1"
  by (simp add: unsigned_minus_1_eq_mask mask_eq_exp_minus_1)

lemma unat_saturating_add [rust_int]:
  fixes a b :: "'a::len word"
  shows "unat (saturating_add a b) = min (unat a + unat b) (2 ^ LENGTH('a) - 1)"
  by (auto simp: saturating_add_def unat_minus_one_max unat_word_ariths)

lemma unat_saturating_mul [rust_int]:
  fixes a b :: "'a::len word"
  shows "unat (saturating_mul a b) = min (unat a * unat b) (2 ^ LENGTH('a) - 1)"
  by (auto simp: saturating_mul_def unat_minus_one_max unat_word_ariths)

lemma saturating_add_ge:
  fixes a b :: "'a::len word"
  shows "a \<le> saturating_add a b"
proof -
  have "unat a \<le> 2 ^ LENGTH('a) - 1"
    using unsigned_less [of a, where ?'a = nat] by linarith
  then show ?thesis
    by (simp add: word_le_nat_alt unat_saturating_add)
qed

section \<open>HashMap\<close>

text \<open>
  \<open>std::collections::HashMap\<close> (and \<open>DashMap\<close>, whose per-shard locking is discussed where it is used):
  an association list with distinct keys. The order of the list is not observable by lookups; the
  operations that do iterate take the order from the run-time environment (theory \<open>Digest\<close>).
\<close>

type_synonym ('k, 'v) hmap = "('k \<times> 'v) list"

abbreviation hm_get :: "('k, 'v) hmap \<Rightarrow> 'k \<Rightarrow> 'v option" where
  "hm_get m k \<equiv> map_of m k"

abbreviation hm_keys :: "('k, 'v) hmap \<Rightarrow> 'k set" where
  "hm_keys m \<equiv> fst ` set m"

definition hm_wf :: "('k, 'v) hmap \<Rightarrow> bool" where
  "hm_wf m = distinct (map fst m)"

definition hm_insert :: "'k \<Rightarrow> 'v \<Rightarrow> ('k, 'v) hmap \<Rightarrow> ('k, 'v) hmap" where
  "hm_insert k v m = AList.update k v m"

definition hm_remove :: "'k \<Rightarrow> ('k, 'v) hmap \<Rightarrow> ('k, 'v) hmap" where
  "hm_remove k m = AList.delete k m"

definition hm_retain :: "('k \<Rightarrow> 'v \<Rightarrow> bool) \<Rightarrow> ('k, 'v) hmap \<Rightarrow> ('k, 'v) hmap" where
  "hm_retain P m = filter (\<lambda>(k, v). P k v) m"

text \<open>\<open>entry(k).or_insert(v)\<close>: keeps the present value.\<close>

definition hm_or_insert :: "'k \<Rightarrow> 'v \<Rightarrow> ('k, 'v) hmap \<Rightarrow> ('k, 'v) hmap" where
  "hm_or_insert k v m = (case map_of m k of Some _ \<Rightarrow> m | None \<Rightarrow> hm_insert k v m)"

lemma hm_wf_Nil [simp]: "hm_wf []"
  by (simp add: hm_wf_def)

lemma hm_wf_insert [simp]: "hm_wf m \<Longrightarrow> hm_wf (hm_insert k v m)"
  by (simp add: hm_wf_def hm_insert_def distinct_update)

lemma hm_wf_remove [simp]: "hm_wf m \<Longrightarrow> hm_wf (hm_remove k m)"
  by (simp add: hm_wf_def hm_remove_def distinct_delete)

lemma hm_wf_retain [simp]: "hm_wf m \<Longrightarrow> hm_wf (hm_retain P m)"
  by (induction m) (auto simp: hm_wf_def hm_retain_def)

lemma hm_wf_or_insert [simp]: "hm_wf m \<Longrightarrow> hm_wf (hm_or_insert k v m)"
  by (simp add: hm_or_insert_def split: option.split)

lemma hm_get_insert [hmap_simps]: "hm_get (hm_insert k v m) = (hm_get m)(k \<mapsto> v)"
  by (simp add: hm_insert_def update_conv' fun_upd_def)

lemma hm_get_remove [hmap_simps]: "hm_get (hm_remove k m) = (hm_get m)(k := None)"
  by (simp add: hm_remove_def delete_conv' fun_upd_def)

lemma hm_get_or_insert [hmap_simps]:
  "hm_get (hm_or_insert k v m) = (case hm_get m k of Some _ \<Rightarrow> hm_get m | None \<Rightarrow> (hm_get m)(k \<mapsto> v))"
  by (auto simp: hm_or_insert_def hm_get_insert split: option.split)

lemma hm_get_in_keys: "hm_get m k = Some v \<Longrightarrow> k \<in> hm_keys m"
  by (metis domI dom_map_of_conv_image_fst)

lemma hm_get_None_iff [hmap_simps]: "hm_get m k = None \<longleftrightarrow> k \<notin> hm_keys m"
  by (metis map_of_eq_None_iff)

lemma hm_keys_insert [hmap_simps]: "hm_keys (hm_insert k v m) = insert k (hm_keys m)"
  by (simp add: hm_insert_def dom_update)

lemma hm_keys_remove [hmap_simps]: "hm_keys (hm_remove k m) = hm_keys m - {k}"
  by (auto simp: hm_remove_def AList.delete_eq)

lemma hm_keys_retain: "hm_keys (hm_retain P m) \<subseteq> hm_keys m"
  by (auto simp: hm_retain_def)

lemma set_hm_retain [hmap_simps]: "set (hm_retain P m) = {e \<in> set m. P (fst e) (snd e)}"
  by (auto simp: hm_retain_def)

lemma hm_get_retain [hmap_simps]:
  "hm_wf m \<Longrightarrow> hm_get (hm_retain P m) k =
    (case hm_get m k of Some v \<Rightarrow> if P k v then Some v else None | None \<Rightarrow> None)"
  by (induction m) (auto simp: hm_wf_def hm_retain_def dest: map_of_SomeD split: option.splits,
      metis fst_conv image_eqI map_of_SomeD)

lemma set_hm_insert: "set (hm_insert k v m) \<subseteq> insert (k, v) (set m)"
  by (induction m) (auto simp: hm_insert_def)

lemma set_hm_remove: "set (hm_remove k m) \<subseteq> set m"
  by (auto simp: hm_remove_def AList.delete_eq)

lemma length_hm_insert:
  "length (hm_insert k v m) = (if k \<in> hm_keys m then length m else Suc (length m))"
  by (induction m) (auto simp: hm_insert_def)

lemma length_hm_remove:
  "hm_wf m \<Longrightarrow> length (hm_remove k m) = (if k \<in> hm_keys m then length m - 1 else length m)"
proof (induction m)
  case (Cons e m)
  have "k \<notin> hm_keys m \<Longrightarrow> hm_remove k m = m"
    by (simp add: hm_remove_def)
  with Cons show ?case
    by (cases e, cases m) (auto simp: hm_wf_def hm_remove_def)
qed (simp add: hm_remove_def)

lemma length_hm_retain_le: "length (hm_retain P m) \<le> length m"
  by (simp add: hm_retain_def)

lemma length_keys_pos: "k \<in> hm_keys m \<Longrightarrow> 0 < length m"
  by (cases m) auto

section \<open>Lists\<close>

lemma foldl_invariant:
  assumes "I s" and "\<And>s x. I s \<Longrightarrow> x \<in> set xs \<Longrightarrow> I (f s x)"
  shows "I (foldl f s xs)"
  using assms by (induction xs arbitrary: s) auto

lemma if_less_max: "(if a < b then b else a) = max a (b :: 'a::linorder)"
  by (simp add: max_def not_less order.antisym)

lemma of_nat_sum_list: "of_nat (sum_list xs) = (sum_list (map of_nat xs) :: 'a::semiring_1)"
  by (induction xs) auto

end
