(* ===== verification/Timing.thy ===== *)
theory Timing
  imports Prelude
begin

text \<open>
  The clock layer (\<open>src/timing/mod.rs\<close>, \<open>src/timing/kernel_ts.rs\<close>): the two-axis timestamp of every
  event, its user-space capture, the translation of a kernel \<open>CLOCK_REALTIME\<close> reading to the monotonic
  axis, and the walk over a \<open>recvmsg\<close> control buffer. Readings of the operating system's clocks are
  arguments; the control buffer is the list of its messages, in the order \<open>CMSG_NXTHDR\<close> visits them.
\<close>

record event_timestamp =
  mono_ns :: u64
  wall_ms :: u64

definition event_timestamp_new :: "u64 \<Rightarrow> u64 \<Rightarrow> event_timestamp" where
  "event_timestamp_new m w = \<lparr>mono_ns = m, wall_ms = w\<rparr>"

text \<open>\<open>Instant\<close> is the nanosecond count of the monotonic clock.\<close>

record clock_origin =
  mono_origin :: nat
  mono_anchor_ns :: u64
  realtime_anchor_ns :: u64

text \<open>
  \<open>realtime_now_ns\<close>: the argument is \<open>SystemTime::now().duration_since(UNIX_EPOCH)\<close> in nanoseconds,
  \<open>None\<close> when the clock is before the epoch.
\<close>

definition realtime_now_ns :: "nat option \<Rightarrow> u64" where
  "realtime_now_ns since_epoch =
     (case since_epoch of Some d \<Rightarrow> u64_from_or (- 1) d | None \<Rightarrow> 0)"

definition clock_capture :: "nat \<Rightarrow> nat option \<Rightarrow> clock_origin" where
  "clock_capture instant_now since_epoch =
     \<lparr>mono_origin = instant_now, mono_anchor_ns = 0,
      realtime_anchor_ns = realtime_now_ns since_epoch\<rparr>"

definition now_user_space :: "clock_origin \<Rightarrow> nat \<Rightarrow> nat option \<Rightarrow> event_timestamp" where
  "now_user_space c instant_now since_epoch =
     \<lparr>mono_ns = mono_anchor_ns c + u64_from_or (- 1) (instant_now - mono_origin c),
      wall_ms = realtime_now_ns since_epoch div 1000000\<rparr>"

definition from_kernel_realtime_ns :: "clock_origin \<Rightarrow> u64 \<Rightarrow> event_timestamp" where
  "from_kernel_realtime_ns c kernel_ns =
     (let delta_ns = saturating_sub kernel_ns (realtime_anchor_ns c)
      in \<lparr>mono_ns = saturating_add (mono_anchor_ns c) delta_ns, wall_ms = kernel_ns div 1000000\<rparr>)"

text \<open>
  A control message: level, type and the \<open>timespec\<close> its payload holds. \<open>SOL_SOCKET\<close> and
  \<open>SCM_TIMESTAMPNS\<close> are constants of the \<open>libc\<close> crate and are arguments here.
\<close>

record cmsg =
  cmsg_level :: int
  cmsg_type :: int
  tv_sec :: int
  tv_nsec :: int

definition u64_of_i64_or_0 :: "int \<Rightarrow> u64" where
  "u64_of_i64_or_0 i = (if 0 \<le> i then word_of_int i else 0)"

fun read_scm_timestampns_realtime_ns :: "int \<Rightarrow> int \<Rightarrow> cmsg list \<Rightarrow> u64 option" where
  "read_scm_timestampns_realtime_ns sol scm [] = None"
| "read_scm_timestampns_realtime_ns sol scm (h # rest) =
     (if cmsg_level h = sol \<and> cmsg_type h = scm then
        (let secs = u64_of_i64_or_0 (tv_sec h); nsecs = u64_of_i64_or_0 (tv_nsec h)
         in Some (saturating_add (saturating_mul secs 1000000000) nsecs))
      else read_scm_timestampns_realtime_ns sol scm rest)"

section \<open>Properties\<close>

lemma now_user_space_mono:
  assumes "mono_origin c \<le> t" and "t \<le> t'" and "t' - mono_origin c < 2 ^ 64"
  shows "mono_ns (now_user_space (c\<lparr>mono_anchor_ns := 0\<rparr>) t w)
       \<le> mono_ns (now_user_space (c\<lparr>mono_anchor_ns := 0\<rparr>) t' w')"
  using assms
  by (simp add: now_user_space_def u64_from_or_small word_le_nat_alt unat_u64_of_nat del: of_nat_diff)

text \<open>
  The realtime anchor cancels out of every duration: after the anchor was captured, and as long as the
  monotonic axis does not saturate, two kernel readings keep their distance.
\<close>

lemma unat_from_kernel_mono:
  "unat (mono_ns (from_kernel_realtime_ns c k)) =
     min (unat (mono_anchor_ns c) + (unat k - unat (realtime_anchor_ns c))) (2 ^ 64 - 1)"
  by (simp add: from_kernel_realtime_ns_def Let_def unat_saturating_add unat_saturating_sub)


definition sample_clock :: clock_origin where
  "sample_clock = clock_capture 7 (Some 1000)"


text \<open>The control-buffer walk returns the reading of the first timestamp message, saturated at
  the top of \<open>u64\<close>, whatever precedes it; and \<open>None\<close> exactly when there is no such message.\<close>

theorem scm_first_timestamp:
  "read_scm_timestampns_realtime_ns sol scm msgs =
     (case find (\<lambda>h. cmsg_level h = sol \<and> cmsg_type h = scm) msgs of
        None \<Rightarrow> None
      | Some h \<Rightarrow> Some (of_nat (min (unat (u64_of_i64_or_0 (tv_sec h)) * 1000000000
                                 + unat (u64_of_i64_or_0 (tv_nsec h))) (2 ^ 64 - 1))))"
proof (induction msgs)
  case (Cons h msgs)
  have "saturating_add (saturating_mul s 1000000000) n =
      of_nat (min (unat s * 1000000000 + unat n) (2 ^ 64 - 1))" for s n :: u64
    by (rule word_unat_eq_iff [THEN iffD2])
       (simp add: unat_saturating_add unat_saturating_mul unat_of_nat take_bit_nat_eq_self min_def)
  with Cons show ?case by (simp add: Let_def)
qed simp

end
