(* ===== verification/Event_Types.thy ===== *)
theory Event_Types
  imports Timing
begin

text \<open>
  The vocabulary every stream component shares: commitment levels (\<open>src/config.rs\<close>), endpoint,
  stream and subscription roles (\<open>src/subscribe/mod.rs\<close>), slot stages and the canonical event record
  (\<open>src/collect/mod.rs\<close>). Fixed-size byte arrays are byte lists; the decoder (theory \<open>Decode\<close>) is the only
  producer of them and establishes their lengths.
\<close>

section \<open>Commitments and roles\<close>

datatype commitment = Com_Processed | Com_Confirmed | Com_Finalized

fun commitment_display :: "commitment \<Rightarrow> string" where
  "commitment_display Com_Processed = ''processed''"
| "commitment_display Com_Confirmed = ''confirmed''"
| "commitment_display Com_Finalized = ''finalized''"

datatype endpoint_role = One | Two

fun endpoint_label :: "endpoint_role \<Rightarrow> string" where
  "endpoint_label One = ''endpoint1''"
| "endpoint_label Two = ''endpoint2''"

datatype main_stream = Slots | Accounts | Transactions | Blocks

fun main_stream_label :: "main_stream \<Rightarrow> string" where
  "main_stream_label Slots = ''slots''"
| "main_stream_label Accounts = ''accounts''"
| "main_stream_label Transactions = ''transactions''"
| "main_stream_label Blocks = ''blocks''"

datatype subscription_role =
    Main (role_main_endpoint: endpoint_role) (role_commitment: commitment) (role_stream: main_stream)
  | Entries (role_entries_endpoint: endpoint_role)

fun is_entries :: "subscription_role \<Rightarrow> bool" where
  "is_entries (Entries _) = True"
| "is_entries (Main _ _ _) = False"

fun role_endpoint :: "subscription_role \<Rightarrow> endpoint_role" where
  "role_endpoint (Main e _ _) = e"
| "role_endpoint (Entries e) = e"

section \<open>Slot stages\<close>

datatype slot_stage =
    FirstShredReceived | Completed | CreatedBank | Processed | Confirmed | Finalized | Dead

fun slot_stage_label :: "slot_stage \<Rightarrow> string" where
  "slot_stage_label FirstShredReceived = ''first_shred_received''"
| "slot_stage_label Completed = ''completed''"
| "slot_stage_label CreatedBank = ''created_bank''"
| "slot_stage_label Processed = ''processed''"
| "slot_stage_label Confirmed = ''confirmed''"
| "slot_stage_label Finalized = ''finalized''"
| "slot_stage_label Dead = ''dead''"

text \<open>The proto crate's \<open>SlotStatus\<close>, with the variants the code matches on.\<close>

datatype slot_status =
    SlotFirstShredReceived | SlotCompleted | SlotCreatedBank | SlotProcessed
  | SlotConfirmed | SlotFinalized | SlotDead

fun slot_stage_from_proto :: "slot_status \<Rightarrow> slot_stage" where
  "slot_stage_from_proto SlotFirstShredReceived = FirstShredReceived"
| "slot_stage_from_proto SlotCompleted = Completed"
| "slot_stage_from_proto SlotCreatedBank = CreatedBank"
| "slot_stage_from_proto SlotProcessed = Processed"
| "slot_stage_from_proto SlotConfirmed = Confirmed"
| "slot_stage_from_proto SlotFinalized = Finalized"
| "slot_stage_from_proto SlotDead = Dead"

section \<open>Events\<close>

type_synonym pubkey32 = "u8 list"
type_synonym signature64 = "u8 list"

datatype event_payload =
    Slot_Payload u64 slot_stage
  | Account_Payload
      (acc_slot: u64) (acc_pubkey: pubkey32) (acc_owner: pubkey32) (acc_write_version: u64)
      (acc_txn_signature: "signature64 option") (acc_lamports: u64)
  | Transaction_Payload (tx_slot: u64) (tx_signature: signature64) (tx_index: u64)
  | Block_Payload
      (blk_slot: u64) (blk_hash: pubkey32) (blk_tx_count: u64) (blk_entries_count: u64)
      (blk_size_bytes: u64)
  | Entry_Payload
      (ent_slot: u64) (ent_index: u64) (ent_executed_transaction_count: u64)
      (ent_starting_transaction_index: u64)

record event =
  ev_ts :: event_timestamp
  ev_subscription :: subscription_role
  ev_payload :: event_payload

abbreviation ev_endpoint :: "event \<Rightarrow> endpoint_role" where
  "ev_endpoint ev \<equiv> role_endpoint (ev_subscription ev)"

fun other_role :: "endpoint_role \<Rightarrow> endpoint_role" where
  "other_role One = Two"
| "other_role Two = One"

lemma other_role_other [simp]: "other_role (other_role e) = e"
  by (cases e) simp_all

lemma other_role_neq [simp]: "other_role e \<noteq> e" "e \<noteq> other_role e"
  by (cases e; simp)+

text \<open>The labels tell the values apart, so JSON keyed by them cannot merge two streams.\<close>

lemma labels_injective:
  "inj commitment_display" "inj endpoint_label" "inj main_stream_label" "inj slot_stage_label"
proof -
  show "inj commitment_display"
  proof (rule injI)
    fix x y assume "commitment_display x = commitment_display y"
    then show "x = y" by (cases x; cases y) simp_all
  qed
  show "inj endpoint_label"
  proof (rule injI)
    fix x y assume "endpoint_label x = endpoint_label y"
    then show "x = y" by (cases x; cases y) simp_all
  qed
  show "inj main_stream_label"
  proof (rule injI)
    fix x y assume "main_stream_label x = main_stream_label y"
    then show "x = y" by (cases x; cases y) simp_all
  qed
  show "inj slot_stage_label"
  proof (rule injI)
    fix x y assume "slot_stage_label x = slot_stage_label y"
    then show "x = y" by (cases x; cases y) simp_all
  qed
qed

end
