(* ===== verification/Interfaces.thy ===== *)
theory Interfaces
  imports Event_Types
begin

text \<open>
  The contracts several components share, as locales; the components discharge them by interpretation.
  \<open>pairing_pool\<close>: two pools of pending keys where an arrival on one side either meets its partner on the
  other or waits on its own side. \<open>endpoint_tracker\<close>: a per-endpoint observer that ignores the events of the
  other endpoint.
\<close>

section \<open>Pools of pending keys\<close>

locale pairing_pool =
  fixes pend :: "bool \<Rightarrow> 's \<Rightarrow> 'k set"
    and wf :: "'s \<Rightarrow> bool"
    and step :: "bool \<Rightarrow> 'k \<Rightarrow> 'x \<Rightarrow> 's \<Rightarrow> 's"
  assumes step_wf: "wf s \<Longrightarrow> wf (step b k x s)"
    and step_own: "wf s \<Longrightarrow> pend b (step b k x s) \<subseteq> insert k (pend b s)"
    and step_other: "wf s \<Longrightarrow> pend (\<not> b) (step b k x s) \<subseteq> pend (\<not> b) s"
    and step_excl: "wf s \<Longrightarrow> pend True s \<inter> pend False s = {} \<Longrightarrow>
      \<not> (k \<in> pend b (step b k x s) \<and> k \<in> pend (\<not> b) (step b k x s))"
begin

abbreviation run :: "'s \<Rightarrow> (bool \<times> 'k \<times> 'x) list \<Rightarrow> 's" where
  "run \<equiv> foldl (\<lambda>s (b, k, x). step b k x s)"

lemma step_disjoint:
  assumes "wf s" and "pend True s \<inter> pend False s = {}"
  shows "pend True (step b k x s) \<inter> pend False (step b k x s) = {}"
  using step_own [OF assms(1), of b k x] step_other [OF assms(1), of b k x]
    step_excl [OF assms, of k b x] assms(2)
  by (cases b) (simp_all, blast+)

text \<open>No key ever waits on both sides, whatever the order of arrivals.\<close>

lemma run_disjoint:
  assumes "wf s" and "pend True s \<inter> pend False s = {}"
  shows "wf (run s xs) \<and> pend True (run s xs) \<inter> pend False (run s xs) = {}"
  using assms
proof (induction xs arbitrary: s)
  case (Cons e xs)
  obtain b k x where e: "e = (b, k, x)" by (cases e)
  show ?case
    using Cons.IH [of "step b k x s"] step_wf [OF Cons.prems(1)] step_disjoint [OF Cons.prems]
    by (simp add: e)
qed simp

text \<open>A side only ever holds keys that arrived on it.\<close>

lemma run_pend_subset:
  assumes "wf s"
  shows "pend b (run s xs) \<subseteq> pend b s \<union> {k. \<exists>x. (b, k, x) \<in> set xs}"
  using assms
proof (induction xs arbitrary: s)
  case (Cons e xs)
  obtain c k x where e: "e = (c, k, x)" by (cases e)
  have "pend b (step c k x s) \<subseteq> pend b s \<union> {k'. k' = k \<and> c = b}"
    using step_own [OF Cons.prems, of c k x] step_other [OF Cons.prems, of c k x]
    by (cases b; cases c) auto
  moreover have "pend b (run (step c k x s) xs) \<subseteq> pend b (step c k x s) \<union> {k. \<exists>x. (b, k, x) \<in> set xs}"
    using Cons.IH step_wf [OF Cons.prems] by blast
  ultimately show ?case
    unfolding e by (simp add: subset_iff) blast
qed simp

end

section \<open>Per-endpoint trackers\<close>

locale endpoint_tracker =
  fixes owner :: "'s \<Rightarrow> endpoint_role"
    and observe :: "event \<Rightarrow> 's \<Rightarrow> 's"
  assumes observe_owner: "owner (observe ev s) = owner s"
    and observe_foreign: "ev_endpoint ev \<noteq> owner s \<Longrightarrow> observe ev s = s"
begin

lemma fold_owner: "owner (fold observe evs s) = owner s"
  by (induction evs arbitrary: s) (simp_all add: observe_owner)

text \<open>Only the owner's events matter: the state after a merged stream is the state after its own part.\<close>

lemma fold_own_events:
  "fold observe evs s = fold observe (filter (\<lambda>ev. ev_endpoint ev = owner s) evs) s"
proof (induction evs arbitrary: s)
  case (Cons ev evs)
  show ?case
    using Cons.IH [of "observe ev s"] Cons.IH [of s]
    by (cases "ev_endpoint ev = owner s") (simp_all add: observe_owner observe_foreign)
qed simp

end

end
