(* ===== verification/Float64.thy ===== *)
theory Float64
  imports Prelude "HOL-Library.Log_Nat"
begin

text \<open>
  IEEE-754 double precision as far as the program uses it: conversion of integers (\<open>n as f64\<close>),
  division, \<open>max\<close> and comparison. A finite double is represented by the rational it denotes; every
  arithmetic result is rounded to the nearest representable value, ties to even, by \<open>f64_round\<close>.
  All magnitudes of the program are below \<open>2^65\<close>, so results never overflow to infinity; NaN occurs
  only as the quantile of an empty digest and is the constructor \<open>NaN\<close> of \<open>f64\<close>. A zero result
  carries no sign here: the program never observes the sign of zero.

  The lemmas show what the measurement code relies on: rounding is monotone, odd, exact on integers up to
  \<open>2^53\<close>, and neither creates nor loses a sign.
\<close>

datatype f64 = Finite rat | NaN

section \<open>Powers of two and the binary exponent\<close>

definition pow2 :: "int \<Rightarrow> rat" where
  "pow2 e = (if 0 \<le> e then 2 ^ nat e else 1 / 2 ^ nat (- e))"

lemma pow2_pos [simp]: "0 < pow2 e"
  by (simp add: pow2_def)

lemma pow2_nonzero [simp]: "pow2 e \<noteq> 0"
  by (simp add: pow2_def)

lemma pow2_powi: "pow2 e = 2 powi e"
  by (simp add: pow2_def power_int_def field_simps)

lemma pow2_add: "pow2 (a + b) = pow2 a * pow2 b"
  by (simp add: pow2_powi power_int_add)

lemma pow2_diff: "pow2 (a - b) = pow2 a / pow2 b"
  by (simp add: pow2_powi power_int_diff)

lemma pow2_mono: "a \<le> b \<Longrightarrow> pow2 a \<le> pow2 b"
  by (simp add: pow2_powi power_int_increasing)

lemma pow2_less: "a < b \<Longrightarrow> pow2 a < pow2 b"
  by (simp add: pow2_powi power_int_strict_increasing)

lemma pow2_of_nat: "pow2 (int n) = of_int (2 ^ n)"
  by (simp add: pow2_def)

lemma pow2_split: "pow2 (e + int n) = of_int (2 ^ n) * pow2 e"
  by (simp add: pow2_add pow2_of_nat)

text \<open>\<open>ilog2 x\<close> is the floor of the base-two logarithm of a positive \<open>x\<close>.\<close>

definition ilog2 :: "rat \<Rightarrow> int" where
  "ilog2 x = (case quotient_of x of (p, q) \<Rightarrow>
     let k = bitlen p - bitlen q in if pow2 k \<le> x then k else k - 1)"

lemma bitlen_pow2_bounds:
  assumes "0 < n"
  shows "pow2 (bitlen n - 1) \<le> of_int n" "of_int n < pow2 (bitlen n)"
proof -
  have b: "2 ^ nat (bitlen n - 1) \<le> n \<and> n < 2 ^ nat (bitlen n)"
    using bitlen_bounds assms by blast
  have pos: "0 < bitlen n"
  proof (rule ccontr)
    assume "\<not> 0 < bitlen n"
    then have "nat (bitlen n) = 0" by simp
    with b have "n < 1" by simp
    with assms show False by simp
  qed
  have "(2::rat) ^ nat (bitlen n - 1) \<le> of_int n"
    using b by (metis of_int_le_iff of_int_numeral of_int_power)
  then show "pow2 (bitlen n - 1) \<le> of_int n"
    using pos by (simp add: pow2_def)
  have "of_int n < (2::rat) ^ nat (bitlen n)"
    using b by (metis of_int_less_iff of_int_numeral of_int_power)
  then show "of_int n < pow2 (bitlen n)"
    using pos by (simp add: pow2_def)
qed

lemma ilog2_bounds:
  assumes "0 < x"
  shows "pow2 (ilog2 x) \<le> x" "x < pow2 (ilog2 x + 1)"
proof -
  obtain p q where pq: "quotient_of x = (p, q)" by (cases "quotient_of x")
  have q: "0 < q" using pq quotient_of_denom_pos by blast
  have x: "x = of_int p / of_int q" using pq by (rule quotient_of_div)
  have p: "0 < p" using assms x q by (simp add: zero_less_divide_iff)
  let ?k = "bitlen p - bitlen q"
  have "x < pow2 (bitlen p) / pow2 (bitlen q - 1)"
    unfolding x using bitlen_pow2_bounds [OF p] bitlen_pow2_bounds [OF q] q p
    by (intro frac_less) auto
  then have up: "x < pow2 (?k + 1)"
    by (simp add: pow2_diff [symmetric] algebra_simps)
  have "pow2 (bitlen p - 1) / pow2 (bitlen q) < x"
    unfolding x using bitlen_pow2_bounds [OF p] bitlen_pow2_bounds [OF q] q p
    by (intro frac_less2) auto
  then have low: "pow2 (?k - 1) \<le> x"
    by (simp add: pow2_diff [symmetric] algebra_simps)
  show "pow2 (ilog2 x) \<le> x" "x < pow2 (ilog2 x + 1)"
    using up low by (auto simp: ilog2_def pq Let_def)
qed

lemma ilog2_unique:
  assumes "pow2 e \<le> x" "x < pow2 (e + 1)"
  shows "ilog2 x = e"
proof -
  have x: "0 < x" using assms(1) pow2_pos [of e] by linarith
  have "pow2 (ilog2 x) < pow2 (e + 1)" "pow2 e < pow2 (ilog2 x + 1)"
    using ilog2_bounds [OF x] assms by linarith+
  then have "ilog2 x < e + 1" "e < ilog2 x + 1"
    using pow2_mono by (meson linorder_not_less)+
  then show ?thesis by simp
qed

lemma ilog2_mono: "0 < x \<Longrightarrow> x \<le> y \<Longrightarrow> ilog2 x \<le> ilog2 y"
proof (rule ccontr)
  assume x: "0 < x" and xy: "x \<le> y" and "\<not> ilog2 x \<le> ilog2 y"
  then have "pow2 (ilog2 y + 1) \<le> pow2 (ilog2 x)" by (intro pow2_mono) simp
  moreover have "pow2 (ilog2 x) \<le> x" using ilog2_bounds(1) [OF x] .
  moreover have "y < pow2 (ilog2 y + 1)" using ilog2_bounds(2) [of y] x xy by simp
  ultimately show False using xy by simp
qed

section \<open>Rounding\<close>

text \<open>Nearest integer, ties to even.\<close>

definition round_even :: "rat \<Rightarrow> int" where
  "round_even y =
     (let f = \<lfloor>y\<rfloor>; d = y - of_int f in
      if d < 1 / 2 then f else if 1 / 2 < d then f + 1 else if even f then f else f + 1)"

lemma round_even_of_int [simp]: "round_even (of_int n) = n"
  by (simp add: round_even_def Let_def)

lemma round_even_bounds: "\<lfloor>y\<rfloor> \<le> round_even y" "round_even y \<le> \<lfloor>y\<rfloor> + 1"
  by (simp_all add: round_even_def Let_def)

lemma round_even_mono:
  assumes "x \<le> y"
  shows "round_even x \<le> round_even y"
proof (cases "\<lfloor>x\<rfloor> = \<lfloor>y\<rfloor>")
  case True
  then show ?thesis using assms by (auto simp: round_even_def Let_def)
next
  case False
  then have "\<lfloor>x\<rfloor> + 1 \<le> \<lfloor>y\<rfloor>" using floor_mono [OF assms] by linarith
  then show ?thesis using round_even_bounds [of x] round_even_bounds [of y] by linarith
qed

lemma round_even_minus: "round_even (- y) = - round_even y"
proof (cases "y \<in> \<int>")
  case True
  then obtain n where "y = of_int n" by (auto elim: Ints_cases)
  then show ?thesis using round_even_of_int [of "- n"] by (simp del: round_even_of_int) simp
next
  case False
  then have "\<lfloor>- y\<rfloor> = - \<lfloor>y\<rfloor> - 1"
    by (smt (verit) Ints_of_int ceiling_altdef floor_minus)
  then show ?thesis by (simp add: round_even_def Let_def) linarith?
qed

text \<open>
  \<open>f64_round\<close> rounds to 53 significant bits (fewer below the normal range, where the quantum stays
  \<open>2^(-1074)\<close>).
\<close>

definition f64_exp :: "rat \<Rightarrow> int" where
  "f64_exp x = max (ilog2 \<bar>x\<bar>) (- 1022)"

definition f64_round :: "rat \<Rightarrow> rat" where
  "f64_round x =
     (if x = 0 then 0
      else let q = pow2 (f64_exp x - 52) in of_int (round_even (x / q)) * q)"

lemma f64_round_0 [simp]: "f64_round 0 = 0"
  by (simp add: f64_round_def)

lemma f64_round_minus: "f64_round (- x) = - f64_round x"
  by (simp add: f64_round_def f64_exp_def Let_def round_even_minus)

lemma f64_round_exact:
  assumes "x = of_int n * pow2 (f64_exp x - 52)"
  shows "f64_round x = x"
proof (cases "x = 0")
  case False
  have "x / pow2 (f64_exp x - 52) = of_int n"
    by (subst (1) assms) simp
  then show ?thesis
    using False assms by (simp add: f64_round_def Let_def)
qed simp

lemma f64_exp_mono: "0 < x \<Longrightarrow> x \<le> y \<Longrightarrow> f64_exp x \<le> f64_exp y"
  using ilog2_mono by (simp add: f64_exp_def max.coboundedI1)

lemma f64_round_le_pow2:
  assumes "0 < x"
  shows "f64_round x \<le> pow2 (f64_exp x + 1)"
proof -
  let ?q = "pow2 (f64_exp x - 52)"
  have "x < pow2 (ilog2 x + 1)" using ilog2_bounds(2) [OF assms] .
  also have "\<dots> \<le> pow2 (f64_exp x + 1)" using assms by (intro pow2_mono) (simp add: f64_exp_def)
  also have "\<dots> = of_int (2 ^ 53) * ?q"
    using pow2_split [of "f64_exp x - 52" 53] by (simp add: algebra_simps)
  finally have "x / ?q \<le> of_int (2 ^ 53)" by (simp add: pos_divide_le_eq)
  then have "round_even (x / ?q) \<le> 2 ^ 53"
    using round_even_mono round_even_of_int by metis
  then have "of_int (round_even (x / ?q)) \<le> (of_int (2 ^ 53) :: rat)" by (simp only: of_int_le_iff)
  then have "of_int (round_even (x / ?q)) * ?q \<le> of_int (2 ^ 53) * ?q"
    by (intro mult_right_mono) (simp_all add: less_imp_le)
  also have "\<dots> = pow2 (f64_exp x + 1)"
    using pow2_split [of "f64_exp x - 52" 53] by (simp add: algebra_simps)
  finally show ?thesis using assms by (simp add: f64_round_def Let_def)
qed

lemma f64_round_ge_pow2:
  assumes "0 < x" and "- 1022 \<le> ilog2 x"
  shows "pow2 (ilog2 x) \<le> f64_round x"
proof -
  have e: "f64_exp x = ilog2 x" using assms by (simp add: f64_exp_def)
  let ?q = "pow2 (ilog2 x - 52)"
  have q: "pow2 (ilog2 x) = of_int (2 ^ 52) * ?q"
    using pow2_split [of "ilog2 x - 52" 52] by (simp add: algebra_simps)
  then have "of_int (2 ^ 52) \<le> x / ?q"
    using ilog2_bounds(1) [OF assms(1)] by (simp add: pos_le_divide_eq)
  then have "2 ^ 52 \<le> round_even (x / ?q)"
    using round_even_mono round_even_of_int by metis
  then have "(of_int (2 ^ 52) :: rat) \<le> of_int (round_even (x / ?q))" by (simp only: of_int_le_iff)
  then have "of_int (2 ^ 52) * ?q \<le> of_int (round_even (x / ?q)) * ?q"
    by (intro mult_right_mono) (simp_all add: less_imp_le)
  then show ?thesis using assms e q by (simp add: f64_round_def Let_def)
qed

lemma f64_round_nonneg:
  assumes "0 \<le> x"
  shows "0 \<le> f64_round x"
proof -
  have "0 \<le> round_even (x / pow2 (f64_exp x - 52))"
    using round_even_mono [of 0 "x / pow2 (f64_exp x - 52)"] round_even_of_int [of 0] assms
    by (simp add: less_imp_le)
  then show ?thesis
    by (simp add: f64_round_def Let_def less_imp_le)
qed

lemma f64_round_mono_pos:
  assumes "0 < x" and "x \<le> y"
  shows "f64_round x \<le> f64_round y"
proof (cases "f64_exp x = f64_exp y")
  case True
  have "x / pow2 (f64_exp y - 52) \<le> y / pow2 (f64_exp y - 52)"
    using assms by (simp add: divide_right_mono less_imp_le)
  then show ?thesis
    using assms True by (simp add: f64_round_def Let_def round_even_mono)
next
  case False
  then have lt: "f64_exp x < f64_exp y" using f64_exp_mono [OF assms] by simp
  then have ey: "- 1022 \<le> ilog2 y" "f64_exp y = ilog2 y"
    using assms by (auto simp: f64_exp_def)
  have "f64_round x \<le> pow2 (f64_exp x + 1)" using assms(1) by (rule f64_round_le_pow2)
  also have "\<dots> \<le> pow2 (ilog2 y)" using lt ey by (intro pow2_mono) simp
  also have "\<dots> \<le> f64_round y" using assms ey by (intro f64_round_ge_pow2) simp_all
  finally show ?thesis .
qed

lemma f64_round_mono:
  assumes "x \<le> y"
  shows "f64_round x \<le> f64_round y"
proof -
  consider "0 < x" | "x \<le> 0" "0 \<le> y" | "y < 0" by linarith
  then show ?thesis
  proof cases
    case 1
    then show ?thesis using assms by (rule f64_round_mono_pos)
  next
    case 2
    have "f64_round x \<le> 0"
      using f64_round_nonneg [of "- x"] 2 by (simp add: f64_round_minus)
    with f64_round_nonneg [of y] 2 show ?thesis by simp
  next
    case 3
    then show ?thesis
      using f64_round_mono_pos [of "- y" "- x"] assms by (simp add: f64_round_minus)
  qed
qed

text \<open>Integers of at most 53 bits are represented exactly.\<close>

lemma f64_round_of_int:
  assumes "\<bar>n\<bar> \<le> 2 ^ 53"
  shows "f64_round (of_int n) = of_int n"
proof (cases "n = 0 \<or> \<bar>n\<bar> = 2 ^ 53")
  case True
  have e: "f64_exp 9007199254740992 = 53"
    by (simp add: f64_exp_def ilog2_unique [of 53] pow2_def)
  have "f64_round (2 ^ 53) = 2 ^ 53"
    by (rule f64_round_exact [of _ "2 ^ 52"]) (simp add: e pow2_def)
  note pos = this
  have neg: "f64_round (- (2 ^ 53)) = - (2 ^ 53)"
    using pos by (simp only: f64_round_minus)
  consider "n = 0" | "n = 2 ^ 53" | "n = - (2 ^ 53)" using True by linarith
  then show ?thesis using pos neg by cases simp_all
next
  case False
  let ?x = "of_int n :: rat"
  have x: "0 < \<bar>?x\<bar>" using False by simp
  have "\<bar>?x\<bar> < of_int (2 ^ 53)"
    using assms False by (simp add: order_less_le flip: of_int_abs)
  moreover have "of_int (2 ^ 53) = pow2 53" by (simp add: pow2_def)
  ultimately have "pow2 (ilog2 \<bar>?x\<bar>) < pow2 53" using ilog2_bounds(1) [OF x] by linarith
  then have up: "ilog2 \<bar>?x\<bar> < 53" using pow2_mono by (meson linorder_not_less)
  have "n \<noteq> 0" using False by simp
  then have "1 \<le> \<bar>n\<bar>" by linarith
  then have "1 \<le> \<bar>?x\<bar>" by (metis of_int_1_le_iff of_int_abs)
  then have low: "0 \<le> ilog2 \<bar>?x\<bar>"
    using ilog2_mono [of 1 "\<bar>?x\<bar>"] ilog2_unique [of 0 1] by (simp add: pow2_def)
  then have e: "f64_exp ?x = ilog2 \<bar>?x\<bar>" by (simp add: f64_exp_def)
  let ?k = "nat (52 - ilog2 \<bar>?x\<bar>)"
  have "?x = of_int (n * 2 ^ ?k) * pow2 (f64_exp ?x - 52)"
    using pow2_split [of "f64_exp ?x - 52" ?k] up e by (simp add: pow2_def)
  then show ?thesis by (rule f64_round_exact)
qed

lemma f64_round_pos:
  assumes "pow2 (- 1022) \<le> x"
  shows "0 < f64_round x"
proof -
  have x: "0 < x" using assms pow2_pos [of "- 1022"] by linarith
  have "- 1022 \<le> ilog2 x"
    using ilog2_mono [OF pow2_pos assms] ilog2_unique [of "- 1022" "pow2 (- 1022)"]
      pow2_less [of "- 1022" "- 1022 + 1"] by simp
  then have "pow2 (ilog2 x) \<le> f64_round x" using x by (rule f64_round_ge_pow2 [rotated])
  then show ?thesis using pow2_pos [of "ilog2 x"] by linarith
qed

text \<open>For evaluation: integers of 53 bits are left alone.\<close>

lemma f64_round_code [code]:
  "f64_round x =
     (let n = \<lfloor>x\<rfloor>
      in if x = of_int n \<and> \<bar>n\<bar> \<le> 2 ^ 53 then x
         else let q = pow2 (f64_exp x - 52) in of_int (round_even (x / q)) * q)"
proof (cases "x = of_int \<lfloor>x\<rfloor> \<and> \<bar>\<lfloor>x\<rfloor>\<bar> \<le> 2 ^ 53")
  case True
  then show ?thesis using f64_round_of_int [of "\<lfloor>x\<rfloor>"] by (simp only: Let_def if_True) auto
next
  case False
  then have "x \<noteq> 0" by auto
  then show ?thesis using False unfolding f64_round_def Let_def by auto
qed

section \<open>The conversions of the measurement code\<close>

text \<open>\<open>(ns as f64) / 1_000_000.0\<close>: nanoseconds to milliseconds.\<close>

definition f64_of_int :: "int \<Rightarrow> rat" where
  "f64_of_int n = f64_round (of_int n)"

definition f64_div :: "rat \<Rightarrow> rat \<Rightarrow> rat" where
  "f64_div x y = f64_round (x / y)"

definition ns_to_ms :: "int \<Rightarrow> rat" where
  "ns_to_ms n = f64_div (f64_of_int n) 1000000"

lemma f64_of_int_mono: "m \<le> n \<Longrightarrow> f64_of_int m \<le> f64_of_int n"
  by (simp add: f64_of_int_def f64_round_mono)

lemma f64_of_int_minus: "f64_of_int (- n) = - f64_of_int n"
  by (simp add: f64_of_int_def f64_round_minus)

lemma f64_of_int_exact: "\<bar>n\<bar> \<le> 2 ^ 53 \<Longrightarrow> f64_of_int n = of_int n"
  by (simp add: f64_of_int_def f64_round_of_int)

lemma ns_to_ms_mono: "m \<le> n \<Longrightarrow> ns_to_ms m \<le> ns_to_ms n"
  by (simp add: ns_to_ms_def f64_div_def f64_round_mono f64_of_int_mono divide_right_mono)

lemma ns_to_ms_0 [simp]: "ns_to_ms 0 = 0"
  by (simp add: ns_to_ms_def f64_div_def f64_of_int_def)

lemma ns_to_ms_minus: "ns_to_ms (- n) = - ns_to_ms n"
  by (simp add: ns_to_ms_def f64_div_def f64_of_int_minus f64_round_minus)

lemma ns_to_ms_pos:
  assumes "0 < n"
  shows "0 < ns_to_ms n"
proof -
  have "f64_of_int 1 \<le> f64_of_int n" using assms by (intro f64_of_int_mono) simp
  then have "1 \<le> f64_of_int n" by (simp add: f64_of_int_exact)
  then have "1 / 1000000 \<le> f64_of_int n / 1000000" by (intro divide_right_mono) simp_all
  moreover have "pow2 (- 20) \<le> 1 / 1000000" by (simp add: pow2_def)
  moreover have "pow2 (- 1022) \<le> pow2 (- 20)" by (intro pow2_mono) simp
  ultimately have "pow2 (- 1022) \<le> f64_of_int n / 1000000" by linarith
  then show ?thesis by (simp add: ns_to_ms_def f64_div_def f64_round_pos)
qed

text \<open>No nonzero nanosecond difference is rounded to zero, and no sign is lost.\<close>

lemma ns_to_ms_sign: "0 < ns_to_ms n \<longleftrightarrow> 0 < n" "ns_to_ms n < 0 \<longleftrightarrow> n < 0"
proof -
  have "n < 0 \<Longrightarrow> ns_to_ms n < 0" using ns_to_ms_pos [of "- n"] by (simp add: ns_to_ms_minus)
  then show "0 < ns_to_ms n \<longleftrightarrow> 0 < n" "ns_to_ms n < 0 \<longleftrightarrow> n < 0"
    using ns_to_ms_pos [of n] by (cases n "0 :: int" rule: linorder_cases; simp)+
qed

text \<open>Whole milliseconds below \<open>2^53\<close> nanoseconds are exact.\<close>

lemma ns_to_ms_whole:
  assumes "\<bar>k * 1000000\<bar> \<le> 2 ^ 53"
  shows "ns_to_ms (k * 1000000) = of_int k"
proof -
  have "\<bar>k\<bar> \<le> 2 ^ 53" using assms by simp
  then show ?thesis
    using assms by (simp add: ns_to_ms_def f64_div_def f64_of_int_exact f64_round_of_int)
qed

end
