(* ===== verification/Digest.thy ===== *)
theory Digest
  imports Float64
begin

text \<open>
  What the trackers take from outside the repository, and the buffering discipline they share.

  The \<open>tdigest\<close> crate is not part of the sources: its operations are the fields of \<open>runtime\<close>, an
  argument of every definition that uses them. The same record carries the one aspect of the standard
  library's hash maps that the code can observe, the order in which a map is iterated: \<open>hash_order n\<close>
  lists the positions of a map with \<open>n\<close> entries in visiting order. \<open>order_ok\<close> states the documented
  behaviour, that every entry is visited once.

  Four structures (\<open>PairMatcher\<close>, \<open>ProgramDigest\<close>, \<open>DistributionDigest\<close>, \<open>StreamingDigest\<close>) collect
  values in a \<open>Vec\<close> and merge it into the digest when it reaches \<open>TDIGEST_BUFFER_FLUSH\<close>. The locale
  \<open>buffered_digest\<close> states that contract once; its lemmas say exactly which batches reach the digest.
\<close>

section \<open>The run-time environment\<close>

record 'd runtime =
  td_new :: "nat \<Rightarrow> 'd"
  td_merge_unsorted :: "'d \<Rightarrow> rat list \<Rightarrow> 'd"
  td_is_empty :: "'d \<Rightarrow> bool"
  td_estimate_quantile :: "'d \<Rightarrow> rat \<Rightarrow> f64"
  td_merge_digests :: "'d list \<Rightarrow> 'd"
  hash_order :: "nat \<Rightarrow> nat list"

definition TDIGEST_BUFFER_FLUSH :: nat where
  "TDIGEST_BUFFER_FLUSH = 1024"

definition TDIGEST_COMPRESSION :: nat where
  "TDIGEST_COMPRESSION = 100"

definition order_ok :: "'d runtime \<Rightarrow> bool" where
  "order_ok R \<longleftrightarrow> (\<forall>n. mset (hash_order R n) = mset [0..<n])"

definition hm_iter :: "'d runtime \<Rightarrow> ('k, 'v) hmap \<Rightarrow> ('k \<times> 'v) list" where
  "hm_iter R m = map (\<lambda>i. m ! i) (hash_order R (length m))"

lemma mset_hm_iter: "order_ok R \<Longrightarrow> mset (hm_iter R m) = mset m"
proof -
  assume "order_ok R"
  then have "mset (hm_iter R m) = image_mset ((!) m) (mset [0..<length m])"
    by (simp add: hm_iter_def order_ok_def)
  also have "\<dots> = mset (map ((!) m) [0..<length m])" by (simp only: mset_map)
  also have "\<dots> = mset m" by (simp only: map_nth)
  finally show ?thesis .
qed

lemma set_hm_iter: "order_ok R \<Longrightarrow> set (hm_iter R m) = set m"
  using mset_hm_iter mset_eq_setD by blast

lemma length_hm_iter: "order_ok R \<Longrightarrow> length (hm_iter R m) = length m"
  using mset_hm_iter mset_eq_length by blast

lemma distinct_hm_iter_keys: "order_ok R \<Longrightarrow> hm_wf m \<Longrightarrow> distinct (map fst (hm_iter R m))"
proof -
  assume "order_ok R" and "hm_wf m"
  then have "mset (map fst (hm_iter R m)) = mset (map fst m)" by (simp add: mset_hm_iter)
  with \<open>hm_wf m\<close> show ?thesis by (metis hm_wf_def mset_eq_imp_distinct_iff)
qed

section \<open>Slices in chunks\<close>

text \<open>\<open>slice::chunks(n)\<close>: consecutive pieces of length \<open>n\<close>, the last one possibly shorter.
  (The standard library panics for \<open>n = 0\<close>; every caller passes at least one.)\<close>

function chunks :: "nat \<Rightarrow> 'a list \<Rightarrow> 'a list list" where
  "chunks n xs = (if n = 0 \<or> xs = [] then [] else take n xs # chunks n (drop n xs))"
  by pat_completeness auto
termination
  by (relation "measure (\<lambda>(n, xs). length xs)") auto

declare chunks.simps [simp del]

lemma chunks_Nil [simp]: "chunks n [] = []"
  by (simp add: chunks.simps)

lemma chunks_step: "0 < n \<Longrightarrow> xs \<noteq> [] \<Longrightarrow> chunks n xs = take n xs # chunks n (drop n xs)"
  by (simp add: chunks.simps [of n xs])

lemma concat_chunks: "0 < n \<Longrightarrow> concat (chunks n xs) = xs"
proof (induction n xs rule: chunks.induct)
  case (1 n xs)
  then show ?case by (cases "xs = []") (simp_all add: chunks_step)
qed

lemma chunks_lengths: "c \<in> set (chunks n xs) \<Longrightarrow> 0 < length c \<and> length c \<le> n"
proof (induction n xs rule: chunks.induct)
  case (1 n xs)
  then show ?case
    by (cases "n = 0 \<or> xs = []") (auto simp: chunks.simps [of n xs])
qed

lemma length_chunks: "0 < n \<Longrightarrow> length (chunks n xs) = (length xs + n - 1) div n"
proof (induction n xs rule: chunks.induct)
  case (1 n xs)
  show ?case
  proof (cases "length xs \<le> n")
    case True
    then show ?thesis
    proof (cases "xs = []")
      case False
      with True 1 have "length (chunks n xs) = 1" by (simp add: chunks_step)
      moreover have "(length xs + n - 1) div n = 1"
        using True False 1 by (intro div_nat_eqI) (cases xs; simp)+
      ultimately show ?thesis by simp
    qed (use 1 in simp)
  next
    case False
    then have "xs \<noteq> []" by auto
    with False have "length (chunks n xs) = 1 + (length xs - n + n - 1) div n"
      using 1 by (simp add: chunks_step)
    also have "\<dots> = (n + (length xs - n + n - 1)) div n" using 1 by (subst div_add_self1) simp_all
    also have "\<dots> = (length xs + n - 1) div n" using False by (simp add: add.commute)
    finally show ?thesis .
  qed
qed

lemma chunks_snoc_full:
  assumes "0 < n" and "length ys = n" and "n dvd length xs"
  shows "chunks n (xs @ ys) = chunks n xs @ [ys]"
  using assms
proof (induction n xs rule: chunks.induct)
  case (1 n xs)
  show ?case
  proof (cases "xs = []")
    case True
    then show ?thesis using 1 by (cases "ys = []") (simp_all add: chunks_step)
  next
    case False
    with 1 have "n \<le> length xs" by (simp add: dvd_imp_le)
    then have "n dvd length (drop n xs)" using 1(4) by (simp add: dvd_minus_self)
    with 1 False have "chunks n (drop n xs @ ys) = chunks n (drop n xs) @ [ys]" by simp
    with False \<open>n \<le> length xs\<close> 1 show ?thesis by (simp add: chunks_step)
  qed
qed

section \<open>Buffered digests\<close>

locale buffered_digest =
  fixes merge :: "'d \<Rightarrow> rat list \<Rightarrow> 'd"
    and dig :: "'s \<Rightarrow> 'd"
    and buf :: "'s \<Rightarrow> rat list"
    and push :: "rat \<Rightarrow> 's \<Rightarrow> 's"
    and flush :: "'s \<Rightarrow> 's"
  assumes flush_buf: "buf (flush s) = []"
    and flush_dig: "dig (flush s) = (if buf s = [] then dig s else merge (dig s) (buf s))"
    and push_buf: "buf (push v s) =
      (if length (buf s) + 1 < TDIGEST_BUFFER_FLUSH then buf s @ [v] else [])"
    and push_dig: "dig (push v s) =
      (if length (buf s) + 1 < TDIGEST_BUFFER_FLUSH then dig s else merge (dig s) (buf s @ [v]))"
begin

lemma flush_idem: "dig (flush (flush s)) = dig (flush s)" "buf (flush (flush s)) = buf (flush s)"
  by (simp_all add: flush_buf flush_dig)

lemma push_buffer_bound: "length (buf (push v s)) < TDIGEST_BUFFER_FLUSH"
  by (simp add: push_buf TDIGEST_BUFFER_FLUSH_def)

lemma push_all_buffer_bound:
  "length (buf s) < TDIGEST_BUFFER_FLUSH \<Longrightarrow> length (buf (fold push vs s)) < TDIGEST_BUFFER_FLUSH"
  by (induction vs arbitrary: s) (simp_all add: push_buffer_bound)

text \<open>
  Exactly the full batches of \<open>TDIGEST_BUFFER_FLUSH\<close> consecutive values have been merged, in order, and
  the rest is in the buffer.
\<close>

lemma push_all_batches:
  assumes "buf s = []"
  defines "k \<equiv> \<lambda>vs. length vs div TDIGEST_BUFFER_FLUSH * TDIGEST_BUFFER_FLUSH"
  shows "buf (fold push vs s) = drop (k vs) vs
    \<and> dig (fold push vs s) = foldl merge (dig s) (chunks TDIGEST_BUFFER_FLUSH (take (k vs) vs))"
proof (induction vs rule: rev_induct)
  case Nil
  then show ?case using assms by simp
next
  case (snoc v vs)
  let ?B = "TDIGEST_BUFFER_FLUSH"
  have B: "0 < ?B" by (simp add: TDIGEST_BUFFER_FLUSH_def)
  let ?s = "fold push vs s"
  have len: "length (buf ?s) = length vs mod ?B"
    using snoc by (simp add: k_def minus_div_mult_eq_mod)
  show ?case
  proof (cases "length vs mod ?B + 1 < ?B")
    case True
    then have "Suc (length vs) div ?B = length vs div ?B"
      by (simp add: div_Suc mod_Suc)
    then have k: "k (vs @ [v]) = k vs" by (simp add: k_def)
    have "k vs \<le> length vs" by (simp add: k_def)
    with True snoc len k show ?thesis by (simp add: push_buf push_dig)
  next
    case False
    then have "Suc (length vs mod ?B) = ?B" using mod_less_divisor [OF B, of "length vs"] by simp
    then have m: "Suc (length vs) mod ?B = 0" by (simp add: mod_Suc)
    have "k (vs @ [v]) = Suc (length vs) div ?B * ?B" by (simp only: k_def length_append_singleton)
    also have "\<dots> = Suc (length vs) - Suc (length vs) mod ?B" by (rule minus_mod_eq_div_mult [symmetric])
    finally have k: "k (vs @ [v]) = Suc (length vs)" by (simp only: m diff_zero)
    have split: "vs @ [v] = take (k vs) vs @ (drop (k vs) vs @ [v])" by simp
    have "length (drop (k vs) vs @ [v]) = ?B"
      using False len snoc B mod_less_divisor [OF B, of "length vs"] by simp
    moreover have "?B dvd length (take (k vs) vs)" by (simp add: k_def)
    ultimately have "chunks ?B (vs @ [v]) = chunks ?B (take (k vs) vs) @ [drop (k vs) vs @ [v]]"
      using B by (subst split) (rule chunks_snoc_full)
    with False snoc len k show ?thesis by (simp add: push_buf push_dig)
  qed
qed

text \<open>
  For a digest whose contents grow by the merged values, no value is lost or counted twice between
  buffer and digest.
\<close>

lemma push_all_contents:
  fixes contents :: "'d \<Rightarrow> rat multiset"
  assumes "\<And>d xs. contents (merge d xs) = contents d + mset xs"
  shows "contents (dig (fold push vs s)) + mset (buf (fold push vs s))
       = contents (dig s) + mset (buf s) + mset vs"
  by (induction vs arbitrary: s) (simp_all add: push_buf push_dig assms)

lemma flush_contents:
  fixes contents :: "'d \<Rightarrow> rat multiset"
  assumes "\<And>d xs. contents (merge d xs) = contents d + mset xs"
  shows "contents (dig (flush s)) = contents (dig s) + mset (buf s)"
  by (simp add: flush_dig assms)

end

section \<open>Quantile points\<close>

text \<open>The literals \<open>0.50\<close>, \<open>0.90\<close>, \<open>0.99\<close> and \<open>0.999\<close> as doubles.\<close>

definition q50 :: rat where "q50 = f64_round (1 / 2)"
definition q90 :: rat where "q90 = f64_round (9 / 10)"
definition q99 :: rat where "q99 = f64_round (99 / 100)"
definition q999 :: rat where "q999 = f64_round (999 / 1000)"

text \<open>Their values.\<close>

lemma quantile_points [code]:
  "q50 = 1 / 2" "q90 = 8106479329266893 / 9007199254740992"
  "q99 = 4458563631096791 / 4503599627370496" "q999 = 8998192055486251 / 9007199254740992"
  unfolding q50_def q90_def q99_def q999_def by code_simp+

text \<open>A concrete environment for the closed witnesses: a digest that keeps its values, and maps iterated
  in insertion order.\<close>

definition list_runtime :: "rat list runtime" where
  "list_runtime = \<lparr>td_new = (\<lambda>_. []), td_merge_unsorted = (\<lambda>d xs. d @ xs), td_is_empty = (\<lambda>d. d = []),
     td_estimate_quantile = (\<lambda>d q. Finite (sort d ! nat \<lfloor>q * of_nat (length d)\<rfloor>)),
     td_merge_digests = concat, hash_order = (\<lambda>n. [0..<n])\<rparr>"

lemma hash_order_list_runtime: "hash_order list_runtime n = [0..<n]"
  by (simp add: list_runtime_def)

lemma order_ok_list_runtime [simp]: "order_ok list_runtime"
  by (simp add: order_ok_def list_runtime_def)

end
