(* ===== verification/Pair_Matcher.thy ===== *)
theory Pair_Matcher
  imports Interfaces Digest
begin

text \<open>
  \<open>PairMatcher\<close> (\<open>src/matching/mod.rs\<close>), the identity matcher under every comparative metric: it holds
  the unmatched arrivals of each endpoint, pairs an arrival with the waiting arrival of the other
  endpoint, feeds the signed delta to a buffered digest, counts who was first, and evicts entries that
  never matched. \<open>MatchPending\<close>, \<open>MatchCounts\<close>, \<open>MatchResult\<close>, \<open>EvictionPolicy\<close> and
  \<open>LatencyDigestSummary\<close> keep the field names of the source.
\<close>

section \<open>State\<close>

definition EVICT_EVERY :: u64 where
  "EVICT_EVERY = 256"

datatype eviction_policy = SlotWindow u64 | Lru usize

record match_counts =
  matched :: u64
  ep1_faster :: u64
  ep2_faster :: u64
  ep1_unmatched_evicted :: u64
  ep2_unmatched_evicted :: u64

definition match_counts_default :: match_counts where
  "match_counts_default =
     \<lparr>matched = 0, ep1_faster = 0, ep2_faster = 0, ep1_unmatched_evicted = 0, ep2_unmatched_evicted = 0\<rparr>"

record match_pending =
  mp_ts :: event_timestamp
  mp_slot :: u64

record ('d, 'k) pair_matcher =
  pending_ep1 :: "('k, match_pending) hmap"
  pending_ep2 :: "('k, match_pending) hmap"
  pm_digest :: 'd
  pm_buffer :: "rat list"
  counts :: match_counts
  pm_eviction :: eviction_policy
  high_water_slot :: u64
  obs_count :: u64

record match_result =
  delta_ms :: rat
  ep1_ts :: event_timestamp
  ep2_ts :: event_timestamp

definition pm_new :: "'d runtime \<Rightarrow> eviction_policy \<Rightarrow> ('d, 'k) pair_matcher" where
  "pm_new R ev =
     \<lparr>pending_ep1 = [], pending_ep2 = [], pm_digest = td_new R TDIGEST_COMPRESSION, pm_buffer = [],
      counts = match_counts_default, pm_eviction = ev, high_water_slot = 0, obs_count = 0\<rparr>"

lemma pm_new_fields [simp]:
  "pending_ep1 (pm_new R ev) = []" "pending_ep2 (pm_new R ev) = []"
  "pm_digest (pm_new R ev) = td_new R TDIGEST_COMPRESSION" "pm_buffer (pm_new R ev) = []"
  "counts (pm_new R ev) = match_counts_default" "pm_eviction (pm_new R ev) = ev"
  "high_water_slot (pm_new R ev) = 0" "obs_count (pm_new R ev) = 0"
  by (simp_all add: pm_new_def)

lemma match_counts_default_fields [simp]:
  "matched match_counts_default = 0" "ep1_faster match_counts_default = 0"
  "ep2_faster match_counts_default = 0" "ep1_unmatched_evicted match_counts_default = 0"
  "ep2_unmatched_evicted match_counts_default = 0"
  by (simp_all add: match_counts_default_def)

section \<open>Operations\<close>

definition pm_flush :: "'d runtime \<Rightarrow> ('d, 'k) pair_matcher \<Rightarrow> ('d, 'k) pair_matcher" where
  "pm_flush R m =
     (if pm_buffer m = [] then m
      else m\<lparr>pm_buffer := [], pm_digest := td_merge_unsorted R (pm_digest m) (pm_buffer m)\<rparr>)"

definition pm_push_delta :: "'d runtime \<Rightarrow> rat \<Rightarrow> ('d, 'k) pair_matcher \<Rightarrow> ('d, 'k) pair_matcher" where
  "pm_push_delta R v m =
     (let m' = m\<lparr>pm_buffer := pm_buffer m @ [v]\<rparr>
      in if TDIGEST_BUFFER_FLUSH \<le> length (pm_buffer m') then pm_flush R m' else m')"

definition lru_victims :: "'d runtime \<Rightarrow> usize \<Rightarrow> ('k, 'v) hmap \<Rightarrow> 'k list" where
  "lru_victims R max_pending p = take (length p - unat max_pending) (map fst (hm_iter R p))"

definition pm_evict :: "'d runtime \<Rightarrow> ('d, 'k) pair_matcher \<Rightarrow> ('d, 'k) pair_matcher" where
  "pm_evict R m =
     (case pm_eviction m of
        SlotWindow window \<Rightarrow>
          (let cutoff = saturating_sub (high_water_slot m) window;
               p1 = hm_retain (\<lambda>_ v. cutoff \<le> mp_slot v) (pending_ep1 m);
               evicted1 = u64_from_or 0 (length (pending_ep1 m) - length p1);
               p2 = hm_retain (\<lambda>_ v. cutoff \<le> mp_slot v) (pending_ep2 m);
               evicted2 = u64_from_or 0 (length (pending_ep2 m) - length p2)
           in m\<lparr>pending_ep1 := p1, pending_ep2 := p2,
                counts := (counts m)
                  \<lparr>ep1_unmatched_evicted := ep1_unmatched_evicted (counts m) + evicted1,
                   ep2_unmatched_evicted := ep2_unmatched_evicted (counts m) + evicted2\<rparr>\<rparr>)
      | Lru max_pending \<Rightarrow>
          (let m1 = (if unat max_pending < length (pending_ep1 m)
                     then m\<lparr>pending_ep1 := fold hm_remove (lru_victims R max_pending (pending_ep1 m)) (pending_ep1 m),
                            counts := (counts m)\<lparr>ep1_unmatched_evicted := ep1_unmatched_evicted (counts m)
                               + u64_from_or 0 (length (pending_ep1 m) - unat max_pending)\<rparr>\<rparr>
                     else m)
           in if unat max_pending < length (pending_ep2 m1)
              then m1\<lparr>pending_ep2 := fold hm_remove (lru_victims R max_pending (pending_ep2 m1)) (pending_ep2 m1),
                      counts := (counts m1)\<lparr>ep2_unmatched_evicted := ep2_unmatched_evicted (counts m1)
                         + u64_from_or 0 (length (pending_ep2 m1) - unat max_pending)\<rparr>\<rparr>
              else m1))"

text \<open>\<open>delta_ns\<close>: the arrival at endpoint 2 minus the arrival at endpoint 1, as \<open>i64\<close>.\<close>

definition delta_ns :: "event_timestamp \<Rightarrow> event_timestamp \<Rightarrow> int" where
  "delta_ns t1 t2 = i64_clamp (mono_ns t2) - i64_clamp (mono_ns t1)"

definition count_match :: "int \<Rightarrow> match_counts \<Rightarrow> match_counts" where
  "count_match d c =
     (let c' = c\<lparr>matched := matched c + 1\<rparr>
      in if 0 < d then c'\<lparr>ep1_faster := ep1_faster c' + 1\<rparr>
         else if d < 0 then c'\<lparr>ep2_faster := ep2_faster c' + 1\<rparr>
         else c')"

text \<open>The first statements of \<open>observe\<close>: high-water mark, observation counter, periodic eviction.\<close>

definition pm_prologue :: "'d runtime \<Rightarrow> u64 \<Rightarrow> ('d, 'k) pair_matcher \<Rightarrow> ('d, 'k) pair_matcher" where
  "pm_prologue R slot m =
     (let m1 = (if high_water_slot m < slot then m\<lparr>high_water_slot := slot\<rparr> else m);
          m2 = m1\<lparr>obs_count := obs_count m1 + 1\<rparr>
      in if obs_count m2 mod EVICT_EVERY = 0 then pm_evict R m2 else m2)"

definition pm_record_match ::
  "'d runtime \<Rightarrow> event_timestamp \<Rightarrow> event_timestamp \<Rightarrow> ('d, 'k) pair_matcher
     \<Rightarrow> match_result option \<times> ('d, 'k) pair_matcher" where
  "pm_record_match R t1 t2 m =
     (let d = delta_ns t1 t2; ms = ns_to_ms d; m1 = pm_push_delta R ms m
      in (Some \<lparr>delta_ms = ms, ep1_ts = t1, ep2_ts = t2\<rparr>, m1\<lparr>counts := count_match d (counts m1)\<rparr>))"

definition pm_observe ::
  "'d runtime \<Rightarrow> ('d, 'k) pair_matcher \<Rightarrow> endpoint_role \<Rightarrow> 'k \<Rightarrow> event_timestamp \<Rightarrow> u64
     \<Rightarrow> match_result option \<times> ('d, 'k) pair_matcher" where
  "pm_observe R m endpoint key ts slot =
     (let m1 = pm_prologue R slot m
      in case endpoint of
           One \<Rightarrow> (case hm_get (pending_ep2 m1) key of
               Some other \<Rightarrow> pm_record_match R ts (mp_ts other) (m1\<lparr>pending_ep2 := hm_remove key (pending_ep2 m1)\<rparr>)
             | None \<Rightarrow> (None, m1\<lparr>pending_ep1 := hm_insert key \<lparr>mp_ts = ts, mp_slot = slot\<rparr> (pending_ep1 m1)\<rparr>))
         | Two \<Rightarrow> (case hm_get (pending_ep1 m1) key of
               Some other \<Rightarrow> pm_record_match R (mp_ts other) ts (m1\<lparr>pending_ep1 := hm_remove key (pending_ep1 m1)\<rparr>)
             | None \<Rightarrow> (None, m1\<lparr>pending_ep2 := hm_insert key \<lparr>mp_ts = ts, mp_slot = slot\<rparr> (pending_ep2 m1)\<rparr>)))"

definition pm_quantile :: "'d runtime \<Rightarrow> ('d, 'k) pair_matcher \<Rightarrow> rat \<Rightarrow> f64 \<times> ('d, 'k) pair_matcher" where
  "pm_quantile R m q =
     (let m' = pm_flush R m
      in (if td_is_empty R (pm_digest m') then NaN else td_estimate_quantile R (pm_digest m') q, m'))"

definition pm_snapshot_digest :: "'d runtime \<Rightarrow> ('d, 'k) pair_matcher \<Rightarrow> 'd \<times> ('d, 'k) pair_matcher" where
  "pm_snapshot_digest R m = (let m' = pm_flush R m in (pm_digest m', m'))"

definition pm_pending_counts :: "('d, 'k) pair_matcher \<Rightarrow> nat \<times> nat" where
  "pm_pending_counts m = (length (pending_ep1 m), length (pending_ep2 m))"

record latency_summary =
  ls_p50 :: f64
  ls_p90 :: f64
  ls_p99 :: f64
  ls_p99_9 :: f64
  ls_matched :: u64
  ls_ep1_faster :: u64
  ls_ep2_faster :: u64

definition summary_from_matcher :: "'d runtime \<Rightarrow> ('d, 'k) pair_matcher \<Rightarrow> latency_summary \<times> ('d, 'k) pair_matcher" where
  "summary_from_matcher R m =
     (let m0 = pm_evict R m; c = counts m0;
          (p50, m1) = pm_quantile R m0 q50;
          (p90, m2) = pm_quantile R m1 q90;
          (p99, m3) = pm_quantile R m2 q99;
          (p999, m4) = pm_quantile R m3 q999
      in (\<lparr>ls_p50 = p50, ls_p90 = p90, ls_p99 = p99, ls_p99_9 = p999, ls_matched = matched c,
           ls_ep1_faster = ep1_faster c, ls_ep2_faster = ep2_faster c\<rparr>, m4))"

section \<open>Runs\<close>

type_synonym 'k observation = "endpoint_role \<times> 'k \<times> event_timestamp \<times> u64"

definition pm_step :: "'d runtime \<Rightarrow> ('d, 'k) pair_matcher \<Rightarrow> 'k observation \<Rightarrow> ('d, 'k) pair_matcher" where
  "pm_step R m x = (case x of (e, k, ts, slot) \<Rightarrow> snd (pm_observe R m e k ts slot))"

definition pm_run :: "'d runtime \<Rightarrow> ('d, 'k) pair_matcher \<Rightarrow> 'k observation list \<Rightarrow> ('d, 'k) pair_matcher" where
  "pm_run R = foldl (pm_step R)"

fun pm_results :: "'d runtime \<Rightarrow> ('d, 'k) pair_matcher \<Rightarrow> 'k observation list \<Rightarrow> match_result list" where
  "pm_results R m [] = []"
| "pm_results R m ((e, k, ts, slot) # xs) =
     (case pm_observe R m e k ts slot of
        (Some r, m') \<Rightarrow> r # pm_results R m' xs
      | (None, m') \<Rightarrow> pm_results R m' xs)"

definition pend_of :: "endpoint_role \<Rightarrow> ('d, 'k) pair_matcher \<Rightarrow> ('k, match_pending) hmap" where
  "pend_of e m = (case e of One \<Rightarrow> pending_ep1 m | Two \<Rightarrow> pending_ep2 m)"

lemma pm_run_Nil [simp]: "pm_run R m [] = m"
  and pm_run_Cons [simp]: "pm_run R m (x # xs) = pm_run R (pm_step R m x) xs"
  and pm_run_append: "pm_run R m (xs @ ys) = pm_run R (pm_run R m xs) ys"
  by (simp_all add: pm_run_def)

section \<open>The invariant\<close>

definition pm_inv :: "('d, 'k) pair_matcher \<Rightarrow> bool" where
  "pm_inv m \<longleftrightarrow> hm_wf (pending_ep1 m) \<and> hm_wf (pending_ep2 m)
     \<and> hm_keys (pending_ep1 m) \<inter> hm_keys (pending_ep2 m) = {}
     \<and> length (pm_buffer m) < TDIGEST_BUFFER_FLUSH
     \<and> (\<forall>p \<in> set (pending_ep1 m) \<union> set (pending_ep2 m). mp_slot (snd p) \<le> high_water_slot m)"

named_theorems pm_frame \<open>fields an operation of the matcher leaves alone\<close>

lemma pm_flush_frame [pm_frame]:
  "pending_ep1 (pm_flush R m) = pending_ep1 m" "pending_ep2 (pm_flush R m) = pending_ep2 m"
  "counts (pm_flush R m) = counts m" "high_water_slot (pm_flush R m) = high_water_slot m"
  "obs_count (pm_flush R m) = obs_count m" "pm_eviction (pm_flush R m) = pm_eviction m"
  by (simp_all add: pm_flush_def)

lemma pm_push_delta_frame [pm_frame]:
  "pending_ep1 (pm_push_delta R v m) = pending_ep1 m" "pending_ep2 (pm_push_delta R v m) = pending_ep2 m"
  "counts (pm_push_delta R v m) = counts m" "high_water_slot (pm_push_delta R v m) = high_water_slot m"
  "obs_count (pm_push_delta R v m) = obs_count m" "pm_eviction (pm_push_delta R v m) = pm_eviction m"
  by (simp_all add: pm_push_delta_def pm_flush_frame Let_def)

lemma pm_evict_frame [pm_frame]:
  "pm_digest (pm_evict R m) = pm_digest m" "pm_buffer (pm_evict R m) = pm_buffer m"
  "high_water_slot (pm_evict R m) = high_water_slot m" "obs_count (pm_evict R m) = obs_count m"
  "pm_eviction (pm_evict R m) = pm_eviction m" "matched (counts (pm_evict R m)) = matched (counts m)"
  "ep1_faster (counts (pm_evict R m)) = ep1_faster (counts m)"
  "ep2_faster (counts (pm_evict R m)) = ep2_faster (counts m)"
  by (simp_all add: pm_evict_def Let_def split: eviction_policy.split)

lemma pm_prologue_frame [pm_frame]:
  "pm_digest (pm_prologue R s m) = pm_digest m" "pm_buffer (pm_prologue R s m) = pm_buffer m"
  "high_water_slot (pm_prologue R s m) = max (high_water_slot m) s"
  "obs_count (pm_prologue R s m) = obs_count m + 1"
  "pm_eviction (pm_prologue R s m) = pm_eviction m"
  "matched (counts (pm_prologue R s m)) = matched (counts m)"
  "ep1_faster (counts (pm_prologue R s m)) = ep1_faster (counts m)"
  "ep2_faster (counts (pm_prologue R s m)) = ep2_faster (counts m)"
  using if_less_max [of "high_water_slot m" s]
  by (simp_all add: pm_prologue_def Let_def pm_evict_frame split: if_splits)

interpretation pm_bd: buffered_digest "td_merge_unsorted R" pm_digest pm_buffer "pm_push_delta R" "pm_flush R"
  for R :: "'d runtime"
  by unfold_locales (auto simp: pm_flush_def pm_push_delta_def Let_def)

subsection \<open>Eviction\<close>

lemma fold_hm_remove:
  assumes "hm_wf p"
  shows "hm_wf (fold hm_remove ks p) \<and> set (fold hm_remove ks p) = {e \<in> set p. fst e \<notin> set ks}"
  using assms
proof (induction ks arbitrary: p)
  case (Cons k ks)
  have "set (hm_remove k p) = {e \<in> set p. fst e \<noteq> k}" by (auto simp: hm_remove_def AList.delete_eq)
  with Cons show ?case by auto
qed simp

lemma length_fold_hm_remove:
  assumes "hm_wf p" and "distinct ks" and "set ks \<subseteq> hm_keys p"
  shows "length (fold hm_remove ks p) = length p - length ks"
  using assms
proof (induction ks arbitrary: p)
  case (Cons k ks)
  then have "set ks \<subseteq> hm_keys (hm_remove k p)" by (auto simp: hm_keys_remove)
  with Cons show ?case by (simp add: length_hm_remove)
qed simp

lemma lru_victims_keys:
  assumes "order_ok R" and "hm_wf p"
  shows "distinct (lru_victims R n p)" "set (lru_victims R n p) \<subseteq> hm_keys p"
    "length (lru_victims R n p) = length p - unat n"
  using distinct_hm_iter_keys [OF assms] set_hm_iter [OF assms(1), of p]
  by (auto simp: lru_victims_def length_hm_iter [OF assms(1)] dest!: in_set_takeD)

text \<open>Eviction only removes entries, whatever the policy and the iteration order.\<close>

lemma pm_evict_pending:
  assumes "hm_wf (pending_ep1 m)" and "hm_wf (pending_ep2 m)"
  shows "hm_wf (pending_ep1 (pm_evict R m)) \<and> set (pending_ep1 (pm_evict R m)) \<subseteq> set (pending_ep1 m)
    \<and> hm_wf (pending_ep2 (pm_evict R m)) \<and> set (pending_ep2 (pm_evict R m)) \<subseteq> set (pending_ep2 m)"
  using assms fold_hm_remove [OF assms(1)] fold_hm_remove [OF assms(2)]
  by (auto simp: pm_evict_def Let_def set_hm_retain split: eviction_policy.split)

lemma pm_evict_inv: "pm_inv m \<Longrightarrow> pm_inv (pm_evict R m)"
  using pm_evict_pending [of m R] unfolding pm_inv_def pm_evict_frame by fast

lemma pm_prologue_pending:
  assumes "hm_wf (pending_ep1 m)" and "hm_wf (pending_ep2 m)"
  shows "hm_wf (pending_ep1 (pm_prologue R s m)) \<and> set (pending_ep1 (pm_prologue R s m)) \<subseteq> set (pending_ep1 m)
    \<and> hm_wf (pending_ep2 (pm_prologue R s m)) \<and> set (pending_ep2 (pm_prologue R s m)) \<subseteq> set (pending_ep2 m)"
proof -
  define m1 where "m1 = (if high_water_slot m < s then m\<lparr>high_water_slot := s\<rparr> else m)"
  define m2 where "m2 = m1\<lparr>obs_count := obs_count m1 + 1\<rparr>"
  have p: "pending_ep1 m2 = pending_ep1 m" "pending_ep2 m2 = pending_ep2 m"
    by (simp_all add: m1_def m2_def)
  have "pm_prologue R s m = (if obs_count m2 mod EVICT_EVERY = 0 then pm_evict R m2 else m2)"
    by (simp add: pm_prologue_def Let_def m1_def m2_def)
  then show ?thesis using pm_evict_pending [of m2 R] assms p by auto
qed

lemma pm_prologue_inv:
  assumes "pm_inv m"
  shows "pm_inv (pm_prologue R s m)"
proof -
  have "mp_slot (snd p) \<le> max (high_water_slot m) s" if "p \<in> set (pending_ep1 m) \<union> set (pending_ep2 m)" for p
    using that assms by (auto simp: pm_inv_def intro!: max.coboundedI1)
  then show ?thesis
    using pm_prologue_pending [of m R s] assms unfolding pm_inv_def pm_prologue_frame by fast
qed

subsection \<open>Observation\<close>

text \<open>The two outcomes of \<open>observe\<close>, in terms of the side an arrival belongs to.\<close>

definition pend_upd ::
  "endpoint_role \<Rightarrow> (('k, match_pending) hmap \<Rightarrow> ('k, match_pending) hmap) \<Rightarrow> ('d, 'k) pair_matcher \<Rightarrow> ('d, 'k) pair_matcher" where
  "pend_upd e f m = (case e of One \<Rightarrow> m\<lparr>pending_ep1 := f (pending_ep1 m)\<rparr> | Two \<Rightarrow> m\<lparr>pending_ep2 := f (pending_ep2 m)\<rparr>)"

definition pair_ts :: "endpoint_role \<Rightarrow> event_timestamp \<Rightarrow> event_timestamp \<Rightarrow> event_timestamp \<times> event_timestamp" where
  "pair_ts e own other = (case e of One \<Rightarrow> (own, other) | Two \<Rightarrow> (other, own))"

lemma pm_observe_cases:
  "pm_observe R m e k ts s =
     (let m1 = pm_prologue R s m in
      case hm_get (pend_of (other_role e) m1) k of
        Some o' \<Rightarrow> pm_record_match R (fst (pair_ts e ts (mp_ts o'))) (snd (pair_ts e ts (mp_ts o')))
                   (pend_upd (other_role e) (hm_remove k) m1)
      | None \<Rightarrow> (None, pend_upd e (hm_insert k \<lparr>mp_ts = ts, mp_slot = s\<rparr>) m1))"
  by (cases e) (simp_all add: pm_observe_def Let_def pend_of_def pend_upd_def pair_ts_def split: option.split)

lemma pm_observe_None:
  "hm_get (pend_of (other_role e) (pm_prologue R s m)) k = None \<Longrightarrow>
   pm_observe R m e k ts s = (None, pend_upd e (hm_insert k \<lparr>mp_ts = ts, mp_slot = s\<rparr>) (pm_prologue R s m))"
  by (simp add: pm_observe_cases Let_def)

lemma pm_observe_Some:
  "hm_get (pend_of (other_role e) (pm_prologue R s m)) k = Some p \<Longrightarrow>
   pm_observe R m e k ts s = pm_record_match R (fst (pair_ts e ts (mp_ts p))) (snd (pair_ts e ts (mp_ts p)))
     (pend_upd (other_role e) (hm_remove k) (pm_prologue R s m))"
  by (simp add: pm_observe_cases Let_def)

lemma pm_record_match_frame [pm_frame]:
  "pending_ep1 (snd (pm_record_match R t1 t2 m)) = pending_ep1 m"
  "pending_ep2 (snd (pm_record_match R t1 t2 m)) = pending_ep2 m"
  "high_water_slot (snd (pm_record_match R t1 t2 m)) = high_water_slot m"
  "obs_count (snd (pm_record_match R t1 t2 m)) = obs_count m"
  "pm_eviction (snd (pm_record_match R t1 t2 m)) = pm_eviction m"
  "counts (snd (pm_record_match R t1 t2 m)) = count_match (delta_ns t1 t2) (counts m)"
  "pm_buffer (snd (pm_record_match R t1 t2 m)) = pm_buffer (pm_push_delta R (ns_to_ms (delta_ns t1 t2)) m)"
  "pm_digest (snd (pm_record_match R t1 t2 m)) = pm_digest (pm_push_delta R (ns_to_ms (delta_ns t1 t2)) m)"
  by (simp_all add: pm_record_match_def Let_def pm_push_delta_frame)

lemma pend_upd_frame [pm_frame]:
  "pm_digest (pend_upd e f m) = pm_digest m" "pm_buffer (pend_upd e f m) = pm_buffer m"
  "high_water_slot (pend_upd e f m) = high_water_slot m" "obs_count (pend_upd e f m) = obs_count m"
  "pm_eviction (pend_upd e f m) = pm_eviction m" "counts (pend_upd e f m) = counts m"
  "pend_of e (pend_upd e f m) = f (pend_of e m)"
  "pend_of (other_role e) (pend_upd e f m) = pend_of (other_role e) m"
  "pend_of e (pend_upd (other_role e) f m) = pend_of e m"
  by (cases e; simp add: pend_upd_def pend_of_def)+

lemma pend_of_simps [simp]: "pend_of One m = pending_ep1 m" "pend_of Two m = pending_ep2 m"
  by (simp_all add: pend_of_def)

lemma pm_inv_remove:
  assumes "pm_inv m"
  shows "pm_inv (pend_upd e (hm_remove k) m)"
proof (cases e)
  case One
  have "set (hm_remove k (pending_ep1 m)) \<subseteq> set (pending_ep1 m)" by (rule set_hm_remove)
  with One assms show ?thesis
    unfolding pm_inv_def by (simp add: pend_upd_def hm_keys_remove) blast
next
  case Two
  have "set (hm_remove k (pending_ep2 m)) \<subseteq> set (pending_ep2 m)" by (rule set_hm_remove)
  with Two assms show ?thesis
    unfolding pm_inv_def by (simp add: pend_upd_def hm_keys_remove) blast
qed

lemma pm_observe_inv:
  assumes "pm_inv m"
  shows "pm_inv (snd (pm_observe R m e k ts s))"
proof -
  let ?m1 = "pm_prologue R s m"
  have inv: "pm_inv ?m1" using assms by (rule pm_prologue_inv)
  have hw: "s \<le> high_water_slot ?m1" by (simp add: pm_prologue_frame)
  show ?thesis
  proof (cases "hm_get (pend_of (other_role e) ?m1) k")
    case None
    then have "k \<notin> hm_keys (pend_of (other_role e) ?m1)" by (simp add: hm_get_None_iff)
    moreover have "p \<in> set (hm_insert k \<lparr>mp_ts = ts, mp_slot = s\<rparr> (pend_of e ?m1)) \<Longrightarrow>
        mp_slot (snd p) \<le> high_water_slot ?m1" for p
      using set_hm_insert [of k "\<lparr>mp_ts = ts, mp_slot = s\<rparr>" "pend_of e ?m1"] inv hw
      by (cases e) (auto simp: pm_inv_def)
    ultimately show ?thesis
      using inv unfolding pm_observe_None [OF None] snd_conv
      by (cases e) (auto simp: pm_inv_def hmap_simps pend_upd_def)
  next
    case (Some p)
    let ?m2 = "pend_upd (other_role e) (hm_remove k) ?m1"
    have "pm_inv ?m2" using inv by (rule pm_inv_remove)
    then show ?thesis
      using pm_bd.push_buffer_bound [of R _ ?m2]
      unfolding pm_observe_Some [OF Some] pm_inv_def pm_record_match_frame by blast
  qed
qed

lemma pm_inv_new: "pm_inv (pm_new R ev)"
  by (simp add: pm_inv_def pm_new_def TDIGEST_BUFFER_FLUSH_def)

lemma pm_step_inv: "pm_inv m \<Longrightarrow> pm_inv (pm_step R m x)"
  by (simp add: pm_step_def pm_observe_inv split: prod.split)

lemma pm_run_inv: "pm_inv m \<Longrightarrow> pm_inv (pm_run R m xs)"
  by (induction xs arbitrary: m) (simp_all add: pm_step_inv)

text \<open>The pending maps of a matcher are a pairing pool.\<close>

definition pm_side :: "bool \<Rightarrow> endpoint_role" where
  "pm_side b = (if b then One else Two)"

lemma pm_side_not: "pm_side (\<not> b) = other_role (pm_side b)"
  by (simp add: pm_side_def)

lemma pm_prologue_keys:
  assumes "hm_wf (pending_ep1 m)" and "hm_wf (pending_ep2 m)"
  shows "hm_keys (pend_of e (pm_prologue R s m)) \<subseteq> hm_keys (pend_of e m)"
  using pm_prologue_pending [OF assms, of R s] by (cases e) (simp_all add: image_mono)

lemma pm_observe_keys:
  fixes m :: "('d, 'k) pair_matcher" and R e k ts s
  assumes "hm_wf (pending_ep1 m)" and "hm_wf (pending_ep2 m)"
  defines "m' \<equiv> snd (pm_observe R m e k ts s)" and "m1 \<equiv> pm_prologue R s m"
  shows "hm_keys (pend_of e m') =
          (if k \<in> hm_keys (pend_of (other_role e) m1) then hm_keys (pend_of e m1) else insert k (hm_keys (pend_of e m1)))"
    and "hm_keys (pend_of (other_role e) m') = hm_keys (pend_of (other_role e) m1) - {k}"
proof -
  show "hm_keys (pend_of e m') =
          (if k \<in> hm_keys (pend_of (other_role e) m1) then hm_keys (pend_of e m1) else insert k (hm_keys (pend_of e m1)))"
  proof (cases "hm_get (pend_of (other_role e) m1) k")
    case None
    then show ?thesis unfolding m'_def m1_def pm_observe_None [OF None [unfolded m1_def]]
      by (cases e) (simp_all add: pend_upd_def hmap_simps)
  next
    case (Some p)
    then have "k \<in> hm_keys (pend_of (other_role e) m1)" by (rule hm_get_in_keys)
    then show ?thesis unfolding m'_def m1_def pm_observe_Some [OF Some [unfolded m1_def]]
      by (cases e) (simp_all add: pm_frame pend_upd_def hmap_simps)
  qed
  show "hm_keys (pend_of (other_role e) m') = hm_keys (pend_of (other_role e) m1) - {k}"
  proof (cases "hm_get (pend_of (other_role e) m1) k")
    case None
    then have "k \<notin> hm_keys (pend_of (other_role e) m1)" by (simp add: hm_get_None_iff)
    then show ?thesis unfolding m'_def m1_def pm_observe_None [OF None [unfolded m1_def]]
      by (simp add: pm_frame)
  next
    case (Some p)
    then show ?thesis unfolding m'_def m1_def pm_observe_Some [OF Some [unfolded m1_def]]
      by (cases e) (simp_all add: pm_frame pend_upd_def hmap_simps)
  qed
qed

lemma pm_observe_wf:
  assumes "hm_wf (pending_ep1 m)" and "hm_wf (pending_ep2 m)"
  shows "hm_wf (pend_of e' (snd (pm_observe R m e k ts s)))"
proof (cases "hm_get (pend_of (other_role e) (pm_prologue R s m)) k")
  case None
  then show ?thesis unfolding pm_observe_None [OF None] using pm_prologue_pending [OF assms, of R s]
    by (cases e; cases e') (simp_all add: pend_upd_def)
next
  case (Some p)
  then show ?thesis unfolding pm_observe_Some [OF Some] using pm_prologue_pending [OF assms, of R s]
    by (cases e; cases e') (simp_all add: pm_frame pend_upd_def)
qed

interpretation pm_pool: pairing_pool
  "\<lambda>b m. hm_keys (pend_of (pm_side b) m)"
  "\<lambda>m. hm_wf (pending_ep1 m) \<and> hm_wf (pending_ep2 m)"
  "\<lambda>b k (ts, s) m. snd (pm_observe R m (pm_side b) k ts s)"
  for R :: "'d runtime"
proof (unfold_locales, goal_cases)
  case (1 m b k x)
  then show ?case using pm_observe_wf [of m One] pm_observe_wf [of m Two] by (auto split: prod.split)
next
  case (2 m b k x)
  then show ?case
    using pm_observe_keys(1) [where m = m and R = R and e = "pm_side b" and k = k and ts = "fst x" and s = "snd x"] pm_prologue_keys [of m "pm_side b" R "snd x"]
    by (cases x) (simp split: if_splits; blast)
next
  case (3 m b k x)
  then show ?case
    using pm_observe_keys(2) [where m = m and R = R and e = "pm_side b" and k = k and ts = "fst x" and s = "snd x"]
      pm_prologue_keys [of m "other_role (pm_side b)" R "snd x"]
    by (cases x) (simp add: pm_side_not; blast)
next
  case (4 m k b x)
  then show ?case
    using pm_observe_keys(2) [where m = m and R = R and e = "pm_side b" and k = k and ts = "fst x" and s = "snd x"]
    by (cases x) (simp add: pm_side_not)
qed

end
