(* ===== verification/Matcher_Correct.thy ===== *)
theory Matcher_Correct
  imports Pair_Matcher
begin

text \<open>
  Correctness of the pair matcher: conservation of observations, agreement of the counters with the
  digest's inputs, freedom from endpoint bias, independence of the interleaving of the two endpoints, and
  the bound that eviction maintains.
\<close>

section \<open>Every observation is accounted for\<close>

text \<open>An arrival replaces a pending one when its own side already holds the key.\<close>

definition pm_overwrite :: "'d runtime \<Rightarrow> ('d, 'k) pair_matcher \<Rightarrow> 'k observation \<Rightarrow> bool" where
  "pm_overwrite R m x = (case x of (e, k, ts, s) \<Rightarrow> k \<in> hm_keys (pend_of e (pm_prologue R s m)))"

fun pm_overwrites :: "'d runtime \<Rightarrow> ('d, 'k) pair_matcher \<Rightarrow> 'k observation list \<Rightarrow> nat" where
  "pm_overwrites R m [] = 0"
| "pm_overwrites R m (x # xs) = (if pm_overwrite R m x then 1 else 0) + pm_overwrites R (pm_step R m x) xs"

definition pm_accounted :: "('d, 'k) pair_matcher \<Rightarrow> nat" where
  "pm_accounted m = 2 * unat (matched (counts m))
     + unat (ep1_unmatched_evicted (counts m)) + unat (ep2_unmatched_evicted (counts m))
     + length (pending_ep1 m) + length (pending_ep2 m)"

lemma unat_plus_from_or:
  fixes a :: u64
  shows "unat a + n < 2 ^ 64 \<Longrightarrow> unat (a + u64_from_or d n) = unat a + n"
  by (simp add: u64_from_or_small unat_word_ariths unat_of_nat take_bit_nat_eq_self)

lemma unat_plus_1:
  fixes a :: u64
  shows "unat a + 1 < 2 ^ 64 \<Longrightarrow> unat (a + 1) = unat a + 1"
  by (simp add: unat_word_ariths)

lemma pm_evict_accounted:
  assumes "order_ok R" and "pm_inv m" and "pm_accounted m < 2 ^ 64"
  shows "pm_accounted (pm_evict R m) = pm_accounted m"
proof (cases "pm_eviction m")
  case (SlotWindow w)
  let ?P = "\<lambda>_ v. saturating_sub (high_water_slot m) w \<le> mp_slot v"
  show ?thesis
    using length_hm_retain_le [of ?P "pending_ep1 m"] length_hm_retain_le [of ?P "pending_ep2 m"] assms(3)
    by (simp add: pm_evict_def SlotWindow Let_def pm_accounted_def unat_plus_from_or)
next
  case (Lru n)
  have wf: "hm_wf (pending_ep1 m)" "hm_wf (pending_ep2 m)" using assms(2) by (simp_all add: pm_inv_def)
  note len = length_fold_hm_remove [OF wf(1) lru_victims_keys(1,2) [OF assms(1) wf(1), of n]]
    length_fold_hm_remove [OF wf(2) lru_victims_keys(1,2) [OF assms(1) wf(2), of n]]
  show ?thesis
    using assms(3) len lru_victims_keys(3) [OF assms(1) wf(1), of n] lru_victims_keys(3) [OF assms(1) wf(2), of n]
    by (simp add: pm_evict_def Lru Let_def pm_accounted_def unat_plus_from_or)
qed

lemma pm_prologue_accounted:
  assumes "order_ok R" and "pm_inv m" and "pm_accounted m < 2 ^ 64"
  shows "pm_accounted (pm_prologue R s m) = pm_accounted m"
proof -
  define m2 where "m2 = m\<lparr>high_water_slot := max (high_water_slot m) s, obs_count := obs_count m + 1\<rparr>"
  have acc: "pm_accounted m2 = pm_accounted m" by (simp add: m2_def pm_accounted_def)
  have "pm_inv m2" using assms(2) by (auto simp: pm_inv_def m2_def intro!: max.coboundedI1)
  then have "pm_accounted (pm_evict R m2) = pm_accounted m2"
    using assms acc by (intro pm_evict_accounted) simp_all
  moreover have "pm_prologue R s m = (if obs_count m2 mod EVICT_EVERY = 0 then pm_evict R m2 else m2)"
    using if_less_max [of "high_water_slot m" s]
    by (auto simp: pm_prologue_def Let_def m2_def split: if_splits)
  ultimately show ?thesis using acc by simp
qed

lemma count_match_simps [simp]:
  "matched (count_match d c) = matched c + 1"
  "ep1_unmatched_evicted (count_match d c) = ep1_unmatched_evicted c"
  "ep2_unmatched_evicted (count_match d c) = ep2_unmatched_evicted c"
  "ep1_faster (count_match d c) = (if 0 < d then ep1_faster c + 1 else ep1_faster c)"
  "ep2_faster (count_match d c) = (if d < 0 then ep2_faster c + 1 else ep2_faster c)"
  by (simp_all add: count_match_def Let_def)

lemma pm_step_accounted:
  assumes "order_ok R" and "pm_inv m" and "pm_accounted m + 1 < 2 ^ 64"
  shows "pm_accounted (pm_step R m x) + (if pm_overwrite R m x then 1 else 0) = pm_accounted m + 1"
proof -
  obtain e k ts s where x: "x = (e, k, ts, s)" by (cases x)
  let ?m1 = "pm_prologue R s m"
  have inv: "pm_inv ?m1" using assms(2) by (rule pm_prologue_inv)
  have acc: "pm_accounted ?m1 = pm_accounted m" using assms by (simp add: pm_prologue_accounted)
  show ?thesis
  proof (cases "hm_get (pend_of (other_role e) ?m1) k")
    case None
    show ?thesis
      unfolding x pm_step_def pm_overwrite_def prod.case pm_observe_None [OF None] snd_conv acc [symmetric]
      by (cases e) (simp_all add: pend_upd_def pm_accounted_def length_hm_insert)
  next
    case (Some p)
    then have k: "k \<in> hm_keys (pend_of (other_role e) ?m1)" by (rule hm_get_in_keys)
    then have nk: "k \<notin> hm_keys (pend_of e ?m1)" using inv by (cases e) (auto simp: pm_inv_def)
    have wf: "hm_wf (pend_of (other_role e) ?m1)" using inv by (cases e) (simp_all add: pm_inv_def)
    have "unat (matched (counts ?m1)) + 1 < 2 ^ 64" using acc assms(3) by (simp add: pm_accounted_def)
    then have "unat (matched (counts ?m1) + 1) = unat (matched (counts ?m1)) + 1" by (rule unat_plus_1)
    then show ?thesis
      using length_hm_remove [OF wf, of k] length_keys_pos [OF k] k nk
      unfolding x pm_step_def pm_overwrite_def prod.case pm_observe_Some [OF Some] acc [symmetric]
      by (cases e) (simp_all add: pend_upd_def pm_frame pm_accounted_def)
  qed
qed

lemma pm_run_accounted:
  assumes "order_ok R" and "pm_inv m" and "pm_accounted m + length xs < 2 ^ 64"
  shows "pm_accounted (pm_run R m xs) + pm_overwrites R m xs = pm_accounted m + length xs"
  using assms(2,3)
proof (induction xs arbitrary: m)
  case (Cons x xs)
  have step: "pm_accounted (pm_step R m x) + (if pm_overwrite R m x then 1 else 0) = pm_accounted m + 1"
    using assms(1) Cons.prems by (intro pm_step_accounted) simp_all
  then have "pm_accounted (pm_step R m x) \<le> pm_accounted m + 1" by linarith
  then have "pm_accounted (pm_run R (pm_step R m x) xs) + pm_overwrites R (pm_step R m x) xs
      = pm_accounted (pm_step R m x) + length xs"
    using Cons.prems by (intro Cons.IH pm_step_inv) simp_all
  with step show ?case by simp
qed simp

text \<open>C9. Conservation: after any run of a fresh matcher, whatever the eviction policy and the map iteration
  order, every observation is accounted for exactly once: as half of a matched pair, as an evicted or still
  pending entry of its endpoint, or as an arrival that replaced a pending one with the same key.\<close>

theorem pair_matcher_conservation:
  fixes m :: "('d, 'k) pair_matcher"
  assumes "order_ok R" and "length xs < 2 ^ 64" and "m = pm_run R (pm_new R ev) xs"
  shows "2 * unat (matched (counts m))
      + unat (ep1_unmatched_evicted (counts m)) + unat (ep2_unmatched_evicted (counts m))
      + length (pending_ep1 m) + length (pending_ep2 m)
      + pm_overwrites R (pm_new R ev :: ('d, 'k) pair_matcher) xs = length xs"
proof -
  have new: "pm_accounted (pm_new R ev :: ('d, 'k) pair_matcher) = 0"
    by (simp add: pm_accounted_def pm_new_def match_counts_default_def)
  show ?thesis
    using pm_run_accounted [OF assms(1) pm_inv_new [of R ev], of xs] assms(2,3) new
    by (simp add: pm_accounted_def)
qed

definition ts_at :: "u64 \<Rightarrow> event_timestamp" where
  "ts_at ms = \<lparr>mono_ns = ms * 1000000, wall_ms = ms\<rparr>"

text \<open>Two matches, one arrival replaced, and two entries that aged out or still wait.\<close>

definition sample_trace :: "nat observation list" where
  "sample_trace = [(One, 1, ts_at 0, 100), (Two, 1, ts_at 5, 100), (Two, 2, ts_at 6, 100),
     (Two, 2, ts_at 7, 101), (One, 2, ts_at 8, 101), (One, 3, ts_at 9, 102)]"

theorem pair_matcher_conservation_witness:
  "2 * unat (matched (counts (pm_run list_runtime (pm_new list_runtime (SlotWindow 64)) sample_trace)))
     + unat (ep1_unmatched_evicted (counts (pm_run list_runtime (pm_new list_runtime (SlotWindow 64)) sample_trace)))
     + unat (ep2_unmatched_evicted (counts (pm_run list_runtime (pm_new list_runtime (SlotWindow 64)) sample_trace)))
     + length (pending_ep1 (pm_run list_runtime (pm_new list_runtime (SlotWindow 64)) sample_trace))
     + length (pending_ep2 (pm_run list_runtime (pm_new list_runtime (SlotWindow 64)) sample_trace))
     + pm_overwrites list_runtime (pm_new list_runtime (SlotWindow 64)) sample_trace = 6"
  using pair_matcher_conservation [OF order_ok_list_runtime _ refl, of sample_trace "SlotWindow 64"]
  by (simp add: sample_trace_def)

section \<open>The counters describe the digest\<close>

lemma pm_prologue_push_frame:
  "pm_digest (pm_push_delta R v (pend_upd e f (pm_prologue R s m))) = pm_digest (pm_push_delta R v m)"
  "pm_buffer (pm_push_delta R v (pend_upd e f (pm_prologue R s m))) = pm_buffer (pm_push_delta R v m)"
  by (simp_all add: pm_bd.push_buf pm_bd.push_dig pm_frame)

lemma pm_push_delta_cong:
  assumes "pm_digest m = pm_digest m'" and "pm_buffer m = pm_buffer m'"
  shows "pm_digest (fold (pm_push_delta R) vs m) = pm_digest (fold (pm_push_delta R) vs m')
    \<and> pm_buffer (fold (pm_push_delta R) vs m) = pm_buffer (fold (pm_push_delta R) vs m')"
  using assms by (induction vs arbitrary: m m') (simp_all add: pm_bd.push_buf pm_bd.push_dig)

text \<open>A step pushes exactly the delta it returns.\<close>

lemma pm_observe_digest:
  assumes "pm_observe R m e k ts s = (r, m')"
  shows "case r of
      None \<Rightarrow> pm_digest m' = pm_digest m \<and> pm_buffer m' = pm_buffer m
        \<and> matched (counts m') = matched (counts m)
        \<and> ep1_faster (counts m') = ep1_faster (counts m) \<and> ep2_faster (counts m') = ep2_faster (counts m)
    | Some r \<Rightarrow> pm_digest m' = pm_digest (pm_push_delta R (delta_ms r) m)
        \<and> pm_buffer m' = pm_buffer (pm_push_delta R (delta_ms r) m)
        \<and> matched (counts m') = matched (counts m) + 1
        \<and> ep1_faster (counts m') = ep1_faster (counts m) + (if 0 < delta_ms r then 1 else 0)
        \<and> ep2_faster (counts m') = ep2_faster (counts m) + (if delta_ms r < 0 then 1 else 0)
        \<and> delta_ms r = ns_to_ms (delta_ns (ep1_ts r) (ep2_ts r))"
proof (cases "hm_get (pend_of (other_role e) (pm_prologue R s m)) k")
  case None
  have r: "r = None" "m' = pend_upd e (hm_insert k \<lparr>mp_ts = ts, mp_slot = s\<rparr>) (pm_prologue R s m)"
    using assms unfolding pm_observe_None [OF None] by simp_all
  show ?thesis unfolding r by (simp add: pm_frame)
next
  case (Some p)
  let ?t1 = "fst (pair_ts e ts (mp_ts p))" and ?t2 = "snd (pair_ts e ts (mp_ts p))"
  have m': "m' = snd (pm_record_match R ?t1 ?t2 (pend_upd (other_role e) (hm_remove k) (pm_prologue R s m)))"
    using assms unfolding pm_observe_Some [OF Some] by simp
  have r: "r = Some \<lparr>delta_ms = ns_to_ms (delta_ns ?t1 ?t2), ep1_ts = ?t1, ep2_ts = ?t2\<rparr>"
    using assms unfolding pm_observe_Some [OF Some] by (simp add: pm_record_match_def Let_def)
  show ?thesis
    unfolding r m' by (simp add: pm_record_match_frame pm_prologue_push_frame pend_upd_frame pm_prologue_frame ns_to_ms_sign)
qed

lemma pm_run_digest:
  defines "ds \<equiv> \<lambda>R m xs. map delta_ms (pm_results R m xs)"
  shows "pm_digest (pm_run R m xs) = pm_digest (fold (pm_push_delta R) (ds R m xs) m)
    \<and> pm_buffer (pm_run R m xs) = pm_buffer (fold (pm_push_delta R) (ds R m xs) m)
    \<and> matched (counts (pm_run R m xs)) = matched (counts m) + of_nat (length (ds R m xs))
    \<and> ep1_faster (counts (pm_run R m xs)) = ep1_faster (counts m) + of_nat (length (filter (\<lambda>d. 0 < d) (ds R m xs)))
    \<and> ep2_faster (counts (pm_run R m xs)) = ep2_faster (counts m) + of_nat (length (filter (\<lambda>d. d < 0) (ds R m xs)))"
proof (induction xs arbitrary: m)
  case Nil
  then show ?case by (simp add: ds_def)
next
  case (Cons x xs)
  obtain e k ts s where x: "x = (e, k, ts, s)" by (cases x)
  obtain r m' where o: "pm_observe R m e k ts s = (r, m')" by fastforce
  have st: "pm_step R m (e, k, ts, s) = m'" by (simp add: pm_step_def o)
  show ?case
  proof (cases r)
    case None
    then show ?thesis
      using Cons.IH [of m'] pm_observe_digest [OF o] pm_push_delta_cong [of m' m R "ds R m' xs"]
      by (simp add: st x o ds_def)
  next
    case (Some r')
    then show ?thesis
      using Cons.IH [of m'] pm_observe_digest [OF o]
        pm_push_delta_cong [of m' "pm_push_delta R (delta_ms r') m" R "ds R m' xs"]
      by (simp add: st x o ds_def)
  qed
qed

text \<open>C13. The reported counters describe exactly the values behind the quantiles: after any run of a fresh
  matcher, \<open>matched\<close> is the number of deltas produced, \<open>ep1_faster\<close> and \<open>ep2_faster\<close> the numbers of positive
  and negative ones (the counters look at nanoseconds, the digest at rounded doubles), and the digest has
  absorbed precisely the full batches of 1024 deltas in order of arrival, the remainder being in the buffer.\<close>

theorem pair_matcher_counts_describe_digest:
  fixes R :: "'d runtime" and xs :: "'k observation list" and ev :: eviction_policy
  shows "let m = pm_run R (pm_new R ev) xs;
             ds = map delta_ms (pm_results R (pm_new R ev) xs);
             n = length ds div TDIGEST_BUFFER_FLUSH * TDIGEST_BUFFER_FLUSH
         in matched (counts m) = of_nat (length ds)
          \<and> ep1_faster (counts m) = of_nat (length (filter (\<lambda>d. 0 < d) ds))
          \<and> ep2_faster (counts m) = of_nat (length (filter (\<lambda>d. d < 0) ds))
          \<and> pm_digest m = foldl (td_merge_unsorted R) (td_new R TDIGEST_COMPRESSION)
                              (chunks TDIGEST_BUFFER_FLUSH (take n ds))
          \<and> pm_buffer m = drop n ds"
  using pm_run_digest [of R "pm_new R ev" xs]
    pm_bd.push_all_batches [of "pm_new R ev :: ('d, 'k) pair_matcher" R
      "map delta_ms (pm_results R (pm_new R ev) xs)"]
  unfolding Let_def by simp

section \<open>No endpoint bias\<close>

definition swap_obs :: "'k observation \<Rightarrow> 'k observation" where
  "swap_obs x = (case x of (e, k, ts, s) \<Rightarrow> (other_role e, k, ts, s))"

definition mirror_result :: "match_result \<Rightarrow> match_result" where
  "mirror_result r = \<lparr>delta_ms = - delta_ms r, ep1_ts = ep2_ts r, ep2_ts = ep1_ts r\<rparr>"

definition mirror_counts :: "match_counts \<Rightarrow> match_counts" where
  "mirror_counts c = \<lparr>matched = matched c, ep1_faster = ep2_faster c, ep2_faster = ep1_faster c,
     ep1_unmatched_evicted = ep2_unmatched_evicted c, ep2_unmatched_evicted = ep1_unmatched_evicted c\<rparr>"

definition mirrored :: "('d, 'k) pair_matcher \<Rightarrow> ('d, 'k) pair_matcher \<Rightarrow> bool" where
  "mirrored m m' \<longleftrightarrow> pending_ep1 m' = pending_ep2 m \<and> pending_ep2 m' = pending_ep1 m
     \<and> counts m' = mirror_counts (counts m) \<and> pm_buffer m' = map uminus (pm_buffer m)
     \<and> pm_eviction m' = pm_eviction m \<and> high_water_slot m' = high_water_slot m \<and> obs_count m' = obs_count m"

lemma mirrored_evict: "mirrored m m' \<Longrightarrow> mirrored (pm_evict R m) (pm_evict R m')"
  by (simp add: mirrored_def mirror_counts_def pm_evict_def Let_def split: eviction_policy.split)

lemma mirrored_prologue:
  assumes "mirrored m m'"
  shows "mirrored (pm_prologue R s m) (pm_prologue R s m')"
proof -
  let ?f = "\<lambda>m. let m1 = (if high_water_slot m < s then m\<lparr>high_water_slot := s\<rparr> else m) in m1\<lparr>obs_count := obs_count m1 + 1\<rparr>"
  have "mirrored (?f m) (?f m')" using assms by (simp add: mirrored_def mirror_counts_def Let_def)
  moreover have "pm_prologue R s m = (if obs_count (?f m) mod EVICT_EVERY = 0 then pm_evict R (?f m) else ?f m)" for m
    by (simp add: pm_prologue_def Let_def)
  moreover have "obs_count (?f m') = obs_count (?f m)" using assms by (simp add: mirrored_def Let_def)
  ultimately show ?thesis using mirrored_evict by metis
qed

lemma mirrored_pend: "mirrored m m' \<Longrightarrow> pend_of (other_role e) m' = pend_of e m"
  by (cases e) (simp_all add: mirrored_def)

lemma mirrored_pend_upd: "mirrored m m' \<Longrightarrow> mirrored (pend_upd e f m) (pend_upd (other_role e) f m')"
  by (cases e) (simp_all add: mirrored_def pend_upd_def)

lemma delta_ns_swap: "delta_ns t2 t1 = - delta_ns t1 t2"
  by (simp add: delta_ns_def)

lemma mirrored_record:
  assumes "mirrored m m'"
  shows "mirrored (snd (pm_record_match R t1 t2 m)) (snd (pm_record_match R t2 t1 m'))
    \<and> fst (pm_record_match R t2 t1 m') = map_option mirror_result (fst (pm_record_match R t1 t2 m))"
proof -
  have d: "ns_to_ms (delta_ns t2 t1) = - ns_to_ms (delta_ns t1 t2)"
    using ns_to_ms_minus delta_ns_swap by metis
  have c: "count_match (delta_ns t2 t1) (mirror_counts c) = mirror_counts (count_match (delta_ns t1 t2) c)" for c
    using delta_ns_swap [of t1 t2] by (simp add: count_match_def mirror_counts_def Let_def)
  have "pm_buffer (pm_push_delta R (ns_to_ms (delta_ns t2 t1)) m')
      = map uminus (pm_buffer (pm_push_delta R (ns_to_ms (delta_ns t1 t2)) m))"
    using assms by (simp add: d pm_bd.push_buf mirrored_def)
  with assms c d show ?thesis
    by (simp add: mirrored_def pm_record_match_frame) (simp add: pm_record_match_def Let_def mirror_result_def)
qed

lemma pair_ts_swap: "pair_ts (other_role e) a b = (snd (pair_ts e a b), fst (pair_ts e a b))"
  by (cases e) (simp_all add: pair_ts_def)

lemma mirrored_observe:
  assumes "mirrored m m'"
  shows "mirrored (snd (pm_observe R m e k ts s)) (snd (pm_observe R m' (other_role e) k ts s))
    \<and> fst (pm_observe R m' (other_role e) k ts s) = map_option mirror_result (fst (pm_observe R m e k ts s))"
proof -
  let ?p = "pm_prologue R s m" and ?p' = "pm_prologue R s m'"
  have p: "mirrored ?p ?p'" using assms by (rule mirrored_prologue)
  have pend: "pend_of (other_role (other_role e)) ?p' = pend_of (other_role e) ?p"
    using p by (rule mirrored_pend)
  show ?thesis
  proof (cases "hm_get (pend_of (other_role e) ?p) k")
    case None
    then have None': "hm_get (pend_of (other_role (other_role e)) ?p') k = None" by (simp only: pend)
    show ?thesis unfolding pm_observe_None [OF None] pm_observe_None [OF None']
      using mirrored_pend_upd [OF p] by simp
  next
    case (Some q)
    then have Some': "hm_get (pend_of (other_role (other_role e)) ?p') k = Some q" by (simp only: pend)
    show ?thesis unfolding pm_observe_Some [OF Some] pm_observe_Some [OF Some'] pair_ts_swap fst_conv snd_conv
      by (intro mirrored_record mirrored_pend_upd p)
  qed
qed

lemma mirrored_run:
  assumes "mirrored m m'"
  shows "mirrored (pm_run R m xs) (pm_run R m' (map swap_obs xs))
    \<and> pm_results R m' (map swap_obs xs) = map mirror_result (pm_results R m xs)"
  using assms
proof (induction xs arbitrary: m m')
  case (Cons x xs)
  obtain e k ts s where x: "x = (e, k, ts, s)" by (cases x)
  note ob = mirrored_observe [OF Cons.prems, of R e k ts s]
  note IH = Cons.IH [OF conjunct1 [OF ob]]
  show ?case
    using IH ob
    by (cases "pm_observe R m e k ts s"; cases "pm_observe R m' (other_role e) k ts s";
        cases "fst (pm_observe R m e k ts s)")
       (auto simp: x swap_obs_def pm_step_def)
qed simp

text \<open>C10. The comparison has no endpoint bias: exchanging the roles of the two endpoints in the whole input
  exchanges \<open>ep1_faster\<close> with \<open>ep2_faster\<close> and the two pending pools and eviction counters, negates every
  reported delta, and changes nothing else, for every input, eviction policy and run-time environment.\<close>

theorem pair_matcher_unbiased:
  fixes R :: "'d runtime" and xs :: "'k observation list"
  shows "mirrored (pm_run R (pm_new R ev) xs) (pm_run R (pm_new R ev) (map swap_obs xs))
    \<and> pm_results R (pm_new R ev) (map swap_obs xs) = map mirror_result (pm_results R (pm_new R ev) xs)"
  by (rule mirrored_run) (simp add: mirrored_def pm_new_def mirror_counts_def match_counts_default_def)

section \<open>Independence of the interleaving\<close>

text \<open>
  A quiet trace: no key repeats on an endpoint, and all slots lie within the eviction window of each
  other. The specification of its outcome mentions the set of arrivals only, not their order.
\<close>

definition quiet :: "u64 \<Rightarrow> 'k observation list \<Rightarrow> bool" where
  "quiet w xs \<longleftrightarrow> distinct (map (\<lambda>(e, k, _, _). (e, k)) xs)
     \<and> (\<forall>(_, _, _, s) \<in> set xs. \<forall>(_, _, _, s') \<in> set xs. unat s' \<le> unat s + unat w)"

definition arrivals :: "endpoint_role \<Rightarrow> 'k observation list \<Rightarrow> ('k \<times> match_pending) set" where
  "arrivals e xs = {(k, \<lparr>mp_ts = t, mp_slot = s\<rparr>) | k t s. (e, k, t, s) \<in> set xs}"

definition arrival_keys :: "endpoint_role \<Rightarrow> 'k observation list \<Rightarrow> 'k set" where
  "arrival_keys e xs = fst ` arrivals e xs"

definition quiet_state :: "u64 \<Rightarrow> 'k observation list \<Rightarrow> ('d, 'k) pair_matcher \<Rightarrow> bool" where
  "quiet_state w xs m \<longleftrightarrow> pm_eviction m = SlotWindow w
     \<and> (high_water_slot m = 0 \<or> (\<exists>(_, _, _, s) \<in> set xs. high_water_slot m = s))
     \<and> (\<forall>e. set (pend_of e m) = {p \<in> arrivals e xs. fst p \<notin> arrival_keys (other_role e) xs})"

lemma arrivals_snoc:
  "arrivals e (xs @ [(e', k, t, s)]) = arrivals e xs \<union> (if e = e' then {(k, \<lparr>mp_ts = t, mp_slot = s\<rparr>)} else {})"
  by (auto simp: arrivals_def)

lemma arrival_keys_snoc:
  "arrival_keys e (xs @ [(e', k, t, s)]) = arrival_keys e xs \<union> (if e = e' then {k} else {})"
  by (auto simp: arrival_keys_def arrivals_snoc)

lemma arrival_keys_iff: "k \<in> arrival_keys e xs \<longleftrightarrow> (e, k) \<in> set (map (\<lambda>(e, k, _, _). (e, k)) xs)"
  by (force simp: arrival_keys_def arrivals_def)

lemma quiet_snocD:
  assumes "quiet w (xs @ [(e, k, t, s)])"
  shows "quiet w xs" "k \<notin> arrival_keys e xs"
    "\<And>p. p \<in> arrivals e' xs \<Longrightarrow> unat s \<le> unat (mp_slot (snd p)) + unat w"
    "\<And>p p'. p \<in> arrivals e' xs \<Longrightarrow> p' \<in> arrivals e'' xs \<Longrightarrow> unat (mp_slot (snd p')) \<le> unat (mp_slot (snd p)) + unat w"
  using assms unfolding arrival_keys_iff by (fastforce simp: quiet_def arrivals_def)+

lemma hm_retain_all: "(\<And>p. p \<in> set m \<Longrightarrow> P (fst p) (snd p)) \<Longrightarrow> hm_retain P m = m"
  by (auto simp: hm_retain_def intro!: filter_True)

text \<open>While everything pending lies within the window, the periodic eviction removes nothing.\<close>

lemma pm_prologue_keep:
  assumes "pm_eviction m = SlotWindow w"
    and keep: "\<And>p. p \<in> set (pending_ep1 m) \<union> set (pending_ep2 m) \<Longrightarrow>
      unat (max (high_water_slot m) s) \<le> unat (mp_slot (snd p)) + unat w"
  shows "pending_ep1 (pm_prologue R s m) = pending_ep1 m \<and> pending_ep2 (pm_prologue R s m) = pending_ep2 m"
proof -
  let ?h = "max (high_water_slot m) s"
  let ?m2 = "m\<lparr>high_water_slot := ?h, obs_count := obs_count m + 1\<rparr>"
  have pro: "pm_prologue R s m = (if obs_count ?m2 mod EVICT_EVERY = 0 then pm_evict R ?m2 else ?m2)"
    using if_less_max [of "high_water_slot m" s] by (auto simp: pm_prologue_def Let_def split: if_splits)
  have "saturating_sub ?h w \<le> mp_slot (snd p)" if "p \<in> set (pending_ep1 m) \<union> set (pending_ep2 m)" for p
    using keep [OF that] by (simp add: word_le_nat_alt unat_saturating_sub)
  then have "pending_ep1 (pm_evict R ?m2) = pending_ep1 m \<and> pending_ep2 (pm_evict R ?m2) = pending_ep2 m"
    using assms(1) by (simp add: pm_evict_def Let_def hm_retain_all)
  with pro show ?thesis by simp
qed

lemma quiet_prologue:
  assumes "quiet w (xs @ [(e, k, t, s)])" and "quiet_state w xs m"
  shows "pending_ep1 (pm_prologue R s m) = pending_ep1 m" "pending_ep2 (pm_prologue R s m) = pending_ep2 m"
proof -
  let ?h = "max (high_water_slot m) s"
  have keep: "unat ?h \<le> unat (mp_slot (snd p)) + unat w" if p: "p \<in> set (pend_of e' m)" for p e'
  proof -
    have a: "p \<in> arrivals e' xs" using p assms(2) by (auto simp: quiet_state_def)
    have "unat (high_water_slot m) \<le> unat (mp_slot (snd p)) + unat w"
    proof (cases "high_water_slot m = 0")
      case False
      then obtain e2 k2 t2 s2 where "(e2, k2, t2, s2) \<in> set xs" "high_water_slot m = s2"
        using assms(2) by (auto simp: quiet_state_def)
      then show ?thesis
        using quiet_snocD(4) [OF assms(1) a, of "(k2, \<lparr>mp_ts = t2, mp_slot = s2\<rparr>)" e2]
        by (auto simp: arrivals_def)
    qed simp
    then have "unat ?h \<le> unat (mp_slot (snd p)) + unat w"
      using quiet_snocD(3) [OF assms(1) a] by (simp add: max_def)
    then show ?thesis .
  qed
  have "pm_eviction m = SlotWindow w" using assms(2) by (simp add: quiet_state_def)
  then have "pending_ep1 (pm_prologue R s m) = pending_ep1 m \<and> pending_ep2 (pm_prologue R s m) = pending_ep2 m"
    by (rule pm_prologue_keep) (use keep [of _ One] keep [of _ Two] in auto)
  then show "pending_ep1 (pm_prologue R s m) = pending_ep1 m" "pending_ep2 (pm_prologue R s m) = pending_ep2 m"
    by blast+
qed

lemma pm_results_snoc:
  "pm_results R m (xs @ [(e, k, t, s)]) = pm_results R m xs @
     (case fst (pm_observe R (pm_run R m xs) e k t s) of Some r \<Rightarrow> [r] | None \<Rightarrow> [])"
proof (induction xs arbitrary: m)
  case Nil
  then show ?case by (cases "pm_observe R m e k t s") (auto split: option.split)
next
  case (Cons x xs)
  obtain e2 k2 t2 s2 where x: "x = (e2, k2, t2, s2)" by (cases x)
  show ?case
    using Cons by (cases "pm_observe R m e2 k2 t2 s2") (auto simp: x pm_step_def split: option.split)
qed

lemma set_hm_insert_new: "k \<notin> hm_keys m \<Longrightarrow> set (hm_insert k v m) = insert (k, v) (set m)"
  by (induction m) (auto simp: hm_insert_def)

lemma set_hm_remove_eq: "set (hm_remove k m) = {p \<in> set m. fst p \<noteq> k}"
  by (auto simp: hm_remove_def AList.delete_eq)

definition paired :: "'k observation list \<Rightarrow> match_result set" where
  "paired xs = {\<lparr>delta_ms = ns_to_ms (delta_ns t1 t2), ep1_ts = t1, ep2_ts = t2\<rparr> | k t1 t2 s1 s2.
     (One, k, t1, s1) \<in> set xs \<and> (Two, k, t2, s2) \<in> set xs}"

definition stamped :: "endpoint_role \<Rightarrow> 'k observation list \<Rightarrow> 'k \<Rightarrow> event_timestamp \<Rightarrow> bool" where
  "stamped e xs k t \<longleftrightarrow> (\<exists>s. (e, k, t, s) \<in> set xs)"

lemma stamped_snoc: "stamped e' (xs @ [(e, k, t, s)]) k' t' \<longleftrightarrow> stamped e' xs k' t' \<or> (e' = e \<and> k' = k \<and> t' = t)"
  by (auto simp: stamped_def)

lemma arrival_keys_stamped: "k \<in> arrival_keys e xs \<longleftrightarrow> (\<exists>t. stamped e xs k t)"
  by (force simp: arrival_keys_def arrivals_def stamped_def)

definition result_of :: "event_timestamp \<times> event_timestamp \<Rightarrow> match_result" where
  "result_of p = \<lparr>delta_ms = ns_to_ms (delta_ns (fst p) (snd p)), ep1_ts = fst p, ep2_ts = snd p\<rparr>"

lemma paired_stamped: "paired xs = {result_of (t1, t2) | k t1 t2. stamped One xs k t1 \<and> stamped Two xs k t2}"
  unfolding paired_def stamped_def result_of_def by auto

lemma paired_snoc_None:
  assumes "k \<notin> arrival_keys (other_role e) xs"
  shows "paired (xs @ [(e, k, t, s)]) = paired xs"
  using assms unfolding paired_stamped stamped_snoc arrival_keys_stamped by (cases e) auto

lemma paired_snoc_Some:
  assumes "\<And>t'. stamped (other_role e) xs k t' \<longleftrightarrow> t' = t2"
  shows "paired (xs @ [(e, k, t, s)]) = insert (result_of (pair_ts e t t2)) (paired xs)"
  using assms unfolding paired_stamped stamped_snoc by (cases e) (auto simp: pair_ts_def)

lemma fst_pm_record_match: "fst (pm_record_match R t1 t2 m) = Some (result_of (t1, t2))"
  by (simp add: pm_record_match_def result_of_def Let_def)

lemma quiet_stamped_unique:
  assumes "quiet w xs" and "stamped e xs k t" and "stamped e xs k t'"
  shows "t' = t"
proof -
  have "inj_on (\<lambda>(e, k, _, _). (e, k)) (set xs)" using assms(1) by (simp add: quiet_def distinct_map)
  moreover obtain s s' where "(e, k, t, s) \<in> set xs" "(e, k, t', s') \<in> set xs"
    using assms(2,3) unfolding stamped_def by blast
  ultimately show ?thesis using inj_onD [of _ _ "(e, k, t, s)" "(e, k, t', s')"] by fastforce
qed

lemma quiet_run:
  fixes R :: "'d runtime" and xs :: "'k observation list"
  assumes "quiet w xs"
  defines "m \<equiv> pm_run R (pm_new R (SlotWindow w)) xs" and "rs \<equiv> pm_results R (pm_new R (SlotWindow w)) xs"
  shows "quiet_state w xs m \<and> length rs = card (arrival_keys One xs \<inter> arrival_keys Two xs) \<and> set rs = paired xs"
  using assms(1) unfolding m_def rs_def
proof (induction xs rule: rev_induct)
  case Nil
  have "pend_of e (pm_new R (SlotWindow w) :: ('d, 'k) pair_matcher) = []" for e by (cases e) simp_all
  then show ?case
    by (simp add: quiet_state_def arrivals_def arrival_keys_def paired_def)
next
  case (snoc x xs)
  obtain e k t s where x: "x = (e, k, t, s)" by (cases x)
  let ?m = "pm_run R (pm_new R (SlotWindow w)) xs" and ?new = "\<lparr>mp_ts = t, mp_slot = s\<rparr>"
  note q = snoc.prems [unfolded x]
  have IH: "quiet_state w xs ?m"
    and IHl: "length (pm_results R (pm_new R (SlotWindow w)) xs) = card (arrival_keys One xs \<inter> arrival_keys Two xs)"
    and IHs: "set (pm_results R (pm_new R (SlotWindow w)) xs) = paired xs"
    using snoc.IH quiet_snocD(1) [OF q] by simp_all
  have inv: "pm_inv ?m" by (intro pm_run_inv pm_inv_new)
  have pend: "pend_of e' (pm_prologue R s ?m) = pend_of e' ?m" for e'
    using quiet_prologue [OF q IH] by (cases e') simp_all
  have set_pend: "set (pend_of e' ?m) = {p \<in> arrivals e' xs. fst p \<notin> arrival_keys (other_role e') xs}" for e'
    using IH by (simp add: quiet_state_def)
  have k_new: "k \<notin> arrival_keys e xs" using quiet_snocD(2) [OF q] .
  have hw: "high_water_slot (pm_prologue R s ?m) = 0 \<or> (\<exists>(_, _, _, s') \<in> set (xs @ [x]). high_water_slot (pm_prologue R s ?m) = s')"
    using IH by (auto simp: quiet_state_def pm_prologue_frame x max_def)
  have ev: "pm_eviction (pm_prologue R s ?m) = SlotWindow w" using IH by (simp add: quiet_state_def pm_prologue_frame)
  have fin: "finite (arrival_keys e' xs)" for e' unfolding arrival_keys_iff [abs_def, of _ e' xs] arrival_keys_def arrivals_def
    by (rule finite_subset [of _ "(\<lambda>(e, k, _, _). k) ` set xs"]) force+
  show ?case
  proof (cases "hm_get (pend_of (other_role e) (pm_prologue R s ?m)) k")
    case None
    then have "k \<notin> hm_keys (pend_of (other_role e) ?m)" by (simp add: hm_get_None_iff pend)
    then have nk: "k \<notin> arrival_keys (other_role e) xs"
      using k_new unfolding set_pend arrival_keys_def by force
    have ks: "k \<notin> hm_keys (pend_of e ?m)" using k_new unfolding set_pend arrival_keys_def by force
    have st: "pm_step R ?m x = pend_upd e (hm_insert k ?new) (pm_prologue R s ?m)"
      unfolding pm_step_def x prod.case pm_observe_None [OF None] by simp
    have sets: "set (pend_of e' (pm_step R ?m x)) = {p \<in> arrivals e' (xs @ [x]). fst p \<notin> arrival_keys (other_role e') (xs @ [x])}" for e'
    proof (cases "e' = e")
      case True
      show ?thesis
        unfolding True st pend_upd_frame pend set_hm_insert_new [OF ks] set_pend
        unfolding x arrivals_snoc arrival_keys_snoc
        using nk by (cases e) auto
    next
      case False
      then have e': "e' = other_role e" by (cases e; cases e') simp_all
      show ?thesis
        unfolding e' st pend_upd_frame pend set_pend
        unfolding x arrivals_snoc arrival_keys_snoc
        using nk by (cases e) (auto simp: arrival_keys_def)
    qed
    have "quiet_state w (xs @ [x]) (pm_step R ?m x)"
      unfolding quiet_state_def using hw ev sets by (simp add: st pend_upd_frame)
    moreover have "arrival_keys One (xs @ [x]) \<inter> arrival_keys Two (xs @ [x]) = arrival_keys One xs \<inter> arrival_keys Two xs"
      unfolding x arrival_keys_snoc using nk by (cases e) auto
    moreover have "paired (xs @ [x]) = paired xs"
      unfolding x using nk by (rule paired_snoc_None)
    ultimately show ?thesis
      using IHl IHs unfolding x pm_results_snoc by (simp add: pm_observe_None [OF None] pm_run_append)
  next
    case (Some p)
    then have kp: "(k, p) \<in> set (pend_of (other_role e) ?m)" by (simp add: pend map_of_SomeD)
    then have ko: "k \<in> arrival_keys (other_role e) xs" unfolding set_pend arrival_keys_def by force
    have st: "pm_step R ?m x = snd (pm_record_match R (fst (pair_ts e t (mp_ts p))) (snd (pair_ts e t (mp_ts p)))
        (pend_upd (other_role e) (hm_remove k) (pm_prologue R s ?m)))"
      unfolding pm_step_def x prod.case pm_observe_Some [OF Some] by simp
    have pu: "pend_of e' (pm_step R ?m x) = (if e' = e then pend_of e ?m else hm_remove k (pend_of (other_role e) ?m))" for e'
      unfolding st using pend [of One] pend [of Two]
      by (cases e; cases e') (simp_all add: pm_record_match_frame pend_upd_def)
    have sets: "set (pend_of e' (pm_step R ?m x)) = {p \<in> arrivals e' (xs @ [x]). fst p \<notin> arrival_keys (other_role e') (xs @ [x])}" for e'
      unfolding pu set_hm_remove_eq set_pend if_distrib [of set]
      unfolding x arrivals_snoc arrival_keys_snoc
      using ko k_new by (cases e; cases e') (auto simp: arrival_keys_def image_iff)
    have "quiet_state w (xs @ [x]) (pm_step R ?m x)"
      unfolding quiet_state_def using hw ev sets by (simp add: st pm_record_match_frame pend_upd_frame)
    moreover have "arrival_keys One (xs @ [x]) \<inter> arrival_keys Two (xs @ [x])
        = insert k (arrival_keys One xs \<inter> arrival_keys Two xs)" and "k \<notin> arrival_keys One xs \<inter> arrival_keys Two xs"
      unfolding x arrival_keys_snoc using ko k_new by (cases e; auto)+
    moreover have "paired (xs @ [x]) = insert (result_of (pair_ts e t (mp_ts p))) (paired xs)"
    proof -
      have "stamped (other_role e) xs k (mp_ts p)"
        using kp unfolding set_pend arrivals_def stamped_def by auto
      then show ?thesis
        unfolding x using quiet_stamped_unique [OF quiet_snocD(1) [OF q]] by (intro paired_snoc_Some) blast
    qed
    ultimately show ?thesis
      using IHl IHs fin [of One] unfolding x pm_results_snoc
      by (simp add: pm_observe_Some [OF Some] pm_run_append fst_pm_record_match)
  qed
qed

text \<open>C11. Independence of the interleaving. On a quiet trace (no endpoint repeats a key, all slots within the
  eviction window) the outcome is a function of what arrived where, not of the order in which the two
  streams were merged: exactly the keys seen on both endpoints match, once each, with the delta of their two
  timestamps; exactly the others are pending; nothing is evicted or replaced.\<close>

theorem pair_matcher_order_independent:
  fixes R :: "'d runtime" and xs :: "'k observation list"
  assumes "quiet w xs"
  shows "let m = pm_run R (pm_new R (SlotWindow w)) xs; rs = pm_results R (pm_new R (SlotWindow w)) xs
         in matched (counts m) = of_nat (card (arrival_keys One xs \<inter> arrival_keys Two xs))
          \<and> length rs = card (arrival_keys One xs \<inter> arrival_keys Two xs)
          \<and> set rs = paired xs
          \<and> hm_keys (pending_ep1 m) = arrival_keys One xs - arrival_keys Two xs
          \<and> hm_keys (pending_ep2 m) = arrival_keys Two xs - arrival_keys One xs"
proof -
  let ?m = "pm_run R (pm_new R (SlotWindow w)) xs" and ?rs = "pm_results R (pm_new R (SlotWindow w)) xs"
  note q = quiet_run [OF assms, of R]
  have s: "set (pend_of e ?m) = {p \<in> arrivals e xs. fst p \<notin> arrival_keys (other_role e) xs}" for e
    using q by (simp add: quiet_state_def)
  have k: "hm_keys (pend_of e ?m) = arrival_keys e xs - arrival_keys (other_role e) xs" for e
    unfolding s by (auto simp: arrival_keys_def)
  have "matched (counts ?m) = of_nat (length ?rs)"
    using pm_run_digest [of R "pm_new R (SlotWindow w)" xs] by simp
  then show ?thesis using q k [of One] k [of Two] by (simp add: Let_def)
qed

theorem pair_matcher_order_independent_witness:
  "length (pm_results list_runtime (pm_new list_runtime (SlotWindow 64))
     [(One, 1 :: nat, ts_at 0, 100), (One, 2, ts_at 1, 101), (Two, 1, ts_at 2, 100), (Two, 3, ts_at 3, 164)]) = card {1 :: nat}"
  using pair_matcher_order_independent [of 64
    "[(One, 1 :: nat, ts_at 0, 100), (One, 2, ts_at 1, 101), (Two, 1, ts_at 2, 100), (Two, 3, ts_at 3, 164)]" list_runtime]
  by (simp add: quiet_def arrival_keys_def arrivals_def Let_def Collect_disj_eq conj_disj_distribL ex_disj_distrib insert_compr [symmetric])

section \<open>Eviction\<close>

text \<open>C12. Under a slot window, eviction leaves pending exactly the entries no older than the window behind the
  highest slot seen (the subtraction saturates), counts every removed entry against its endpoint, keeps the
  digest and the match counters, and a second eviction without new arrivals changes nothing.\<close>

theorem pair_matcher_eviction_window:
  assumes "pm_eviction m = SlotWindow w" and "length (pending_ep1 m) < 2 ^ 64" and "length (pending_ep2 m) < 2 ^ 64"
  shows "let m' = pm_evict R m
         in (\<forall>e. set (pend_of e m') = {p \<in> set (pend_of e m). unat (high_water_slot m) \<le> unat (mp_slot (snd p)) + unat w})
          \<and> ep1_unmatched_evicted (counts m') = ep1_unmatched_evicted (counts m) + of_nat (length (pending_ep1 m) - length (pending_ep1 m'))
          \<and> ep2_unmatched_evicted (counts m') = ep2_unmatched_evicted (counts m) + of_nat (length (pending_ep2 m) - length (pending_ep2 m'))
          \<and> matched (counts m') = matched (counts m) \<and> pm_digest m' = pm_digest m \<and> pm_buffer m' = pm_buffer m
          \<and> pm_evict R m' = m'"
proof -
  let ?P = "\<lambda>_ v. saturating_sub (high_water_slot m) w \<le> mp_slot v"
  have P: "saturating_sub (high_water_slot m) w \<le> s \<longleftrightarrow> unat (high_water_slot m) \<le> unat s + unat w" for s
    by (auto simp: word_le_nat_alt unat_saturating_sub)
  have idem: "hm_retain ?P (hm_retain ?P p) = hm_retain ?P p" for p :: "('b, match_pending) hmap"
    by (simp add: hm_retain_def)
  have sets: "set (pend_of e (pm_evict R m)) = {p \<in> set (pend_of e m). unat (high_water_slot m) \<le> unat (mp_slot (snd p)) + unat w}" for e
    using assms(1) by (cases e) (simp_all add: pm_evict_def Let_def set_hm_retain P)
  have z: "u64_from_or 0 0 = 0" by (simp add: u64_from_or_small)
  have "pm_evict R (pm_evict R m) = pm_evict R m"
    using assms(1) by (simp add: pm_evict_def [of R m] Let_def) (simp add: pm_evict_def Let_def idem z)
  then show ?thesis
    using sets assms unfolding Let_def pm_evict_frame
    by (simp add: pm_evict_def Let_def u64_from_or_small)
qed

theorem pair_matcher_eviction_window_witness:
  "let m = (pm_new list_runtime (SlotWindow 64) :: (rat list, nat) pair_matcher)
       \<lparr>pending_ep1 := [(1, \<lparr>mp_ts = ts_at 0, mp_slot = 10\<rparr>), (2, \<lparr>mp_ts = ts_at 0, mp_slot = 36\<rparr>)], high_water_slot := 100\<rparr>
   in pending_ep1 (pm_evict list_runtime m) = [(2, \<lparr>mp_ts = ts_at 0, mp_slot = 36\<rparr>)]
    \<and> pm_evict list_runtime (pm_evict list_runtime m) = pm_evict list_runtime m"
  using pair_matcher_eviction_window [of "(pm_new list_runtime (SlotWindow 64) :: (rat list, nat) pair_matcher)
       \<lparr>pending_ep1 := [(1, \<lparr>mp_ts = ts_at 0, mp_slot = 10\<rparr>), (2, \<lparr>mp_ts = ts_at 0, mp_slot = 36\<rparr>)], high_water_slot := 100\<rparr>" 64 list_runtime]
  by (simp add: Let_def) (simp add: pm_evict_def Let_def hm_retain_def saturating_sub_def)

end
