(* ===== verification/Stream_Matchers.thy ===== *)
theory Stream_Matchers
  imports Matcher_Correct
begin

text \<open>
  The four comparative matchers built on the pair matcher (\<open>src/matching/slots.rs\<close>, \<open>blocks.rs\<close>,
  \<open>transactions.rs\<close>, \<open>accounts.rs\<close>), the aggregate \<open>StreamMatchers\<close> with its dispatch, and the capture
  totals (\<open>src/matching/mod.rs\<close>). A mutex or a DashMap shard lock makes each \<open>observe\<close> atomic, so the
  threads' interleaving is the order of the list of events a run consumes.
\<close>

section \<open>Slot status\<close>

record 'd slot_matcher =
  sm_first_shred_received :: "('d, u64) pair_matcher"
  sm_completed :: "('d, u64) pair_matcher"
  sm_created_bank :: "('d, u64) pair_matcher"
  sm_processed :: "('d, u64) pair_matcher"
  sm_confirmed :: "('d, u64) pair_matcher"
  sm_finalized :: "('d, u64) pair_matcher"

definition sm_new :: "'d runtime \<Rightarrow> eviction_policy \<Rightarrow> 'd slot_matcher" where
  "sm_new R ev = \<lparr>sm_first_shred_received = pm_new R ev, sm_completed = pm_new R ev, sm_created_bank = pm_new R ev,
     sm_processed = pm_new R ev, sm_confirmed = pm_new R ev, sm_finalized = pm_new R ev\<rparr>"

text \<open>\<open>matcher_for\<close> returns a mutable reference: a reader and the matching write-back.\<close>

fun sm_matcher_for :: "slot_stage \<Rightarrow> 'd slot_matcher \<Rightarrow> ('d, u64) pair_matcher option" where
  "sm_matcher_for FirstShredReceived m = Some (sm_first_shred_received m)"
| "sm_matcher_for Completed m = Some (sm_completed m)"
| "sm_matcher_for CreatedBank m = Some (sm_created_bank m)"
| "sm_matcher_for Processed m = Some (sm_processed m)"
| "sm_matcher_for Confirmed m = Some (sm_confirmed m)"
| "sm_matcher_for Finalized m = Some (sm_finalized m)"
| "sm_matcher_for Dead m = None"

fun sm_write_back :: "slot_stage \<Rightarrow> ('d, u64) pair_matcher \<Rightarrow> 'd slot_matcher \<Rightarrow> 'd slot_matcher" where
  "sm_write_back FirstShredReceived p m = m\<lparr>sm_first_shred_received := p\<rparr>"
| "sm_write_back Completed p m = m\<lparr>sm_completed := p\<rparr>"
| "sm_write_back CreatedBank p m = m\<lparr>sm_created_bank := p\<rparr>"
| "sm_write_back Processed p m = m\<lparr>sm_processed := p\<rparr>"
| "sm_write_back Confirmed p m = m\<lparr>sm_confirmed := p\<rparr>"
| "sm_write_back Finalized p m = m\<lparr>sm_finalized := p\<rparr>"
| "sm_write_back Dead p m = m"

definition sm_observe_stage ::
  "'d runtime \<Rightarrow> 'd slot_matcher \<Rightarrow> endpoint_role \<Rightarrow> u64 \<Rightarrow> slot_stage \<Rightarrow> event_timestamp \<Rightarrow> 'd slot_matcher" where
  "sm_observe_stage R m endpoint slot stage ts =
     (case sm_matcher_for stage m of
        None \<Rightarrow> m
      | Some p \<Rightarrow> sm_write_back stage (snd (pm_observe R p endpoint slot ts slot)) m)"

record slot_status_summary =
  ss_first_shred_delay :: latency_summary
  ss_completed_delay :: latency_summary
  ss_created_bank_delay :: latency_summary
  ss_processed_delay :: latency_summary
  ss_confirmed_delay :: latency_summary
  ss_finalized_delay :: latency_summary

definition sm_summary :: "'d runtime \<Rightarrow> 'd slot_matcher \<Rightarrow> slot_status_summary \<times> 'd slot_matcher" where
  "sm_summary R m =
     (let (a, ma) = summary_from_matcher R (sm_first_shred_received m);
          (b, mb) = summary_from_matcher R (sm_completed m);
          (c, mc) = summary_from_matcher R (sm_created_bank m);
          (d, md) = summary_from_matcher R (sm_processed m);
          (e, me) = summary_from_matcher R (sm_confirmed m);
          (f, mf) = summary_from_matcher R (sm_finalized m)
      in (\<lparr>ss_first_shred_delay = a, ss_completed_delay = b, ss_created_bank_delay = c,
           ss_processed_delay = d, ss_confirmed_delay = e, ss_finalized_delay = f\<rparr>,
          \<lparr>sm_first_shred_received = ma, sm_completed = mb, sm_created_bank = mc,
           sm_processed = md, sm_confirmed = me, sm_finalized = mf\<rparr>))"

section \<open>Blocks and transactions\<close>

type_synonym block_key = "commitment \<times> u64 \<times> pubkey32"
type_synonym 'd block_matcher = "('d, block_key) pair_matcher"

definition bm_observe ::
  "'d runtime \<Rightarrow> 'd block_matcher \<Rightarrow> endpoint_role \<Rightarrow> commitment \<Rightarrow> u64 \<Rightarrow> pubkey32 \<Rightarrow> event_timestamp \<Rightarrow> 'd block_matcher" where
  "bm_observe R m endpoint c slot blockhash ts = snd (pm_observe R m endpoint (c, slot, blockhash) ts slot)"

type_synonym tx_key = "u64 \<times> signature64"
type_synonym 'd transaction_matcher = "('d, tx_key) pair_matcher"

definition tm_observe ::
  "'d runtime \<Rightarrow> 'd transaction_matcher \<Rightarrow> endpoint_role \<Rightarrow> u64 \<Rightarrow> signature64 \<Rightarrow> event_timestamp \<Rightarrow> 'd transaction_matcher" where
  "tm_observe R m endpoint slot sig ts = snd (pm_observe R m endpoint (slot, sig) ts slot)"

section \<open>Accounts\<close>

type_synonym account_key = "u64 \<times> pubkey32 \<times> signature64 option \<times> u64 option"

record 'd program_digest =
  pd_digest :: 'd
  pd_buffer :: "rat list"
  pd_counts :: match_counts

definition pd_new :: "'d runtime \<Rightarrow> 'd program_digest" where
  "pd_new R = \<lparr>pd_digest = td_new R TDIGEST_COMPRESSION, pd_buffer = [], pd_counts = match_counts_default\<rparr>"

definition pd_flush :: "'d runtime \<Rightarrow> 'd program_digest \<Rightarrow> 'd program_digest" where
  "pd_flush R p =
     (if pd_buffer p = [] then p
      else p\<lparr>pd_buffer := [], pd_digest := td_merge_unsorted R (pd_digest p) (pd_buffer p)\<rparr>)"

definition pd_push :: "'d runtime \<Rightarrow> rat \<Rightarrow> 'd program_digest \<Rightarrow> 'd program_digest" where
  "pd_push R v p =
     (let c = (pd_counts p)\<lparr>matched := matched (pd_counts p) + 1\<rparr>;
          c' = (if 0 < v then c\<lparr>ep1_faster := ep1_faster c + 1\<rparr>
                else if v < 0 then c\<lparr>ep2_faster := ep2_faster c + 1\<rparr> else c);
          p' = p\<lparr>pd_buffer := pd_buffer p @ [v], pd_counts := c'\<rparr>
      in if TDIGEST_BUFFER_FLUSH \<le> length (pd_buffer p') then pd_flush R p' else p')"

definition pd_quantile :: "'d runtime \<Rightarrow> 'd program_digest \<Rightarrow> rat \<Rightarrow> f64 \<times> 'd program_digest" where
  "pd_quantile R p q =
     (let p' = pd_flush R p
      in (if td_is_empty R (pd_digest p') then NaN else td_estimate_quantile R (pd_digest p') q, p'))"

definition pd_summary :: "'d runtime \<Rightarrow> 'd program_digest \<Rightarrow> latency_summary \<times> 'd program_digest" where
  "pd_summary R p =
     (let c = pd_counts p;
          (p50, p1) = pd_quantile R p q50;
          (p90, p2) = pd_quantile R p1 q90;
          (p99, p3) = pd_quantile R p2 q99;
          (p999, p4) = pd_quantile R p3 q999
      in (\<lparr>ls_p50 = p50, ls_p90 = p90, ls_p99 = p99, ls_p99_9 = p999, ls_matched = matched c,
           ls_ep1_faster = ep1_faster c, ls_ep2_faster = ep2_faster c\<rparr>, p4))"

interpretation pd_bd: buffered_digest "td_merge_unsorted R" pd_digest pd_buffer "pd_push R" "pd_flush R"
  for R :: "'d runtime"
  by unfold_locales (auto simp: pd_flush_def pd_push_def Let_def)

record 'd program_shard =
  sh_main :: "('d, account_key) pair_matcher"
  sh_digest :: "'d program_digest"

definition sh_new :: "'d runtime \<Rightarrow> eviction_policy \<Rightarrow> 'd program_shard" where
  "sh_new R ev = \<lparr>sh_main = pm_new R ev, sh_digest = pd_new R\<rparr>"

record 'd account_matcher =
  am_shards :: "(pubkey32, 'd program_shard) hmap"
  am_program_short_names :: "(pubkey32, string) hmap"
  am_eviction :: eviction_policy
  am_strict_account_key :: bool

definition am_new :: "eviction_policy \<Rightarrow> (pubkey32, string) hmap \<Rightarrow> 'd account_matcher" where
  "am_new ev names = \<lparr>am_shards = [], am_program_short_names = names, am_eviction = ev, am_strict_account_key = False\<rparr>"

definition am_with_strict_account_key :: "bool \<Rightarrow> 'd account_matcher \<Rightarrow> 'd account_matcher" where
  "am_with_strict_account_key b m = m\<lparr>am_strict_account_key := b\<rparr>"

definition account_key_of :: "bool \<Rightarrow> u64 \<Rightarrow> pubkey32 \<Rightarrow> signature64 option \<Rightarrow> u64 \<Rightarrow> account_key" where
  "account_key_of strict slot pubkey sig wv = (slot, pubkey, sig, if strict then Some wv else None)"

definition sh_observe ::
  "'d runtime \<Rightarrow> 'd program_shard \<Rightarrow> endpoint_role \<Rightarrow> account_key \<Rightarrow> event_timestamp \<Rightarrow> u64 \<Rightarrow> 'd program_shard" where
  "sh_observe R sh endpoint key ts slot =
     (case pm_observe R (sh_main sh) endpoint key ts slot of
        (Some r, m') \<Rightarrow> sh\<lparr>sh_main := m', sh_digest := pd_push R (delta_ms r) (sh_digest sh)\<rparr>
      | (None, m') \<Rightarrow> sh\<lparr>sh_main := m'\<rparr>)"

definition am_observe ::
  "'d runtime \<Rightarrow> 'd account_matcher \<Rightarrow> endpoint_role \<Rightarrow> u64 \<Rightarrow> pubkey32 \<Rightarrow> u64 \<Rightarrow> signature64 option \<Rightarrow> pubkey32
     \<Rightarrow> event_timestamp \<Rightarrow> 'd account_matcher" where
  "am_observe R am endpoint slot pubkey wv sig owner ts =
     (let key = account_key_of (am_strict_account_key am) slot pubkey sig wv;
          sh = (case hm_get (am_shards am) owner of Some sh \<Rightarrow> sh | None \<Rightarrow> sh_new R (am_eviction am))
      in am\<lparr>am_shards := hm_insert owner (sh_observe R sh endpoint key ts slot) (am_shards am)\<rparr>)"

definition add_counts :: "match_counts \<Rightarrow> match_counts \<Rightarrow> match_counts" where
  "add_counts a c =
     \<lparr>matched = matched a + matched c, ep1_faster = ep1_faster a + ep1_faster c, ep2_faster = ep2_faster a + ep2_faster c,
      ep1_unmatched_evicted = ep1_unmatched_evicted a + ep1_unmatched_evicted c,
      ep2_unmatched_evicted = ep2_unmatched_evicted a + ep2_unmatched_evicted c\<rparr>"

text \<open>One iteration of the summary loop: the shard is evicted and flushed in place.\<close>

definition sh_snapshot :: "'d runtime \<Rightarrow> 'd program_shard \<Rightarrow> ('d \<times> match_counts) \<times> 'd program_shard" where
  "sh_snapshot R sh =
     (let m1 = pm_evict R (sh_main sh); (d, m2) = pm_snapshot_digest R m1
      in ((d, counts m2), sh\<lparr>sh_main := m2\<rparr>))"

definition am_summary :: "'d runtime \<Rightarrow> 'd account_matcher \<Rightarrow> latency_summary \<times> 'd account_matcher" where
  "am_summary R am =
     (let snaps = map (\<lambda>(owner, sh). fst (sh_snapshot R sh)) (hm_iter R (am_shards am));
          digests = map fst snaps;
          c = foldl add_counts match_counts_default (map snd snaps);
          merged = (if digests = [] then td_new R TDIGEST_COMPRESSION else td_merge_digests R digests);
          est = (\<lambda>q. if td_is_empty R merged then NaN else td_estimate_quantile R merged q)
      in (\<lparr>ls_p50 = est q50, ls_p90 = est q90, ls_p99 = est q99, ls_p99_9 = est q999, ls_matched = matched c,
           ls_ep1_faster = ep1_faster c, ls_ep2_faster = ep2_faster c\<rparr>,
          am\<lparr>am_shards := map (\<lambda>(owner, sh). (owner, snd (sh_snapshot R sh))) (am_shards am)\<rparr>))"

definition am_short_name :: "'d account_matcher \<Rightarrow> pubkey32 \<Rightarrow> string" where
  "am_short_name am owner = (case hm_get (am_program_short_names am) owner of Some n \<Rightarrow> n | None \<Rightarrow> ''unknown'')"

definition am_per_program_summary ::
  "'d runtime \<Rightarrow> 'd account_matcher \<Rightarrow> (string, latency_summary) hmap \<times> 'd account_matcher" where
  "am_per_program_summary R am =
     (foldl (\<lambda>out (owner, sh). hm_insert (am_short_name am owner) (fst (pd_summary R (sh_digest sh))) out) []
        (hm_iter R (am_shards am)),
      am\<lparr>am_shards := map (\<lambda>(owner, sh). (owner, sh\<lparr>sh_digest := snd (pd_summary R (sh_digest sh))\<rparr>)) (am_shards am)\<rparr>)"

section \<open>The aggregate and the dispatch\<close>

record 'd stream_matchers =
  sms_slots :: "'d slot_matcher"
  sms_accounts :: "'d account_matcher"
  sms_transactions :: "'d transaction_matcher"
  sms_blocks :: "'d block_matcher"

definition sms_new :: "'d runtime \<Rightarrow> (pubkey32, string) hmap \<Rightarrow> 'd stream_matchers" where
  "sms_new R names =
     (let window = SlotWindow 64
      in \<lparr>sms_slots = sm_new R window, sms_accounts = am_new window names,
          sms_transactions = pm_new R window, sms_blocks = pm_new R window\<rparr>)"

definition sms_with_strict_account_key :: "bool \<Rightarrow> 'd stream_matchers \<Rightarrow> 'd stream_matchers" where
  "sms_with_strict_account_key strict s = s\<lparr>sms_accounts := am_with_strict_account_key strict (sms_accounts s)\<rparr>"

definition dispatch :: "'d runtime \<Rightarrow> event \<Rightarrow> 'd stream_matchers \<Rightarrow> 'd stream_matchers" where
  "dispatch R ev s =
     (let endpoint = ev_endpoint ev; ts = ev_ts ev
      in case ev_payload ev of
           Slot_Payload slot stage \<Rightarrow> s\<lparr>sms_slots := sm_observe_stage R (sms_slots s) endpoint slot stage ts\<rparr>
         | Account_Payload slot pubkey owner wv sig _ \<Rightarrow>
             s\<lparr>sms_accounts := am_observe R (sms_accounts s) endpoint slot pubkey wv sig owner ts\<rparr>
         | Transaction_Payload slot sig _ \<Rightarrow>
             s\<lparr>sms_transactions := tm_observe R (sms_transactions s) endpoint slot sig ts\<rparr>
         | Block_Payload slot blockhash _ _ _ \<Rightarrow>
             (case ev_subscription ev of
                Main _ c _ \<Rightarrow> s\<lparr>sms_blocks := bm_observe R (sms_blocks s) endpoint c slot blockhash ts\<rparr>
              | Entries _ \<Rightarrow> s)
         | Entry_Payload _ _ _ _ \<Rightarrow> s)"

record capture_totals =
  ct_ep1 :: u64
  ct_ep2 :: u64

definition ct_add :: "endpoint_role \<Rightarrow> u64 \<Rightarrow> capture_totals \<Rightarrow> capture_totals" where
  "ct_add role received t =
     (case role of
        One \<Rightarrow> t\<lparr>ct_ep1 := saturating_add (ct_ep1 t) received\<rparr>
      | Two \<Rightarrow> t\<lparr>ct_ep2 := saturating_add (ct_ep2 t) received\<rparr>)"

end
