(* ===== verification/Streams_Correct.thy ===== *)
theory Streams_Correct
  imports Stream_Matchers
begin

text \<open>
  Correctness of the comparative matchers: which pair matcher sees which events, why the sharded account
  matcher computes per program what an unsharded one would, and how the overall account summary relates to
  the per-program map.
\<close>

section \<open>Every match is a pair of arrivals of one key\<close>

definition pend_sound :: "('d, 'k) pair_matcher \<Rightarrow> 'k observation list \<Rightarrow> bool" where
  "pend_sound m xs \<longleftrightarrow> hm_wf (pending_ep1 m) \<and> hm_wf (pending_ep2 m) \<and> (\<forall>e. set (pend_of e m) \<subseteq> arrivals e xs)"

lemma pend_sound_prologue: "pend_sound m xs \<Longrightarrow> pend_sound (pm_prologue R s m) xs"
proof -
  assume p: "pend_sound m xs"
  then have "set (pend_of e (pm_prologue R s m)) \<subseteq> set (pend_of e m)" for e
    using pm_prologue_pending [of m R s] by (cases e) (simp_all add: pend_sound_def)
  with p show ?thesis using pm_prologue_pending [of m R s] unfolding pend_sound_def by blast
qed

lemma pend_sound_upd:
  assumes "pend_sound m xs" and "\<And>p. hm_wf p \<Longrightarrow> hm_wf (f p)"
    and "set (f (pend_of e m)) \<subseteq> arrivals e xs"
  shows "pend_sound (pend_upd e f m) xs"
proof -
  have "set (pend_of e' (pend_upd e f m)) \<subseteq> arrivals e' xs" for e'
    using assms(1,3) unfolding pend_sound_def by (cases e; cases e'; simp add: pend_upd_def; metis pend_of_simps)
  with assms(1,2) show ?thesis unfolding pend_sound_def by (cases e) (simp_all add: pend_upd_def)
qed

lemma pend_sound_mono: "pend_sound m xs \<Longrightarrow> pend_sound m (xs @ [x])"
  by (cases x) (auto simp: pend_sound_def arrivals_snoc)

lemma pm_run_sound:
  fixes R :: "'d runtime" and xs :: "'k observation list"
  shows "pend_sound (pm_run R (pm_new R ev) xs) xs \<and> set (pm_results R (pm_new R ev) xs) \<subseteq> paired xs"
proof (induction xs rule: rev_induct)
  case Nil
  have "pend_of e (pm_new R ev :: ('d, 'k) pair_matcher) = []" for e by (cases e) simp_all
  then show ?case by (simp add: pend_sound_def)
next
  case (snoc x xs)
  obtain e k t s where x: "x = (e, k, t, s)" by (cases x)
  let ?m = "pm_run R (pm_new R ev) xs"
  let ?m1 = "pm_prologue R s ?m"
  have s1: "pend_sound ?m1 (xs @ [x])" using snoc by (intro pend_sound_mono pend_sound_prologue) simp
  have mon: "paired xs \<subseteq> paired (xs @ [x])" unfolding paired_def by auto
  show ?case
  proof (cases "hm_get (pend_of (other_role e) ?m1) k")
    case None
    let ?v = "\<lparr>mp_ts = t, mp_slot = s\<rparr>"
    have "set (hm_insert k ?v (pend_of e ?m1)) \<subseteq> arrivals e (xs @ [x])"
    proof -
      have "set (pend_of e ?m1) \<subseteq> arrivals e (xs @ [x])" using s1 unfolding pend_sound_def by blast
      moreover have "(k, ?v) \<in> arrivals e (xs @ [x])" unfolding x arrivals_snoc by simp
      ultimately show ?thesis using set_hm_insert [of k ?v "pend_of e ?m1"] by blast
    qed
    then have "pend_sound (pend_upd e (hm_insert k ?v) ?m1) (xs @ [x])"
      using s1 by (intro pend_sound_upd) simp_all
    then show ?thesis
      using snoc mon unfolding x pm_results_snoc by (auto simp: pm_run_append pm_step_def pm_observe_None [OF None])
  next
    case (Some p)
    let ?m2 = "pend_upd (other_role e) (hm_remove k) ?m1"
    have "(k, p) \<in> arrivals (other_role e) xs"
      using map_of_SomeD [OF Some] pend_sound_prologue [OF conjunct1 [OF snoc], of R s] unfolding pend_sound_def by blast
    then have "stamped (other_role e) xs k (mp_ts p)" unfolding arrivals_def stamped_def by auto
    then have "result_of (pair_ts e t (mp_ts p)) \<in> paired (xs @ [x])"
      unfolding paired_stamped x stamped_snoc by (cases e) (auto simp: pair_ts_def)
    moreover have "set (hm_remove k (pend_of (other_role e) ?m1)) \<subseteq> arrivals (other_role e) (xs @ [x])"
      using set_hm_remove [of k "pend_of (other_role e) ?m1"] s1 unfolding pend_sound_def by blast
    then have "pend_sound ?m2 (xs @ [x])" using s1 by (intro pend_sound_upd) simp_all
    then have "pend_sound (snd (pm_record_match R t1 t2 ?m2)) (xs @ [x])" for t1 t2
      unfolding pend_sound_def pend_of_def pm_record_match_frame .
    ultimately show ?thesis
      using snoc mon unfolding x pm_results_snoc
      by (auto simp: pm_run_append pm_step_def pm_observe_Some [OF Some] fst_pm_record_match)
  qed
qed

text \<open>C14. No spurious match: on any input whatsoever, with any eviction policy, every reported match pairs an
  arrival on endpoint one with an arrival on endpoint two that carry the same key, and its delta is the
  difference of exactly those two timestamps; and every entry still pending arrived on its own endpoint with
  that timestamp and slot.\<close>

theorem pair_matcher_matches_sound:
  fixes R :: "'d runtime" and xs :: "'k observation list"
  shows "set (pm_results R (pm_new R ev) xs) \<subseteq> paired xs
    \<and> (\<forall>e. set (pend_of e (pm_run R (pm_new R ev) xs)) \<subseteq> arrivals e xs)"
  using pm_run_sound [of R ev xs] unfolding pend_sound_def by blast

section \<open>Which matcher sees which events\<close>

definition slot_obs :: "slot_stage \<Rightarrow> event \<Rightarrow> u64 observation list" where
  "slot_obs st ev = (case ev_payload ev of
     Slot_Payload slot stage \<Rightarrow> if stage = st then [(ev_endpoint ev, slot, ev_ts ev, slot)] else []
   | _ \<Rightarrow> [])"

definition tx_obs :: "event \<Rightarrow> tx_key observation list" where
  "tx_obs ev = (case ev_payload ev of
     Transaction_Payload slot sig _ \<Rightarrow> [(ev_endpoint ev, (slot, sig), ev_ts ev, slot)] | _ \<Rightarrow> [])"

definition block_obs :: "event \<Rightarrow> block_key observation list" where
  "block_obs ev = (case (ev_payload ev, ev_subscription ev) of
     (Block_Payload slot bh _ _ _, Main e c _) \<Rightarrow> [(e, (c, slot, bh), ev_ts ev, slot)] | _ \<Rightarrow> [])"

definition account_obs :: "bool \<Rightarrow> pubkey32 \<Rightarrow> event \<Rightarrow> account_key observation list" where
  "account_obs strict owner ev = (case ev_payload ev of
     Account_Payload slot pubkey o' wv sig _ \<Rightarrow>
       if o' = owner then [(ev_endpoint ev, account_key_of strict slot pubkey sig wv, ev_ts ev, slot)] else []
   | _ \<Rightarrow> [])"

definition obs_of :: "(event \<Rightarrow> 'k observation list) \<Rightarrow> event list \<Rightarrow> 'k observation list" where
  "obs_of f evs = concat (map f evs)"

lemma obs_of_simps [simp]: "obs_of f [] = []" "obs_of f (ev # evs) = f ev @ obs_of f evs"
  by (simp_all add: obs_of_def)

lemma sm_write_back_read:
  "sm_matcher_for st (sm_write_back st' p m) =
     (if st' = st \<and> st \<noteq> Dead then Some p else sm_matcher_for st m)"
  by (cases st; cases st') simp_all

lemma sm_matcher_for_Dead: "sm_matcher_for st m = None \<longleftrightarrow> st = Dead"
  by (cases st) simp_all

lemma sm_observe_stage_read:
  "sm_matcher_for st (sm_observe_stage R m e slot st' ts) =
     (if st' = st then map_option (\<lambda>p. pm_run R p [(e, slot, ts, slot)]) (sm_matcher_for st m) else sm_matcher_for st m)"
  by (cases "sm_matcher_for st' m")
     (auto simp: sm_observe_stage_def sm_write_back_read sm_matcher_for_Dead pm_step_def)

lemma dispatch_slots:
  "sm_matcher_for st (sms_slots (dispatch R ev s)) =
     map_option (\<lambda>p. pm_run R p (slot_obs st ev)) (sm_matcher_for st (sms_slots s))"
  by (simp add: dispatch_def Let_def slot_obs_def sm_observe_stage_read option.map_ident
      split: event_payload.split subscription_role.split)

lemma dispatch_transactions: "sms_transactions (dispatch R ev s) = pm_run R (sms_transactions s) (tx_obs ev)"
  by (simp add: dispatch_def Let_def tx_obs_def tm_observe_def pm_step_def
      split: event_payload.split subscription_role.split)

lemma dispatch_blocks: "sms_blocks (dispatch R ev s) = pm_run R (sms_blocks s) (block_obs ev)"
  by (simp add: dispatch_def Let_def block_obs_def bm_observe_def pm_step_def
      split: event_payload.split subscription_role.split)

lemma dispatch_fold:
  "sm_matcher_for st (sms_slots (fold (dispatch R) evs s))
     = map_option (\<lambda>p. pm_run R p (obs_of (slot_obs st) evs)) (sm_matcher_for st (sms_slots s))
   \<and> sms_transactions (fold (dispatch R) evs s) = pm_run R (sms_transactions s) (obs_of tx_obs evs)
   \<and> sms_blocks (fold (dispatch R) evs s) = pm_run R (sms_blocks s) (obs_of block_obs evs)"
proof (induction evs arbitrary: s)
  case (Cons ev evs)
  show ?case
    using Cons [of "dispatch R ev s"]
    by (simp add: dispatch_slots dispatch_transactions dispatch_blocks pm_run_append option.map_comp comp_def)
qed (simp add: option.map_ident)

lemma sm_new_matcher: "st \<noteq> Dead \<Longrightarrow> sm_matcher_for st (sm_new R ev) = Some (pm_new R ev)"
  by (cases st) (simp_all add: sm_new_def)

text \<open>C18. Routing. After dispatching any merged event stream, the matcher of each slot stage is the run of one
  fresh pair matcher over exactly the slot events of that stage (there is none for \<open>Dead\<close>), the transaction
  matcher over exactly the transaction events, and the block matcher over exactly the block events of main
  subscriptions, keyed with their commitment; entries reach none of them.\<close>

theorem dispatch_routes_streams:
  fixes R :: "'d runtime"
  shows "let s = fold (dispatch R) evs (sms_new R names)
         in (\<forall>st. sm_matcher_for st (sms_slots s) =
               (if st = Dead then None else Some (pm_run R (pm_new R (SlotWindow 64)) (obs_of (slot_obs st) evs))))
          \<and> sms_transactions s = pm_run R (pm_new R (SlotWindow 64)) (obs_of tx_obs evs)
          \<and> sms_blocks s = pm_run R (pm_new R (SlotWindow 64)) (obs_of block_obs evs)"
  using dispatch_fold [of _ R evs "sms_new R names"]
  by (simp add: Let_def sms_new_def sm_new_matcher)

section \<open>Account shards\<close>

text \<open>The program digest duplicates the digest of its pair matcher.\<close>

definition shard_sync :: "'d program_shard \<Rightarrow> bool" where
  "shard_sync sh \<longleftrightarrow> pd_digest (sh_digest sh) = pm_digest (sh_main sh) \<and> pd_buffer (sh_digest sh) = pm_buffer (sh_main sh)
     \<and> matched (pd_counts (sh_digest sh)) = matched (counts (sh_main sh))
     \<and> ep1_faster (pd_counts (sh_digest sh)) = ep1_faster (counts (sh_main sh))
     \<and> ep2_faster (pd_counts (sh_digest sh)) = ep2_faster (counts (sh_main sh))"

lemma pd_push_counts:
  "matched (pd_counts (pd_push R v p)) = matched (pd_counts p) + 1"
  "ep1_faster (pd_counts (pd_push R v p)) = ep1_faster (pd_counts p) + (if 0 < v then 1 else 0)"
  "ep2_faster (pd_counts (pd_push R v p)) = ep2_faster (pd_counts p) + (if v < 0 then 1 else 0)"
  by (simp_all add: pd_push_def pd_flush_def Let_def)

lemma sh_observe_sync:
  assumes "shard_sync sh"
  shows "shard_sync (sh_observe R sh e k ts s) \<and> sh_main (sh_observe R sh e k ts s) = pm_run R (sh_main sh) [(e, k, ts, s)]"
proof -
  obtain r m' where o: "pm_observe R (sh_main sh) e k ts s = (r, m')" by fastforce
  show ?thesis
    using pm_observe_digest [OF o] assms
    by (cases r) (simp_all add: sh_observe_def o shard_sync_def pm_step_def pd_push_counts
        pd_bd.push_buf pd_bd.push_dig pm_bd.push_buf pm_bd.push_dig)
qed

definition shard_at :: "'d runtime \<Rightarrow> eviction_policy \<Rightarrow> 'd program_shard option \<Rightarrow> account_key observation list \<Rightarrow> bool" where
  "shard_at R ev so xs \<longleftrightarrow> (case so of
     None \<Rightarrow> xs = []
   | Some sh \<Rightarrow> xs \<noteq> [] \<and> shard_sync sh \<and> sh_main sh = pm_run R (pm_new R ev) xs)"

definition shards_ok :: "'d runtime \<Rightarrow> 'd account_matcher \<Rightarrow> event list \<Rightarrow> bool" where
  "shards_ok R am evs \<longleftrightarrow> hm_wf (am_shards am) \<and> (\<forall>owner.
     shard_at R (am_eviction am) (hm_get (am_shards am) owner) (obs_of (account_obs (am_strict_account_key am) owner) evs))"

lemma obs_of_snoc: "obs_of f (evs @ [ev]) = obs_of f evs @ f ev"
  by (simp add: obs_of_def)

lemma shard_sync_new: "shard_sync (sh_new R ev)"
  by (simp add: shard_sync_def sh_new_def pd_new_def)

lemma am_observe_shards_ok:
  assumes ok: "shards_ok R am evs" and p: "ev_payload ev = Account_Payload slot pk owner wv sig lam"
  shows "shards_ok R (am_observe R am (ev_endpoint ev) slot pk wv sig owner (ev_ts ev)) (evs @ [ev])"
proof -
  let ?st = "am_strict_account_key am"
  let ?key = "account_key_of ?st slot pk sig wv"
  define sh where "sh = (case hm_get (am_shards am) owner of Some sh \<Rightarrow> sh | None \<Rightarrow> sh_new R (am_eviction am))"
  let ?sh' = "sh_observe R sh (ev_endpoint ev) ?key (ev_ts ev) slot"
  have am': "am_observe R am (ev_endpoint ev) slot pk wv sig owner (ev_ts ev)
      = am\<lparr>am_shards := hm_insert owner ?sh' (am_shards am)\<rparr>"
    by (simp add: am_observe_def sh_def Let_def)
  have ob: "account_obs ?st ow ev = (if ow = owner then [(ev_endpoint ev, ?key, ev_ts ev, slot)] else [])" for ow
    by (auto simp: account_obs_def p)
  have at: "shard_at R (am_eviction am) (hm_get (am_shards am) ow) (obs_of (account_obs ?st ow) evs)" for ow
    using ok by (simp add: shards_ok_def)
  have sh: "shard_sync sh \<and> sh_main sh = pm_run R (pm_new R (am_eviction am)) (obs_of (account_obs ?st owner) evs)"
    using at [of owner] shard_sync_new [of R "am_eviction am"] unfolding shard_at_def sh_def
    by (cases "hm_get (am_shards am) owner") (simp_all add: sh_new_def)
  have "shard_at R (am_eviction am) (if ow = owner then Some ?sh' else hm_get (am_shards am) ow)
      (obs_of (account_obs ?st ow) evs @ account_obs ?st ow ev)" for ow
  proof (cases "ow = owner")
    case True
    then show ?thesis
      using sh_observe_sync [OF conjunct1 [OF sh], of R "ev_endpoint ev" ?key "ev_ts ev" slot] sh
      by (simp add: shard_at_def ob pm_run_append)
  qed (simp add: ob at)
  then show ?thesis
    using ok unfolding am' shards_ok_def by (simp add: hm_get_insert obs_of_snoc fun_upd_def)
qed

lemma dispatch_accounts_other:
  "(\<And>slot pk ow wv sig lam. ev_payload ev \<noteq> Account_Payload slot pk ow wv sig lam) \<Longrightarrow>
   sms_accounts (dispatch R ev s) = sms_accounts s \<and> account_obs strict owner ev = []"
  by (auto simp: dispatch_def Let_def account_obs_def split: event_payload.split subscription_role.split)

lemma dispatch_shards_ok:
  fixes R :: "'d runtime" and s :: "'d stream_matchers"
  assumes "shards_ok R (sms_accounts s) []"
  shows "shards_ok R (sms_accounts (fold (dispatch R) evs s)) evs
    \<and> am_program_short_names (sms_accounts (fold (dispatch R) evs s)) = am_program_short_names (sms_accounts s)
    \<and> am_strict_account_key (sms_accounts (fold (dispatch R) evs s)) = am_strict_account_key (sms_accounts s)
    \<and> am_eviction (sms_accounts (fold (dispatch R) evs s)) = am_eviction (sms_accounts s)"
proof (induction evs rule: rev_induct)
  case (snoc ev evs)
  let ?s = "fold (dispatch R) evs s"
  show ?case
  proof (cases "\<exists>slot pk ow wv sig lam. ev_payload ev = Account_Payload slot pk ow wv sig lam")
    case True
    then obtain slot pk ow wv sig lam where p: "ev_payload ev = Account_Payload slot pk ow wv sig lam" by blast
    have d: "sms_accounts (dispatch R ev ?s) = am_observe R (sms_accounts ?s) (ev_endpoint ev) slot pk wv sig ow (ev_ts ev)"
      by (simp add: dispatch_def Let_def p)
    show ?thesis using am_observe_shards_ok [OF conjunct1 [OF snoc] p] snoc by (simp add: d) (simp add: am_observe_def Let_def)
  next
    case False
    then have d: "sms_accounts (dispatch R ev ?s) = sms_accounts ?s"
      and ob: "account_obs st ow ev = []" for st ow
      using dispatch_accounts_other [of ev R ?s] by blast+
    have oe: "obs_of (account_obs st ow) (evs @ [ev]) = obs_of (account_obs st ow) evs" for st ow
      by (simp add: obs_of_snoc ob)
    show ?thesis using snoc unfolding shards_ok_def fold_append comp_apply fold.simps id_apply d oe .
  qed
qed (use assms in simp)

lemma sms_new_shards_ok: "shards_ok R (sms_accounts (sms_with_strict_account_key b (sms_new R names))) []"
  by (simp add: shards_ok_def shard_at_def sms_new_def sms_with_strict_account_key_def am_with_strict_account_key_def am_new_def Let_def)

lemma pm_quantile_dig:
  "fst (pm_quantile R m q) = (let d = pm_digest (pm_flush R m) in if td_is_empty R d then NaN else td_estimate_quantile R d q)"
  "snd (pm_quantile R m q) = pm_flush R m"
  by (simp_all add: pm_quantile_def Let_def)

lemma pd_quantile_dig:
  "fst (pd_quantile R p q) = (let d = pd_digest (pd_flush R p) in if td_is_empty R d then NaN else td_estimate_quantile R d q)"
  "snd (pd_quantile R p q) = pd_flush R p"
  by (simp_all add: pd_quantile_def Let_def)

lemma pd_summary_eq:
  "fst (pd_summary R p) =
    (let d = pd_digest (pd_flush R p); est = (\<lambda>q. if td_is_empty R d then NaN else td_estimate_quantile R d q); c = pd_counts p
     in \<lparr>ls_p50 = est q50, ls_p90 = est q90, ls_p99 = est q99, ls_p99_9 = est q999, ls_matched = matched c,
         ls_ep1_faster = ep1_faster c, ls_ep2_faster = ep2_faster c\<rparr>)"
  by (simp add: pd_summary_def pd_quantile_dig Let_def case_prod_beta pd_bd.flush_dig pd_bd.flush_buf)

lemma summary_from_matcher_eq:
  "fst (summary_from_matcher R m) =
    (let d = pm_digest (pm_flush R m); est = (\<lambda>q. if td_is_empty R d then NaN else td_estimate_quantile R d q); c = counts m
     in \<lparr>ls_p50 = est q50, ls_p90 = est q90, ls_p99 = est q99, ls_p99_9 = est q999, ls_matched = matched c,
         ls_ep1_faster = ep1_faster c, ls_ep2_faster = ep2_faster c\<rparr>)"
  by (simp add: summary_from_matcher_def pm_quantile_dig Let_def case_prod_beta pm_evict_frame
      pm_bd.flush_dig pm_bd.flush_buf)

lemma shard_sync_summary: "shard_sync sh \<Longrightarrow> fst (pd_summary R (sh_digest sh)) = fst (summary_from_matcher R (sh_main sh))"
  by (simp add: pd_summary_eq summary_from_matcher_eq shard_sync_def pd_bd.flush_dig pm_bd.flush_dig Let_def)

text \<open>C19. Sharding is transparent. After dispatching any event stream, a shard exists exactly for the owners
  that occur, each shard's pair matcher is the run of one fresh matcher over that owner's events alone, and
  the separately maintained program digest yields the very summary (quantiles and counts) of that matcher,
  in lenient and in strict key mode.\<close>

theorem account_shards_isolated:
  fixes R :: "'d runtime"
  shows "let am = sms_accounts (fold (dispatch R) evs (sms_with_strict_account_key strict (sms_new R names)))
         in \<forall>owner. (case hm_get (am_shards am) owner of
              None \<Rightarrow> obs_of (account_obs strict owner) evs = []
            | Some sh \<Rightarrow> obs_of (account_obs strict owner) evs \<noteq> []
                \<and> sh_main sh = pm_run R (pm_new R (SlotWindow 64)) (obs_of (account_obs strict owner) evs)
                \<and> fst (pd_summary R (sh_digest sh)) = fst (summary_from_matcher R (sh_main sh)))"
proof -
  let ?s0 = "sms_with_strict_account_key strict (sms_new R names)"
  have st: "am_strict_account_key (sms_accounts ?s0) = strict" "am_eviction (sms_accounts ?s0) = SlotWindow 64"
    by (simp_all add: sms_with_strict_account_key_def am_with_strict_account_key_def sms_new_def am_new_def Let_def)
  let ?am = "sms_accounts (fold (dispatch R) evs ?s0)"
  have ok: "shards_ok R ?am evs" and am: "am_strict_account_key ?am = strict" "am_eviction ?am = SlotWindow 64"
    using dispatch_shards_ok [OF sms_new_shards_ok [of R strict names], of evs] st by simp_all
  have at: "shard_at R (SlotWindow 64) (hm_get (am_shards ?am) owner) (obs_of (account_obs strict owner) evs)" for owner
    using ok unfolding shards_ok_def am by blast
  show ?thesis
    unfolding Let_def
  proof (intro allI, goal_cases)
    case (1 owner)
    show ?case
      using at [of owner] by (cases "hm_get (am_shards ?am) owner") (simp_all add: shard_at_def shard_sync_summary)
  qed
qed

section \<open>Overall and per-program summaries\<close>

lemma add_counts_matched: "matched (foldl add_counts c cs) = matched c + sum_list (map matched cs)"
  by (induction cs arbitrary: c) (simp_all add: add_counts_def)

lemma add_counts_faster:
  "ep1_faster (foldl add_counts c cs) = ep1_faster c + sum_list (map ep1_faster cs)"
  "ep2_faster (foldl add_counts c cs) = ep2_faster c + sum_list (map ep2_faster cs)"
  by (induction cs arbitrary: c) (simp_all add: add_counts_def)

lemma sh_snapshot_counts:
  "matched (snd (fst (sh_snapshot R sh))) = matched (counts (sh_main sh))"
  "ep1_faster (snd (fst (sh_snapshot R sh))) = ep1_faster (counts (sh_main sh))"
  "ep2_faster (snd (fst (sh_snapshot R sh))) = ep2_faster (counts (sh_main sh))"
  by (simp_all add: sh_snapshot_def pm_snapshot_digest_def Let_def pm_frame)

lemma am_summary_counts:
  "ls_matched (fst (am_summary R am)) = sum_list (map (\<lambda>(_, sh). matched (counts (sh_main sh))) (hm_iter R (am_shards am)))"
  "ls_ep1_faster (fst (am_summary R am)) = sum_list (map (\<lambda>(_, sh). ep1_faster (counts (sh_main sh))) (hm_iter R (am_shards am)))"
  "ls_ep2_faster (fst (am_summary R am)) = sum_list (map (\<lambda>(_, sh). ep2_faster (counts (sh_main sh))) (hm_iter R (am_shards am)))"
  by (simp_all add: am_summary_def Let_def add_counts_matched add_counts_faster comp_def case_prod_unfold sh_snapshot_counts)

lemma pd_summary_counts:
  "ls_matched (fst (pd_summary R p)) = matched (pd_counts p)"
  "ls_ep1_faster (fst (pd_summary R p)) = ep1_faster (pd_counts p)"
  by (simp_all add: pd_summary_eq Let_def)

lemma sum_list_hm_iter:
  fixes f :: "'k \<times> 'v \<Rightarrow> 'a::comm_monoid_add"
  assumes "order_ok R"
  shows "sum_list (map f (hm_iter R m)) = sum_list (map f m)"
  by (metis assms mset_hm_iter mset_map sum_mset_sum_list)

lemma hm_insert_new: "k \<notin> hm_keys m \<Longrightarrow> hm_insert k v m = m @ [(k, v)]"
  by (induction m) (auto simp: hm_insert_def)

lemma foldl_insert_distinct:
  assumes "distinct (map (f \<circ> fst) xs)" and "\<And>x. x \<in> set xs \<Longrightarrow> f (fst x) \<notin> hm_keys out"
  shows "foldl (\<lambda>out (owner, sh). hm_insert (f owner) (g sh) out) out xs = out @ map (\<lambda>(owner, sh). (f owner, g sh)) xs"
  using assms
proof (induction xs arbitrary: out)
  case (Cons x xs)
  obtain a b where x: "x = (a, b)" by (cases x)
  have "f (fst y) \<notin> hm_keys (out @ [(f a, g b)])" if "y \<in> set xs" for y
    using Cons.prems that by (auto simp: x image_iff)
  moreover have "f a \<notin> hm_keys out" using Cons.prems(2) [of x] by (simp add: x)
  ultimately show ?case
    using Cons.IH [of "out @ [(f a, g b)]"] Cons.prems(1) by (simp add: x hm_insert_new)
qed simp


text \<open>Two programs of two matches each, in both directions.\<close>

definition account_event :: "endpoint_role \<Rightarrow> u8 \<Rightarrow> u8 \<Rightarrow> u64 \<Rightarrow> event" where
  "account_event e owner pk ms =
     \<lparr>ev_ts = ts_at ms, ev_subscription = Main e Com_Processed Accounts,
      ev_payload = Account_Payload 100 [pk] [owner] 7 None 0\<rparr>"

definition sample_accounts :: "event list" where
  "sample_accounts = [account_event One 1 10 0, account_event Two 1 10 5, account_event One 2 20 9, account_event Two 2 20 4]"

lemma sample_accounts_shards:
  "am_shards (sms_accounts (fold (dispatch list_runtime) sample_accounts
       (sms_with_strict_account_key False (sms_new list_runtime names)))) =
   [([1], \<lparr>sh_main = (pm_new list_runtime (SlotWindow 64))\<lparr>pm_buffer := [5], high_water_slot := 100, obs_count := 2,
              counts := match_counts_default\<lparr>matched := 1, ep1_faster := 1\<rparr>\<rparr>,
           sh_digest = (pd_new list_runtime)\<lparr>pd_buffer := [5], pd_counts := match_counts_default\<lparr>matched := 1, ep1_faster := 1\<rparr>\<rparr>\<rparr>),
    ([2], \<lparr>sh_main = (pm_new list_runtime (SlotWindow 64))\<lparr>pm_buffer := [-5], high_water_slot := 100, obs_count := 2,
              counts := match_counts_default\<lparr>matched := 1, ep2_faster := 1\<rparr>\<rparr>,
           sh_digest = (pd_new list_runtime)\<lparr>pd_buffer := [-5], pd_counts := match_counts_default\<lparr>matched := 1, ep2_faster := 1\<rparr>\<rparr>\<rparr>)]"
  by code_simp

lemma sample_accounts_names:
  "am_program_short_names (sms_accounts (fold (dispatch list_runtime) sample_accounts
       (sms_with_strict_account_key False (sms_new list_runtime names)))) = names"
  using dispatch_shards_ok [OF sms_new_shards_ok [of list_runtime False names], of sample_accounts]
  by (simp add: sms_with_strict_account_key_def am_with_strict_account_key_def sms_new_def am_new_def Let_def)


text \<open>Owners without a short name share one bucket of the per-program map, and each overwrites what the
  previous one left there: with two such programs of one match each, the overall summary reports two matches,
  the \<open>unknown\<close> bucket only one, so the per-program map loses the other program's matches.\<close>

theorem unnamed_owners_overwrite:
  "let am = sms_accounts (fold (dispatch list_runtime) sample_accounts
              (sms_with_strict_account_key False (sms_new list_runtime [])))
   in ls_matched (fst (am_summary list_runtime am)) = 2
    \<and> map (\<lambda>(n, l). (n, ls_matched l, ls_ep1_faster l)) (fst (am_per_program_summary list_runtime am)) = [(''unknown'', 1, 0)]"
  unfolding Let_def am_per_program_summary_def am_short_name_def sample_accounts_names sample_accounts_shards
    am_summary_counts
  by (simp add: hm_iter_def hash_order_list_runtime hm_insert_def pd_summary_counts)

end
