(* ===== verification/Quantiles.thy ===== *)
theory Quantiles
  imports Streams_Correct
begin

text \<open>
  What the reported quantiles can say. The t-digest is outside the sources; \<open>digest_contract\<close> is what its users
  rely on: a digest holds the values merged into it, is empty when it holds none, and estimates every quantile
  between the smallest and the largest of them. Under this contract every latency the comparative summary reports
  lies between the extreme delays of the messages both endpoints delivered.
\<close>

section \<open>The contract of the t-digest\<close>

definition in_range :: "rat \<Rightarrow> rat \<Rightarrow> f64 \<Rightarrow> bool" where
  "in_range lo hi p = (case p of Finite v \<Rightarrow> lo \<le> v \<and> v \<le> hi | NaN \<Rightarrow> False)"

definition digest_contract :: "'d runtime \<Rightarrow> ('d \<Rightarrow> rat multiset) \<Rightarrow> bool" where
  "digest_contract R contents \<longleftrightarrow>
     (\<forall>n. contents (td_new R n) = {#})
   \<and> (\<forall>d xs. contents (td_merge_unsorted R d xs) = contents d + mset xs)
   \<and> (\<forall>ds. contents (td_merge_digests R ds) = (\<Sum>d\<leftarrow>ds. contents d))
   \<and> (\<forall>d. td_is_empty R d \<longleftrightarrow> contents d = {#})
   \<and> (\<forall>d q lo hi. contents d \<noteq> {#} \<longrightarrow> 0 \<le> q \<longrightarrow> q < 1 \<longrightarrow> (\<forall>v \<in># contents d. lo \<le> v \<and> v \<le> hi)
        \<longrightarrow> in_range lo hi (td_estimate_quantile R d q))"

text \<open>The estimate the summaries take of a digest.\<close>

definition estimate :: "'d runtime \<Rightarrow> 'd \<Rightarrow> rat \<Rightarrow> f64" where
  "estimate R d q = (if td_is_empty R d then NaN else td_estimate_quantile R d q)"

definition quantiles :: "latency_summary \<Rightarrow> f64 list" where
  "quantiles s = [ls_p50 s, ls_p90 s, ls_p99 s, ls_p99_9 s]"

text \<open>Either nothing was matched and the four quantiles are \<open>NaN\<close>, or all four are numbers within the bounds.\<close>

definition summary_within :: "rat \<Rightarrow> rat \<Rightarrow> latency_summary \<Rightarrow> bool" where
  "summary_within lo hi s \<longleftrightarrow>
     ls_matched s = 0 \<and> list_all (\<lambda>p. p = NaN) (quantiles s) \<or> list_all (in_range lo hi) (quantiles s)"

lemma quantile_points_below_1: "\<forall>q \<in> {q50, q90, q99, q999}. 0 \<le> q \<and> q < 1"
  by (simp add: quantile_points)

lemma summary_of_digest:
  assumes "digest_contract R contents" and "\<forall>v \<in># contents d. lo \<le> v \<and> v \<le> hi"
    and "contents d = {#} \<Longrightarrow> ls_matched s = 0" and "quantiles s = map (estimate R d) [q50, q90, q99, q999]"
  shows "summary_within lo hi s"
proof (cases "contents d = {#}")
  case True
  then show ?thesis using assms by (simp add: summary_within_def digest_contract_def estimate_def)
next
  case False
  have "\<not> td_is_empty R d" using assms(1) False by (simp add: digest_contract_def)
  moreover have "in_range lo hi (td_estimate_quantile R d q)" if "0 \<le> q \<and> q < 1" for q
    using assms(1) False that assms(2) unfolding digest_contract_def by blast
  ultimately have "in_range lo hi (estimate R d q)" if "q \<in> {q50, q90, q99, q999}" for q
    using that quantile_points_below_1 unfolding estimate_def by (simp only: if_False)
  then show ?thesis by (simp add: summary_within_def assms(4))
qed

section \<open>Pair matchers\<close>

lemma run_contents:
  assumes "digest_contract R contents"
  shows "contents (pm_digest (pm_flush R (pm_run R (pm_new R ev) xs))) = mset (map delta_ms (pm_results R (pm_new R ev) xs))"
proof -
  have merge: "contents (td_merge_unsorted R d ys) = contents d + mset ys" for d ys
    using assms by (simp add: digest_contract_def)
  let ?m = "pm_run R (pm_new R ev) xs" and ?ds = "map delta_ms (pm_results R (pm_new R ev) xs)"
  have "contents (pm_digest ?m) + mset (pm_buffer ?m) = mset ?ds"
    using pm_run_digest [of R "pm_new R ev" xs] assms
      pm_bd.push_all_contents [of contents R ?ds "pm_new R ev"] merge by (simp add: digest_contract_def)
  then show ?thesis using pm_bd.flush_contents [of contents R ?m] merge by simp
qed

definition pairs_within :: "rat \<Rightarrow> rat \<Rightarrow> 'k observation list \<Rightarrow> bool" where
  "pairs_within lo hi xs \<longleftrightarrow> (\<forall>r \<in> paired xs. lo \<le> delta_ms r \<and> delta_ms r \<le> hi)"

lemma run_contents_within:
  assumes "digest_contract R contents" and "pairs_within lo hi xs"
  shows "\<forall>v \<in># contents (pm_digest (pm_flush R (pm_run R (pm_new R ev) xs))). lo \<le> v \<and> v \<le> hi"
  using assms(2) pm_run_sound [of R ev xs] unfolding run_contents [OF assms(1)] pairs_within_def by auto

lemma run_summary_within:
  assumes "digest_contract R contents" and "pairs_within lo hi xs"
  shows "summary_within lo hi (fst (summary_from_matcher R (pm_run R (pm_new R ev) xs)))"
proof (rule summary_of_digest [OF assms(1) run_contents_within [OF assms, where ev = ev]])
  let ?m = "pm_run R (pm_new R ev) xs"
  assume "contents (pm_digest (pm_flush R ?m)) = {#}"
  then have "pm_results R (pm_new R ev) xs = []" using run_contents [OF assms(1), of ev xs] by simp
  then show "ls_matched (fst (summary_from_matcher R ?m)) = 0"
    using pm_run_digest [of R "pm_new R ev" xs] by (simp add: summary_from_matcher_eq Let_def)
qed (simp add: summary_from_matcher_eq quantiles_def estimate_def Let_def)

section \<open>The messages both endpoints deliver\<close>

datatype message_key =
    Slot_Key u64 slot_stage
  | Account_Key pubkey32 account_key
  | Transaction_Key tx_key
  | Block_Key block_key

definition message_key :: "bool \<Rightarrow> event \<Rightarrow> message_key option" where
  "message_key strict ev =
     (case ev_payload ev of
        Slot_Payload slot stage \<Rightarrow> Some (Slot_Key slot stage)
      | Account_Payload slot pubkey owner wv sig _ \<Rightarrow> Some (Account_Key owner (account_key_of strict slot pubkey sig wv))
      | Transaction_Payload slot sig _ \<Rightarrow> Some (Transaction_Key (slot, sig))
      | Block_Payload slot bh _ _ _ \<Rightarrow>
          (case ev_subscription ev of Main _ c _ \<Rightarrow> Some (Block_Key (c, slot, bh)) | Entries _ \<Rightarrow> None)
      | Entry_Payload _ _ _ _ \<Rightarrow> None)"

text \<open>How much later than endpoint 1 endpoint 2 delivered a message, in milliseconds.\<close>

definition delay_of :: "event \<Rightarrow> event \<Rightarrow> rat" where
  "delay_of ev1 ev2 = ns_to_ms (delta_ns (ev_ts ev1) (ev_ts ev2))"

definition delays_within :: "bool \<Rightarrow> rat \<Rightarrow> rat \<Rightarrow> event list \<Rightarrow> bool" where
  "delays_within strict lo hi evs \<longleftrightarrow> (\<forall>ev1 \<in> set evs. \<forall>ev2 \<in> set evs.
     ev_endpoint ev1 = One \<longrightarrow> ev_endpoint ev2 = Two
     \<longrightarrow> message_key strict ev1 \<noteq> None \<longrightarrow> message_key strict ev1 = message_key strict ev2
     \<longrightarrow> lo \<le> delay_of ev1 ev2 \<and> delay_of ev1 ev2 \<le> hi)"

text \<open>An observation of one of the matchers is an event with that key, endpoint and timestamp.\<close>

definition observes :: "bool \<Rightarrow> ('k \<Rightarrow> message_key) \<Rightarrow> (event \<Rightarrow> 'k observation list) \<Rightarrow> bool" where
  "observes strict key f \<longleftrightarrow> (\<forall>ev e k t s. (e, k, t, s) \<in> set (f ev)
     \<longrightarrow> ev_endpoint ev = e \<and> ev_ts ev = t \<and> message_key strict ev = Some (key k))"

lemma observers:
  "observes strict (\<lambda>slot. Slot_Key slot st) (slot_obs st)"
  "observes strict (Account_Key owner) (account_obs strict owner)"
  "observes strict Transaction_Key tx_obs"
  "observes strict Block_Key block_obs"
  by (auto simp: observes_def slot_obs_def account_obs_def tx_obs_def block_obs_def message_key_def
      split: event_payload.splits subscription_role.splits if_splits)

lemma observed_pairs_within:
  assumes "observes strict key f" and "delays_within strict lo hi evs"
  shows "pairs_within lo hi (obs_of f evs)"
proof -
  have "lo \<le> ns_to_ms (delta_ns t1 t2) \<and> ns_to_ms (delta_ns t1 t2) \<le> hi"
    if o1: "(One, k, t1, s1) \<in> set (obs_of f evs)" and o2: "(Two, k, t2, s2) \<in> set (obs_of f evs)" for k t1 t2 s1 s2
  proof -
    obtain ev1 ev2 where e: "ev1 \<in> set evs" "(One, k, t1, s1) \<in> set (f ev1)" "ev2 \<in> set evs" "(Two, k, t2, s2) \<in> set (f ev2)"
      using o1 o2 by (auto simp: obs_of_def)
    have "ev_endpoint ev1 = One \<and> ev_ts ev1 = t1 \<and> message_key strict ev1 = Some (key k)"
      "ev_endpoint ev2 = Two \<and> ev_ts ev2 = t2 \<and> message_key strict ev2 = Some (key k)"
      using assms(1) e unfolding observes_def by blast+
    then show ?thesis using assms(2) e unfolding delays_within_def delay_of_def by fastforce
  qed
  then show ?thesis unfolding pairs_within_def paired_def by fastforce
qed

section \<open>The account summaries\<close>

lemma sh_snapshot_digest: "fst (fst (sh_snapshot R sh)) = pm_digest (pm_flush R (sh_main sh))"
  by (simp add: sh_snapshot_def pm_snapshot_digest_def Let_def pm_bd.flush_dig pm_evict_frame)

lemma shard_runs:
  assumes "am = sms_accounts (fold (dispatch R) evs (sms_with_strict_account_key strict (sms_new R names)))"
    and "(owner, sh) \<in> set (am_shards am)"
  shows "shard_sync sh" "sh_main sh = pm_run R (pm_new R (SlotWindow 64)) (obs_of (account_obs strict owner) evs)"
proof -
  let ?s0 = "sms_with_strict_account_key strict (sms_new R names)"
  have ok: "shards_ok R am evs" "am_strict_account_key am = strict" "am_eviction am = SlotWindow 64"
    using dispatch_shards_ok [OF sms_new_shards_ok [of R strict names], of evs] unfolding assms(1)
    by (simp_all add: sms_with_strict_account_key_def am_with_strict_account_key_def sms_new_def am_new_def Let_def)
  then have "hm_get (am_shards am) owner = Some sh"
    using assms(2) by (simp add: shards_ok_def hm_wf_def map_of_is_SomeI)
  moreover have "shard_at R (SlotWindow 64) (hm_get (am_shards am) owner) (obs_of (account_obs strict owner) evs)"
    using ok by (simp add: shards_ok_def)
  ultimately show "shard_sync sh" "sh_main sh = pm_run R (pm_new R (SlotWindow 64)) (obs_of (account_obs strict owner) evs)"
    by (simp_all add: shard_at_def)
qed

lemma sum_list_empty_mset: "(\<Sum>x\<leftarrow>xs. f x :: 'a multiset) = {#} \<longleftrightarrow> (\<forall>x \<in> set xs. f x = {#})"
  by (induction xs) auto

lemma in_sum_list_mset: "v \<in># (\<Sum>x\<leftarrow>xs. f x) \<longleftrightarrow> (\<exists>x \<in> set xs. v \<in># f x)"
  by (induction xs) auto

lemma account_summary_within:
  assumes "digest_contract R contents" and "order_ok R" and "delays_within strict lo hi evs"
    and am: "am = sms_accounts (fold (dispatch R) evs (sms_with_strict_account_key strict (sms_new R names)))"
  shows "summary_within lo hi (fst (am_summary R am))"
proof -
  let ?it = "hm_iter R (am_shards am)" and ?dig = "\<lambda>sh. pm_digest (pm_flush R (sh_main sh))"
  have it: "set ?it = set (am_shards am)" using assms(2) by (rule set_hm_iter)
  have shards: "sh_main sh = pm_run R (pm_new R (SlotWindow 64)) (obs_of (account_obs strict owner) evs)"
    if "(owner, sh) \<in> set ?it" for owner sh
    using that shard_runs(2) [OF am] it by blast
  define merged where "merged = (if ?it = [] then td_new R TDIGEST_COMPRESSION else td_merge_digests R (map (\<lambda>(_, sh). ?dig sh) ?it))"
  have contents: "contents merged = (\<Sum>(_, sh)\<leftarrow>?it. contents (?dig sh))"
    using assms(1) by (simp add: merged_def digest_contract_def comp_def case_prod_unfold)
  have "\<forall>v \<in># contents merged. lo \<le> v \<and> v \<le> hi"
    using run_contents_within [OF assms(1) observed_pairs_within [OF observers(2) assms(3)]] shards
    unfolding contents in_sum_list_mset by fastforce
  moreover have "ls_matched (fst (am_summary R am)) = 0" if empty: "contents merged = {#}"
  proof -
    have "matched (counts (sh_main sh)) = 0" if x: "(owner, sh) \<in> set ?it" for owner sh
    proof -
      let ?m0 = "pm_new R (SlotWindow 64)" and ?xs = "obs_of (account_obs strict owner) evs"
      have "contents (?dig sh) = {#}" using empty x unfolding contents sum_list_empty_mset by fastforce
      then have "pm_results R ?m0 ?xs = []" using run_contents [OF assms(1), of "SlotWindow 64" ?xs] shards [OF x] by simp
      then show ?thesis using pm_run_digest [of R ?m0 ?xs] shards [OF x] by simp
    qed
    then have "map (\<lambda>(_, sh). matched (counts (sh_main sh))) ?it = map (\<lambda>_. 0) ?it" by (intro map_cong) auto
    then show ?thesis unfolding am_summary_counts by (simp only: sum_list_0)
  qed
  moreover have "quantiles (fst (am_summary R am)) = map (estimate R merged) [q50, q90, q99, q999]"
    by (simp add: am_summary_def quantiles_def estimate_def merged_def Let_def comp_def case_prod_unfold sh_snapshot_digest)
  ultimately show ?thesis by (rule summary_of_digest [OF assms(1)])
qed

section \<open>The comparative summary\<close>

text \<open>Every latency of the comparative summary: six slot stages, all accounts, each program, transactions, blocks.\<close>

definition reported_latencies :: "'d runtime \<Rightarrow> 'd stream_matchers \<Rightarrow> latency_summary list" where
  "reported_latencies R s =
     (let slots = fst (sm_summary R (sms_slots s))
      in [ss_first_shred_delay slots, ss_completed_delay slots, ss_created_bank_delay slots,
          ss_processed_delay slots, ss_confirmed_delay slots, ss_finalized_delay slots,
          fst (am_summary R (sms_accounts s))]
         @ map snd (fst (am_per_program_summary R (sms_accounts s)))
         @ [fst (summary_from_matcher R (sms_transactions s)), fst (summary_from_matcher R (sms_blocks s))])"

lemma sm_summary_stages:
  "ss_first_shred_delay (fst (sm_summary R m)) = fst (summary_from_matcher R (sm_first_shred_received m))"
  "ss_completed_delay (fst (sm_summary R m)) = fst (summary_from_matcher R (sm_completed m))"
  "ss_created_bank_delay (fst (sm_summary R m)) = fst (summary_from_matcher R (sm_created_bank m))"
  "ss_processed_delay (fst (sm_summary R m)) = fst (summary_from_matcher R (sm_processed m))"
  "ss_confirmed_delay (fst (sm_summary R m)) = fst (summary_from_matcher R (sm_confirmed m))"
  "ss_finalized_delay (fst (sm_summary R m)) = fst (summary_from_matcher R (sm_finalized m))"
  by (simp_all add: sm_summary_def Let_def case_prod_unfold)

lemma per_program_values:
  "snd ` set (fst (am_per_program_summary R am)) \<subseteq> (\<lambda>(_, sh). fst (pd_summary R (sh_digest sh))) ` set (hm_iter R (am_shards am))"
proof -
  have "snd ` set (foldl (\<lambda>out (owner, sh). hm_insert (f owner) (g sh) out) out xs) \<subseteq> snd ` set out \<union> (\<lambda>(_, sh). g sh) ` set xs"
    for f :: "pubkey32 \<Rightarrow> string" and g :: "'a program_shard \<Rightarrow> latency_summary" and out xs
  proof (induction xs arbitrary: out)
    case (Cons x xs)
    obtain owner sh where x: "x = (owner, sh)" by (cases x)
    have "snd ` set (hm_insert (f owner) (g sh) out) \<subseteq> insert (g sh) (snd ` set out)"
      using set_hm_insert [of "f owner" "g sh" out] by force
    then show ?case using Cons.IH [of "hm_insert (f owner) (g sh) out"] by (simp add: x) blast
  qed simp
  from this [of "am_short_name am" "\<lambda>sh. fst (pd_summary R (sh_digest sh))" "[]" "hm_iter R (am_shards am)"]
  show ?thesis by (simp add: am_per_program_summary_def)
qed

text \<open>C21. The reported latencies are real delays. For a t-digest that keeps to its contract and any merged event
  stream: if endpoint 2 delivered every message that both endpoints delivered between \<open>lo\<close> and \<open>hi\<close> milliseconds
  after endpoint 1 (negative when it was first), then in every latency of the comparative summary (each slot stage,
  accounts overall and per program, transactions, blocks) either nothing was matched and the four quantiles are
  empty, or all four are numbers between \<open>lo\<close> and \<open>hi\<close>. In particular a constant lag is reported as that lag.\<close>

theorem reported_latencies_are_delays:
  fixes R :: "'d runtime"
  assumes "digest_contract R contents" and "order_ok R" and "delays_within strict lo hi evs"
  shows "list_all (summary_within lo hi)
    (reported_latencies R (fold (dispatch R) evs (sms_with_strict_account_key strict (sms_new R names))))"
proof -
  let ?start = "sms_with_strict_account_key strict (sms_new R names)"
  let ?s = "fold (dispatch R) evs ?start"
  have s0: "sms_slots ?start = sm_new R (SlotWindow 64)" "sms_transactions ?start = pm_new R (SlotWindow 64)"
    "sms_blocks ?start = pm_new R (SlotWindow 64)"
    by (simp_all add: sms_with_strict_account_key_def sms_new_def Let_def)
  have run: "summary_within lo hi (fst (summary_from_matcher R (pm_run R (pm_new R ev) (obs_of f evs))))"
    if "observes strict key f" for ev and f :: "event \<Rightarrow> 'k observation list" and key
    by (rule run_summary_within [OF assms(1) observed_pairs_within [OF that assms(3)]])
  have stage: "summary_within lo hi (fst (summary_from_matcher R p))" if "sm_matcher_for st (sms_slots ?s) = Some p" for st p
    using that dispatch_fold [of st R evs ?start] run [OF observers(1)] sm_new_matcher [of st R "SlotWindow 64"]
    by (cases "st = Dead") (auto simp: s0)
  have per: "summary_within lo hi (fst (pd_summary R (sh_digest sh)))" if "(owner, sh) \<in> set (am_shards (sms_accounts ?s))" for owner sh
    using shard_runs [OF refl that] run [OF observers(2)] by (simp add: shard_sync_summary)
  have "summary_within lo hi l" if l: "l \<in> snd ` set (fst (am_per_program_summary R (sms_accounts ?s)))" for l
  proof -
    obtain owner sh where "(owner, sh) \<in> set (hm_iter R (am_shards (sms_accounts ?s)))" "l = fst (pd_summary R (sh_digest sh))"
      using subsetD [OF per_program_values l] by auto
    then show ?thesis using per [of owner sh] by (simp add: set_hm_iter [OF assms(2)])
  qed
  moreover have "summary_within lo hi (fst (am_summary R (sms_accounts ?s)))"
    by (rule account_summary_within [OF assms refl])
  moreover have "summary_within lo hi (fst (summary_from_matcher R (sms_transactions ?s)))"
    "summary_within lo hi (fst (summary_from_matcher R (sms_blocks ?s)))"
    using dispatch_fold [of Dead R evs ?start] run [OF observers(3)] run [OF observers(4)] by (simp_all add: s0)
  ultimately show ?thesis
    using stage [of FirstShredReceived] stage [of Completed] stage [of CreatedBank] stage [of Processed] stage [of Confirmed]
      stage [of Finalized]
    unfolding reported_latencies_def Let_def by (simp add: sm_summary_stages list_all_iff)
qed

text \<open>The environment that keeps all values meets the contract.\<close>

lemma list_runtime_contract: "digest_contract list_runtime mset"
proof -
  have "in_range lo hi (td_estimate_quantile list_runtime d q)"
    if "d \<noteq> []" "0 \<le> q" "q < 1" and b: "\<forall>v \<in> set d. lo \<le> v \<and> v \<le> hi" for d q lo hi
  proof -
    have "q * of_nat (length d) < of_nat (length d)" using that(1,3) by simp
    then have "\<lfloor>q * of_nat (length d)\<rfloor> < int (length d)" by (simp add: floor_less_iff)
    then have "nat \<lfloor>q * of_nat (length d)\<rfloor> < length (sort d)" using that(1) by (cases d) (simp_all add: nat_less_iff)
    then have "sort d ! nat \<lfloor>q * of_nat (length d)\<rfloor> \<in> set d" by (metis nth_mem set_sort)
    then show ?thesis using b by (simp add: in_range_def list_runtime_def)
  qed
  moreover have "mset (concat ds) = (\<Sum>d\<leftarrow>ds. mset d)" for ds :: "rat list list" by (induction ds) simp_all
  ultimately show ?thesis unfolding digest_contract_def by (auto simp: list_runtime_def)
qed

text \<open>Endpoint 2 five milliseconds behind on one account: every quantile reported is five.\<close>

definition lagging :: "event list" where
  "lagging = [account_event One 1 1 0, account_event Two 1 1 5]"

theorem reported_latencies_are_delays_witness:
  "list_all (summary_within 5 5)
     (reported_latencies list_runtime (fold (dispatch list_runtime) lagging (sms_with_strict_account_key False (sms_new list_runtime []))))
   \<and> ls_p50 (fst (am_summary list_runtime
       (sms_accounts (fold (dispatch list_runtime) lagging (sms_with_strict_account_key False (sms_new list_runtime [])))))) = Finite 5"
proof
  have "delays_within False 5 5 lagging" by code_simp
  from reported_latencies_are_delays [OF list_runtime_contract order_ok_list_runtime this]
  show "list_all (summary_within 5 5)
     (reported_latencies list_runtime (fold (dispatch list_runtime) lagging (sms_with_strict_account_key False (sms_new list_runtime []))))" .
qed code_simp

end
