(* ===== verification/Cross_Stream.thy ===== *)
theory Cross_Stream
  imports Interfaces Digest
begin

text \<open>
  Ordering of streams within one endpoint (\<open>src/crossstream.rs\<close>): \<open>StreamingDigest\<close>, the transaction/account
  pairer and the per-endpoint tracker.
\<close>

section \<open>Streaming digest\<close>

record 'd streaming_digest =
  sd_digest :: 'd
  sd_buffer :: "rat list"

record quartiles =
  q_p50 :: f64
  q_p90 :: f64
  q_p99 :: f64

definition sd_new :: "'d runtime \<Rightarrow> 'd streaming_digest" where
  "sd_new R = \<lparr>sd_digest = td_new R TDIGEST_COMPRESSION, sd_buffer = []\<rparr>"

definition sd_flush :: "'d runtime \<Rightarrow> 'd streaming_digest \<Rightarrow> 'd streaming_digest" where
  "sd_flush R s =
     (if sd_buffer s = [] then s
      else s\<lparr>sd_buffer := [], sd_digest := td_merge_unsorted R (sd_digest s) (sd_buffer s)\<rparr>)"

definition sd_push :: "'d runtime \<Rightarrow> rat \<Rightarrow> 'd streaming_digest \<Rightarrow> 'd streaming_digest" where
  "sd_push R v s =
     (let s' = s\<lparr>sd_buffer := sd_buffer s @ [v]\<rparr>
      in if TDIGEST_BUFFER_FLUSH \<le> length (sd_buffer s') then sd_flush R s' else s')"

definition sd_quantile :: "'d runtime \<Rightarrow> 'd streaming_digest \<Rightarrow> rat \<Rightarrow> f64 \<times> 'd streaming_digest" where
  "sd_quantile R s q =
     (let s' = sd_flush R s
      in (if td_is_empty R (sd_digest s') then NaN else td_estimate_quantile R (sd_digest s') q, s'))"

definition sd_summary :: "'d runtime \<Rightarrow> 'd streaming_digest \<Rightarrow> quartiles option \<times> 'd streaming_digest" where
  "sd_summary R s =
     (let s0 = sd_flush R s
      in if td_is_empty R (sd_digest s0) then (None, s0)
         else let (p50, s1) = sd_quantile R s0 q50; (p90, s2) = sd_quantile R s1 q90; (p99, s3) = sd_quantile R s2 q99
              in (Some \<lparr>q_p50 = p50, q_p90 = p90, q_p99 = p99\<rparr>, s3))"

interpretation sd_bd: buffered_digest "td_merge_unsorted R" sd_digest sd_buffer "sd_push R" "sd_flush R"
  for R :: "'d runtime"
  by unfold_locales (auto simp: sd_flush_def sd_push_def Let_def)

section \<open>The transaction/account pairer\<close>

type_synonym pair_key = "u64 \<times> signature64"

record 'd tx_account_pairer =
  pending_tx :: "(pair_key, event_timestamp) hmap"
  pending_account :: "(pair_key, event_timestamp) hmap"
  tp_digest :: "'d streaming_digest"
  tp_high_water_slot :: u64

definition tp_new :: "'d runtime \<Rightarrow> 'd tx_account_pairer" where
  "tp_new R = \<lparr>pending_tx = [], pending_account = [], tp_digest = sd_new R, tp_high_water_slot = 0\<rparr>"

definition tp_delta_ns :: "event_timestamp \<Rightarrow> event_timestamp \<Rightarrow> int" where
  "tp_delta_ns acc_ts tx_ts = i64_clamp (mono_ns acc_ts) - i64_clamp (mono_ns tx_ts)"

definition tp_record :: "'d runtime \<Rightarrow> event_timestamp \<Rightarrow> event_timestamp \<Rightarrow> 'd tx_account_pairer \<Rightarrow> 'd tx_account_pairer" where
  "tp_record R acc_ts tx_ts p = p\<lparr>tp_digest := sd_push R (ns_to_ms (tp_delta_ns acc_ts tx_ts)) (tp_digest p)\<rparr>"

definition tp_bump_water :: "u64 \<Rightarrow> 'd tx_account_pairer \<Rightarrow> 'd tx_account_pairer" where
  "tp_bump_water slot p = (if tp_high_water_slot p < slot then p\<lparr>tp_high_water_slot := slot\<rparr> else p)"

definition tp_evict :: "'d tx_account_pairer \<Rightarrow> 'd tx_account_pairer" where
  "tp_evict p =
     (let cutoff = saturating_sub (tp_high_water_slot p) 64
      in p\<lparr>pending_tx := hm_retain (\<lambda>(s, _) _. cutoff \<le> s) (pending_tx p),
           pending_account := hm_retain (\<lambda>(s, _) _. cutoff \<le> s) (pending_account p)\<rparr>)"

definition tp_observe_tx ::
  "'d runtime \<Rightarrow> u64 \<Rightarrow> signature64 \<Rightarrow> event_timestamp \<Rightarrow> 'd tx_account_pairer \<Rightarrow> 'd tx_account_pairer" where
  "tp_observe_tx R slot sig ts p =
     (let p1 = tp_bump_water slot p; key = (slot, sig)
      in tp_evict
           (case hm_get (pending_account p1) key of
              Some acc_ts \<Rightarrow> tp_record R acc_ts ts (p1\<lparr>pending_account := hm_remove key (pending_account p1)\<rparr>)
            | None \<Rightarrow> p1\<lparr>pending_tx := hm_insert key ts (pending_tx p1)\<rparr>))"

definition tp_observe_account ::
  "'d runtime \<Rightarrow> u64 \<Rightarrow> signature64 \<Rightarrow> event_timestamp \<Rightarrow> 'd tx_account_pairer \<Rightarrow> 'd tx_account_pairer" where
  "tp_observe_account R slot sig ts p =
     (let p1 = tp_bump_water slot p; key = (slot, sig)
      in tp_evict
           (case hm_get (pending_tx p1) key of
              Some tx_ts \<Rightarrow> tp_record R ts tx_ts (p1\<lparr>pending_tx := hm_remove key (pending_tx p1)\<rparr>)
            | None \<Rightarrow> p1\<lparr>pending_account := hm_insert key ts (pending_account p1)\<rparr>))"

section \<open>The tracker\<close>

record 'd cross_stream_tracker =
  cs_endpoint :: endpoint_role
  tx_vs_account :: "'d tx_account_pairer"

definition cs_new :: "'d runtime \<Rightarrow> endpoint_role \<Rightarrow> 'd cross_stream_tracker" where
  "cs_new R e = \<lparr>cs_endpoint = e, tx_vs_account = tp_new R\<rparr>"

definition cs_observe :: "'d runtime \<Rightarrow> event \<Rightarrow> 'd cross_stream_tracker \<Rightarrow> 'd cross_stream_tracker" where
  "cs_observe R ev t =
     (if ev_endpoint ev \<noteq> cs_endpoint t then t
      else case ev_payload ev of
             Transaction_Payload slot sig _ \<Rightarrow>
               t\<lparr>tx_vs_account := tp_observe_tx R slot sig (ev_ts ev) (tx_vs_account t)\<rparr>
           | Account_Payload slot _ _ _ (Some sig) _ \<Rightarrow>
               t\<lparr>tx_vs_account := tp_observe_account R slot sig (ev_ts ev) (tx_vs_account t)\<rparr>
           | _ \<Rightarrow> t)"

record cross_stream_summary =
  css_tx_vs_account :: "quartiles option"
  css_entries_vs_tx :: "quartiles option"
  css_entries_vs_account :: "quartiles option"
  css_notes :: "string list"

definition css_empty :: cross_stream_summary where
  "css_empty = \<lparr>css_tx_vs_account = None, css_entries_vs_tx = None, css_entries_vs_account = None,
     css_notes = [''entries_vs_tx / entries_vs_account are null in v1: standard Yellowstone SubscribeUpdateEntry does not include transaction signatures; index-based correlation is a follow-up. See PROTO.md.'']\<rparr>"

definition cs_summary :: "'d runtime \<Rightarrow> 'd cross_stream_tracker \<Rightarrow> cross_stream_summary \<times> 'd cross_stream_tracker" where
  "cs_summary R t =
     (let (q, d) = sd_summary R (tp_digest (tx_vs_account t))
      in (\<lparr>css_tx_vs_account = q, css_entries_vs_tx = None, css_entries_vs_account = None, css_notes = css_notes css_empty\<rparr>,
          t\<lparr>tx_vs_account := (tx_vs_account t)\<lparr>tp_digest := d\<rparr>\<rparr>))"

interpretation cs_track: endpoint_tracker cs_endpoint "cs_observe R"
  for R :: "'d runtime"
  by unfold_locales (simp_all add: cs_observe_def split: event_payload.split option.split)

section \<open>Invariant\<close>

lemma tp_bump_water_frame:
  "pending_tx (tp_bump_water s p) = pending_tx p" "pending_account (tp_bump_water s p) = pending_account p"
  "tp_digest (tp_bump_water s p) = tp_digest p" "tp_high_water_slot (tp_bump_water s p) = max (tp_high_water_slot p) s"
  using if_less_max [of "tp_high_water_slot p" s] by (simp_all add: tp_bump_water_def split: if_splits)

lemma tp_record_frame:
  "pending_tx (tp_record R a b p) = pending_tx p" "pending_account (tp_record R a b p) = pending_account p"
  "tp_high_water_slot (tp_record R a b p) = tp_high_water_slot p"
  "tp_digest (tp_record R a b p) = sd_push R (ns_to_ms (tp_delta_ns a b)) (tp_digest p)"
  by (simp_all add: tp_record_def)

lemma tp_evict_frame:
  "tp_high_water_slot (tp_evict p) = tp_high_water_slot p" "tp_digest (tp_evict p) = tp_digest p"
  by (simp_all add: tp_evict_def Let_def)

text \<open>The two kinds of arrival, as the two sides of a pairing pool.\<close>

definition tp_pend :: "bool \<Rightarrow> 'd tx_account_pairer \<Rightarrow> (pair_key, event_timestamp) hmap" where
  "tp_pend b p = (if b then pending_tx p else pending_account p)"

definition tp_observe :: "'d runtime \<Rightarrow> bool \<Rightarrow> pair_key \<Rightarrow> event_timestamp \<Rightarrow> 'd tx_account_pairer \<Rightarrow> 'd tx_account_pairer" where
  "tp_observe R b k ts p = (if b then tp_observe_tx R (fst k) (snd k) ts p else tp_observe_account R (fst k) (snd k) ts p)"

definition tp_in_window :: "'d tx_account_pairer \<Rightarrow> bool" where
  "tp_in_window p \<longleftrightarrow> (\<forall>b. \<forall>k \<in> hm_keys (tp_pend b p). unat (tp_high_water_slot p) \<le> unat (fst k) + 64)"

definition tp_wf :: "'d tx_account_pairer \<Rightarrow> bool" where
  "tp_wf p \<longleftrightarrow> hm_wf (pending_tx p) \<and> hm_wf (pending_account p) \<and> tp_in_window p"

lemma tp_pend_evict: "tp_pend b (tp_evict p) = hm_retain (\<lambda>(s, _) _. saturating_sub (tp_high_water_slot p) 64 \<le> s) (tp_pend b p)"
  by (simp add: tp_pend_def tp_evict_def Let_def)

lemma keys_tp_evict:
  "hm_keys (tp_pend b (tp_evict p)) = {k \<in> hm_keys (tp_pend b p). unat (tp_high_water_slot p) \<le> unat (fst k) + 64}"
proof -
  have "saturating_sub h 64 \<le> s \<longleftrightarrow> unat h \<le> unat s + 64" for h s :: u64
    by (auto simp: word_le_nat_alt unat_saturating_sub)
  then show ?thesis by (force simp: tp_pend_evict hm_retain_def)
qed

text \<open>Before eviction: an arrival takes its partner out of the other pool or waits in its own.\<close>

lemma tp_observe_before_evict:
  obtains q where "tp_observe R b k ts p = tp_evict q"
    and "tp_high_water_slot q = max (tp_high_water_slot p) (fst k)"
    and "tp_pend b q = (if k \<in> hm_keys (tp_pend (\<not> b) p) then tp_pend b p else hm_insert k ts (tp_pend b p))"
    and "tp_pend (\<not> b) q = (if k \<in> hm_keys (tp_pend (\<not> b) p) then hm_remove k (tp_pend (\<not> b) p) else tp_pend (\<not> b) p)"
    and "tp_digest q = (case hm_get (tp_pend (\<not> b) p) k of
           Some t \<Rightarrow> sd_push R (ns_to_ms (if b then tp_delta_ns t ts else tp_delta_ns ts t)) (tp_digest p)
         | None \<Rightarrow> tp_digest p)"
proof -
  let ?p1 = "tp_bump_water (fst k) p"
  define q where "q = (if b
    then (case hm_get (pending_account ?p1) k of
              Some acc_ts \<Rightarrow> tp_record R acc_ts ts (?p1\<lparr>pending_account := hm_remove k (pending_account ?p1)\<rparr>)
            | None \<Rightarrow> ?p1\<lparr>pending_tx := hm_insert k ts (pending_tx ?p1)\<rparr>)
    else (case hm_get (pending_tx ?p1) k of
              Some tx_ts \<Rightarrow> tp_record R ts tx_ts (?p1\<lparr>pending_tx := hm_remove k (pending_tx ?p1)\<rparr>)
            | None \<Rightarrow> ?p1\<lparr>pending_account := hm_insert k ts (pending_account ?p1)\<rparr>))"
  have keys: "k \<in> hm_keys (tp_pend (\<not> b) p) \<longleftrightarrow> hm_get (tp_pend (\<not> b) p) k \<noteq> None"
    by (simp add: hm_get_None_iff)
  have "tp_observe R b k ts p = tp_evict q"
    by (simp add: tp_observe_def tp_observe_tx_def tp_observe_account_def q_def Let_def)
  moreover have "tp_high_water_slot q = max (tp_high_water_slot p) (fst k)"
    by (simp add: q_def tp_record_frame tp_bump_water_frame split: option.split)
  moreover have "tp_pend b q = (if k \<in> hm_keys (tp_pend (\<not> b) p) then tp_pend b p else hm_insert k ts (tp_pend b p))"
    "tp_pend (\<not> b) q = (if k \<in> hm_keys (tp_pend (\<not> b) p) then hm_remove k (tp_pend (\<not> b) p) else tp_pend (\<not> b) p)"
    "tp_digest q = (case hm_get (tp_pend (\<not> b) p) k of
           Some t \<Rightarrow> sd_push R (ns_to_ms (if b then tp_delta_ns t ts else tp_delta_ns ts t)) (tp_digest p)
         | None \<Rightarrow> tp_digest p)"
    unfolding keys by (simp_all add: q_def tp_pend_def tp_record_frame tp_bump_water_frame split: option.split)
  ultimately show thesis by (rule that)
qed

lemma tp_observe_wf:
  assumes "tp_wf p"
  shows "tp_wf (tp_observe R b k ts p)"
proof -
  obtain q where q: "tp_observe R b k ts p = tp_evict q"
    "tp_pend b q = (if k \<in> hm_keys (tp_pend (\<not> b) p) then tp_pend b p else hm_insert k ts (tp_pend b p))"
    "tp_pend (\<not> b) q = (if k \<in> hm_keys (tp_pend (\<not> b) p) then hm_remove k (tp_pend (\<not> b) p) else tp_pend (\<not> b) p)"
    by (rule tp_observe_before_evict)
  have "hm_wf (tp_pend c q)" for c
    using assms q(2,3) by (cases b; cases c) (auto simp: tp_wf_def tp_pend_def)
  then have "hm_wf (tp_pend c (tp_evict q))" for c by (simp add: tp_pend_evict)
  from this [of True] this [of False] have "hm_wf (pending_tx (tp_evict q)) \<and> hm_wf (pending_account (tp_evict q))"
    by (simp add: tp_pend_def)
  moreover have "tp_in_window (tp_evict q)"
    by (simp add: tp_in_window_def keys_tp_evict tp_evict_frame)
  ultimately show ?thesis unfolding q(1) tp_wf_def by blast
qed

interpretation tp_pool: pairing_pool "\<lambda>b p. hm_keys (tp_pend b p)" tp_wf "tp_observe R"
  for R :: "'d runtime"
proof (unfold_locales, goal_cases)
  case (1 p b k x)
  then show ?case by (rule tp_observe_wf)
next
  case (2 p b k x)
  obtain q where "tp_observe R b k x p = tp_evict q"
    "tp_pend b q = (if k \<in> hm_keys (tp_pend (\<not> b) p) then tp_pend b p else hm_insert k x (tp_pend b p))"
    by (rule tp_observe_before_evict)
  then show ?case by (simp add: keys_tp_evict hm_keys_insert split: if_splits) blast+
next
  case (3 p b k x)
  obtain q where "tp_observe R b k x p = tp_evict q"
    "tp_pend (\<not> b) q = (if k \<in> hm_keys (tp_pend (\<not> b) p) then hm_remove k (tp_pend (\<not> b) p) else tp_pend (\<not> b) p)"
    by (rule tp_observe_before_evict)
  then show ?case by (simp add: keys_tp_evict hm_keys_remove split: if_splits)
next
  case (4 p k b x)
  obtain q where "tp_observe R b k x p = tp_evict q"
    "tp_pend (\<not> b) q = (if k \<in> hm_keys (tp_pend (\<not> b) p) then hm_remove k (tp_pend (\<not> b) p) else tp_pend (\<not> b) p)"
    by (rule tp_observe_before_evict)
  then show ?case by (simp add: keys_tp_evict hm_keys_remove split: if_splits)
qed

text \<open>The observations an endpoint's events amount to.\<close>

definition pair_obs :: "event \<Rightarrow> (bool \<times> pair_key \<times> event_timestamp) list" where
  "pair_obs ev = (case ev_payload ev of
     Transaction_Payload slot sig _ \<Rightarrow> [(True, (slot, sig), ev_ts ev)]
   | Account_Payload slot _ _ _ (Some sig) _ \<Rightarrow> [(False, (slot, sig), ev_ts ev)]
   | _ \<Rightarrow> [])"

lemma cs_observe_pool:
  "ev_endpoint ev = cs_endpoint t \<Longrightarrow> tx_vs_account (cs_observe R ev t) = tp_pool.run R (tx_vs_account t) (pair_obs ev)"
  by (simp add: cs_observe_def pair_obs_def tp_observe_def split: event_payload.split option.split)

lemma cs_fold_own:
  "(\<And>ev. ev \<in> set evs \<Longrightarrow> ev_endpoint ev = cs_endpoint t) \<Longrightarrow>
   tx_vs_account (fold (cs_observe R) evs t) = tp_pool.run R (tx_vs_account t) (concat (map pair_obs evs))"
  by (induction evs arbitrary: t) (simp_all add: cs_observe_pool cs_track.observe_owner)

lemma cs_fold:
  "tx_vs_account (fold (cs_observe R) evs t)
     = tp_pool.run R (tx_vs_account t) (concat (map pair_obs (filter (\<lambda>ev. ev_endpoint ev = cs_endpoint t) evs)))"
  unfolding cs_track.fold_own_events [of R evs t] by (rule cs_fold_own) simp

lemma tp_wf_new: "tp_wf (tp_new R)"
  by (simp add: tp_wf_def tp_new_def tp_in_window_def tp_pend_def)


end
