(* ===== verification/Cross_Stream_Correct.thy ===== *)
theory Cross_Stream_Correct
  imports Cross_Stream Matcher_Correct
begin

text \<open>
  The cross-stream pairer refines the pair matcher: with transactions in the role of endpoint one and account
  writes in the role of endpoint two, both compute the same pairs and feed the same values to their digests,
  as long as no entry is old enough to be evicted (the two evict at different times).
\<close>

definition as_observation :: "bool \<times> pair_key \<times> event_timestamp \<Rightarrow> pair_key observation" where
  "as_observation x = (case x of (b, k, ts) \<Rightarrow> (if b then One else Two, k, ts, fst k))"

definition stamps :: "('k, match_pending) hmap \<Rightarrow> ('k, event_timestamp) hmap" where
  "stamps m = map (\<lambda>(k, v). (k, mp_ts v)) m"

definition slots_close :: "(bool \<times> pair_key \<times> event_timestamp) list \<Rightarrow> bool" where
  "slots_close xs \<longleftrightarrow> (\<forall>(_, k, _) \<in> set xs. \<forall>(_, k', _) \<in> set xs. unat (fst k') \<le> unat (fst k) + 64)"

definition obs_slots :: "(bool \<times> pair_key \<times> event_timestamp) list \<Rightarrow> u64 set" where
  "obs_slots xs = (\<lambda>(_, k, _). fst k) ` set xs"

lemma obs_slots_snoc: "obs_slots (xs @ [(b, k, ts)]) = insert (fst k) (obs_slots xs)"
  by (simp add: obs_slots_def)

definition pairer_rel ::
  "(bool \<times> pair_key \<times> event_timestamp) list \<Rightarrow> 'd tx_account_pairer \<Rightarrow> ('d, pair_key) pair_matcher \<Rightarrow> bool" where
  "pairer_rel xs p m \<longleftrightarrow>
     pending_tx p = stamps (pending_ep1 m) \<and> pending_account p = stamps (pending_ep2 m)
     \<and> sd_digest (tp_digest p) = pm_digest m \<and> sd_buffer (tp_digest p) = pm_buffer m
     \<and> tp_high_water_slot p = high_water_slot m \<and> pm_eviction m = SlotWindow 64
     \<and> (high_water_slot m = 0 \<or> high_water_slot m \<in> obs_slots xs)
     \<and> (\<forall>q \<in> set (pending_ep1 m) \<union> set (pending_ep2 m). mp_slot (snd q) = fst (fst q) \<and> fst (fst q) \<in> obs_slots xs)"

lemma stamps_simps:
  "stamps [] = []" "stamps (hm_insert k v m) = hm_insert k (mp_ts v) (stamps m)"
  "stamps (hm_remove k m) = hm_remove k (stamps m)" "hm_get (stamps m) k = map_option mp_ts (hm_get m k)"
  "hm_keys (stamps m) = hm_keys m"
proof -
  show "stamps (hm_insert k v m) = hm_insert k (mp_ts v) (stamps m)"
    by (induction m) (auto simp: stamps_def hm_insert_def)
  show "stamps (hm_remove k m) = hm_remove k (stamps m)"
    by (induction m) (auto simp: stamps_def hm_remove_def)
  show "hm_get (stamps m) k = map_option mp_ts (hm_get m k)"
    by (induction m) (auto simp: stamps_def)
  show "hm_keys (stamps m) = hm_keys m"
    by (force simp: stamps_def)
qed (simp add: stamps_def)

lemma slots_close_snocD:
  assumes "slots_close (xs @ [(b, k, ts)])"
  shows "slots_close xs"
    "s \<in> obs_slots (xs @ [(b, k, ts)]) \<Longrightarrow> s' \<in> obs_slots (xs @ [(b, k, ts)]) \<Longrightarrow>
     unat s' \<le> unat s + 64"
proof -
  show "slots_close xs" using assms by (auto simp: slots_close_def)
next
  assume "s \<in> obs_slots (xs @ [(b, k, ts)])" and "s' \<in> obs_slots (xs @ [(b, k, ts)])"
  then show "unat s' \<le> unat s + 64" using assms unfolding slots_close_def obs_slots_def by fastforce
qed

lemma tp_evict_keep:
  assumes "\<And>k b. k \<in> hm_keys (tp_pend b q) \<Longrightarrow> unat (tp_high_water_slot q) \<le> unat (fst k) + 64"
  shows "tp_evict q = q"
proof -
  have "saturating_sub (tp_high_water_slot q) 64 \<le> fst (fst e)" if "e \<in> set (tp_pend b q)" for e b
    using assms [of "fst e" b] that by (simp add: word_le_nat_alt unat_saturating_sub)
  from this [of _ True] this [of _ False] show ?thesis
    by (cases q) (auto simp: tp_evict_def Let_def tp_pend_def intro!: hm_retain_all)
qed

abbreviation side :: "bool \<Rightarrow> endpoint_role" where
  "side c \<equiv> (if c then One else Two)"

definition slots_in :: "u64 set \<Rightarrow> (pair_key, match_pending) hmap \<Rightarrow> bool" where
  "slots_in S m \<longleftrightarrow> (\<forall>q \<in> set m. mp_slot (snd q) = fst (fst q) \<and> fst (fst q) \<in> S)"

lemma slots_in_ops:
  "slots_in S m \<Longrightarrow> slots_in (insert s S) m"
  "slots_in S m \<Longrightarrow> slots_in (insert (fst k) S) (hm_insert k \<lparr>mp_ts = ts, mp_slot = fst k\<rparr> m)"
  "slots_in S m \<Longrightarrow> slots_in (insert s S) (hm_remove k m)"
  using set_hm_insert [of k "\<lparr>mp_ts = ts, mp_slot = fst k\<rparr>" m] set_hm_remove [of k m]
  unfolding slots_in_def by fastforce+

lemma pairer_rel_sides:
  "pairer_rel xs p m \<longleftrightarrow>
     tp_pend b p = stamps (pend_of (side b) m) \<and> tp_pend (\<not> b) p = stamps (pend_of (other_role (side b)) m)
     \<and> slots_in (obs_slots xs) (pend_of (side b) m) \<and> slots_in (obs_slots xs) (pend_of (other_role (side b)) m)
     \<and> sd_digest (tp_digest p) = pm_digest m \<and> sd_buffer (tp_digest p) = pm_buffer m
     \<and> tp_high_water_slot p = high_water_slot m \<and> pm_eviction m = SlotWindow 64
     \<and> (high_water_slot m = 0 \<or> high_water_slot m \<in> obs_slots xs)"
  unfolding pairer_rel_def slots_in_def tp_pend_def by (cases b) (simp_all add: ball_Un; blast)+

lemma pairer_step:
  fixes m :: "('d, pair_key) pair_matcher"
  assumes rel: "pairer_rel xs p m" and close: "slots_close (xs @ [(b, k, ts)])"
  shows "pairer_rel (xs @ [(b, k, ts)]) (tp_observe R b k ts p) (pm_step R m (as_observation (b, k, ts)))"
proof -
  let ?S = "obs_slots (xs @ [(b, k, ts)])"
  let ?e = "if b then One else Two"
  let ?m1 = "pm_prologue R (fst k) m" and ?h = "max (high_water_slot m) (fst k)"
  obtain q where q: "tp_observe R b k ts p = tp_evict q" "tp_high_water_slot q = max (tp_high_water_slot p) (fst k)"
    "tp_pend b q = (if k \<in> hm_keys (tp_pend (\<not> b) p) then tp_pend b p else hm_insert k ts (tp_pend b p))"
    "tp_pend (\<not> b) q = (if k \<in> hm_keys (tp_pend (\<not> b) p) then hm_remove k (tp_pend (\<not> b) p) else tp_pend (\<not> b) p)"
    "tp_digest q = (case hm_get (tp_pend (\<not> b) p) k of
           Some t \<Rightarrow> sd_push R (ns_to_ms (if b then tp_delta_ns t ts else tp_delta_ns ts t)) (tp_digest p)
         | None \<Rightarrow> tp_digest p)"
    by (rule tp_observe_before_evict)
  have kS: "fst k \<in> ?S" by (simp add: obs_slots_snoc)
  have hS: "?h = 0 \<or> ?h \<in> ?S" using rel kS unfolding pairer_rel_def by (auto simp: max_def obs_slots_snoc)
  have pS: "fst (fst e) \<in> ?S" "mp_slot (snd e) = fst (fst e)" if "e \<in> set (pending_ep1 m) \<union> set (pending_ep2 m)" for e
    using rel that unfolding pairer_rel_def obs_slots_snoc by auto
  have near: "unat ?h \<le> unat s + 64" if "s \<in> ?S" for s
  proof (cases "?h = 0")
    case False
    then show ?thesis using hS slots_close_snocD(2) [OF close that, of ?h] by blast
  qed (simp only: unsigned_0 le0)
  have m1: "pending_ep1 ?m1 = pending_ep1 m \<and> pending_ep2 ?m1 = pending_ep2 m"
    using rel near [OF pS(1)] pS(2) by (intro pm_prologue_keep [where w = 64]) (simp_all add: pairer_rel_def)
  have pend: "tp_pend c p = stamps (pend_of (if c then One else Two) m)" for c
    using rel by (simp add: pairer_rel_def tp_pend_def)
  have hw: "tp_high_water_slot q = ?h" using q(2) rel by (simp add: pairer_rel_def)
  have "hm_keys (tp_pend c q) \<subseteq> insert k (hm_keys (tp_pend c p))" for c
    using q(3,4) by (cases "c = b") (auto simp: hm_keys_insert hm_keys_remove)
  moreover have "fst k' \<in> ?S" if "k' \<in> hm_keys (tp_pend c p)" for k' c
    using that pS unfolding pend stamps_simps by (cases c) force+
  ultimately have "fst k' \<in> ?S" if "k' \<in> hm_keys (tp_pend c q)" for k' c
    using that kS by blast
  then have keep: "tp_evict q = q"
    using near by (intro tp_evict_keep) (simp only: hw)
  have p1: "pend_of x ?m1 = pend_of x m" for x using m1 by (cases x) simp_all
  have sl: "slots_in (obs_slots xs) (pend_of x m)" for x
    using rel unfolding pairer_rel_def slots_in_def by (cases x) simp_all
  have oth: "(if \<not> b then One else Two) = other_role ?e" by simp
  show ?thesis
  proof (cases "hm_get (pend_of (other_role ?e) ?m1) k")
    case None
    then have nk: "k \<notin> hm_keys (tp_pend (\<not> b) p)" and g: "hm_get (tp_pend (\<not> b) p) k = None"
      unfolding pend oth stamps_simps p1 by (simp_all add: hm_get_None_iff)
    have st: "pm_step R m (as_observation (b, k, ts)) = pend_upd ?e (hm_insert k \<lparr>mp_ts = ts, mp_slot = fst k\<rparr>) ?m1"
      unfolding as_observation_def prod.case pm_step_def pm_observe_None [OF None] by simp
    have "tp_digest q = tp_digest p" using q(5) g by simp
    then show ?thesis
      unfolding q(1) keep st using q(3,4) nk rel sl hS p1
      unfolding pairer_rel_sides [of _ _ _ b] pm_frame hw
      by (simp add: stamps_simps slots_in_ops obs_slots_snoc pm_frame)
  next
    case (Some o')
    then have k: "k \<in> hm_keys (tp_pend (\<not> b) p)" and g: "hm_get (tp_pend (\<not> b) p) k = Some (mp_ts o')"
      unfolding pend oth stamps_simps p1 by (simp_all add: hm_get_in_keys)
    let ?m2 = "pend_upd (other_role ?e) (hm_remove k) ?m1"
    have st: "pm_step R m (as_observation (b, k, ts))
        = snd (pm_record_match R (fst (pair_ts ?e ts (mp_ts o'))) (snd (pair_ts ?e ts (mp_ts o'))) ?m2)"
      unfolding as_observation_def prod.case pm_step_def pm_observe_Some [OF Some] ..
    have delta: "delta_ns (fst (pair_ts ?e ts (mp_ts o'))) (snd (pair_ts ?e ts (mp_ts o')))
        = (if b then tp_delta_ns (mp_ts o') ts else tp_delta_ns ts (mp_ts o'))"
      by (simp add: pair_ts_def delta_ns_def tp_delta_ns_def)
    have dig: "sd_digest (tp_digest q) = pm_digest (pm_push_delta R v ?m2)" "sd_buffer (tp_digest q) = pm_buffer (pm_push_delta R v ?m2)"
      if "v = ns_to_ms (if b then tp_delta_ns (mp_ts o') ts else tp_delta_ns ts (mp_ts o'))" for v
      using q(5) g rel that
      by (simp_all add: sd_bd.push_buf sd_bd.push_dig pm_bd.push_buf pm_bd.push_dig pm_frame pairer_rel_def)
    have fr: "pend_of x (snd (pm_record_match R t1 t2 ?m2)) = pend_of x ?m2" for x t1 t2
      unfolding pend_of_def pm_record_match_frame ..
    have e': "pend_of ?e ?m2 = pend_of ?e m" "pend_of (other_role ?e) ?m2 = hm_remove k (pend_of (other_role ?e) m)"
      using p1 by (simp_all only: pend_upd_frame)
    show ?thesis
      unfolding q(1) keep st pairer_rel_sides [of _ _ _ b] fr e' pm_record_match_frame delta dig [OF refl]
      using q(3,4) k rel sl hS
      unfolding pairer_rel_sides [of _ _ _ b] pm_frame hw
      by (simp add: stamps_simps slots_in_ops obs_slots_snoc pm_frame)
  qed
qed

lemma pairer_run:
  fixes R :: "'d runtime"
  assumes "slots_close xs"
  shows "pairer_rel xs (tp_pool.run R (tp_new R) xs) (pm_run R (pm_new R (SlotWindow 64)) (map as_observation xs))"
  using assms
proof (induction xs rule: rev_induct)
  case Nil
  then show ?case by (simp add: pairer_rel_def tp_new_def sd_new_def stamps_simps)
next
  case (snoc x xs)
  obtain b k ts where x: "x = (b, k, ts)" by (cases x)
  show ?case
    using snoc.IH [OF slots_close_snocD(1) [OF snoc.prems [unfolded x]]] pairer_step [OF _ snoc.prems [unfolded x]]
    by (simp add: x pm_run_append)
qed

text \<open>C15. Refinement: while all slots of one endpoint's transactions and signed account writes lie within 64 of
  each other, its cross-stream tracker computes exactly what a pair matcher computes that takes transactions
  for endpoint one and account writes for endpoint two: the same pending keys and arrival times, the same
  batches merged into the digest, the same values in the buffer.\<close>

theorem cross_stream_refines_pair_matcher:
  fixes R :: "'d runtime" and evs :: "event list"
  assumes "own = concat (map pair_obs (filter (\<lambda>ev. ev_endpoint ev = e) evs))" and "slots_close own"
  shows "let p = tx_vs_account (fold (cs_observe R) evs (cs_new R e));
             m = pm_run R (pm_new R (SlotWindow 64)) (map as_observation own)
         in pending_tx p = stamps (pending_ep1 m) \<and> pending_account p = stamps (pending_ep2 m)
          \<and> sd_digest (tp_digest p) = pm_digest m \<and> sd_buffer (tp_digest p) = pm_buffer m"
proof -
  have "tx_vs_account (fold (cs_observe R) evs (cs_new R e)) = tp_pool.run R (tp_new R) own"
    using cs_fold [of R evs "cs_new R e"] by (simp add: cs_new_def assms(1))
  then show ?thesis using pairer_run [OF assms(2), of R] by (simp add: pairer_rel_def Let_def)
qed

definition sample_cross :: "event list" where
  "sample_cross =
    [\<lparr>ev_ts = ts_at 10, ev_subscription = Main One Com_Processed Accounts, ev_payload = Account_Payload 100 [1] [2] 7 (Some [9]) 0\<rparr>,
     \<lparr>ev_ts = ts_at 11, ev_subscription = Main Two Com_Processed Transactions, ev_payload = Transaction_Payload 100 [9] 0\<rparr>,
     \<lparr>ev_ts = ts_at 14, ev_subscription = Main One Com_Processed Transactions, ev_payload = Transaction_Payload 100 [9] 0\<rparr>,
     \<lparr>ev_ts = ts_at 15, ev_subscription = Main One Com_Processed Transactions, ev_payload = Transaction_Payload 101 [8] 0\<rparr>]"

theorem cross_stream_refines_pair_matcher_witness:
  "sd_buffer (tp_digest (tx_vs_account (fold (cs_observe list_runtime) sample_cross (cs_new list_runtime One))))
     = pm_buffer (pm_run list_runtime (pm_new list_runtime (SlotWindow 64))
         (map as_observation [(False, (100, [9]), ts_at 10), (True, (100, [9]), ts_at 14), (True, (101, [8]), ts_at 15)]))
   \<and> sd_buffer (tp_digest (tx_vs_account (fold (cs_observe list_runtime) sample_cross (cs_new list_runtime One)))) = [-4]"
proof -
  have own: "concat (map pair_obs (filter (\<lambda>ev. ev_endpoint ev = One) sample_cross))
      = [(False, (100, [9]), ts_at 10), (True, (100, [9]), ts_at 14), (True, (101, [8]), ts_at 15)]"
    by (simp add: sample_cross_def pair_obs_def)
  have close: "slots_close (concat (map pair_obs (filter (\<lambda>ev. ev_endpoint ev = One) sample_cross)))"
    unfolding own by (simp add: slots_close_def)
  have "sd_buffer (tp_digest (tx_vs_account (fold (cs_observe list_runtime) sample_cross (cs_new list_runtime One)))) = [-4]"
    by code_simp
  with cross_stream_refines_pair_matcher [OF refl close, of list_runtime] show ?thesis
    by (simp add: Let_def own)
qed

end
