(* ===== verification/Strings.thy ===== *)
theory Strings
  imports Prelude
begin

text \<open>
  Rust's \<open>str\<close> as the list of its UTF-8 bytes (a HOL \<open>string\<close>, whose characters are bytes), with the
  operations of the standard library the code uses: \<open>trim\<close> (Unicode white space in its UTF-8 encodings),
  \<open>split\<close> and \<open>split_once\<close> at an ASCII character, ASCII case folding and the parsers of unsigned integers.
\<close>

section \<open>White space\<close>

text \<open>The number of bytes of the white-space character a string starts with, 0 if it starts with none.\<close>

fun ws_len :: "string \<Rightarrow> nat" where
  "ws_len (c # cs) =
     (if c \<in> {CHR 0x09, CHR 0x0A, CHR 0x0B, CHR 0x0C, CHR 0x0D, CHR 0x20} then 1
      else if c = CHR 0xC2 then (case cs of d # _ \<Rightarrow> if d \<in> {CHR 0x85, CHR 0xA0} then 2 else 0 | _ \<Rightarrow> 0)
      else if c = CHR 0xE1 then (case cs of d # e # _ \<Rightarrow> if d = CHR 0x9A \<and> e = CHR 0x80 then 3 else 0 | _ \<Rightarrow> 0)
      else if c = CHR 0xE2 then
        (case cs of d # e # _ \<Rightarrow>
           if d = CHR 0x80 \<and> e \<in> {CHR 0x80, CHR 0x81, CHR 0x82, CHR 0x83, CHR 0x84, CHR 0x85, CHR 0x86, CHR 0x87,
                CHR 0x88, CHR 0x89, CHR 0x8A, CHR 0xA8, CHR 0xA9, CHR 0xAF}
              \<or> d = CHR 0x81 \<and> e = CHR 0x9F then 3 else 0
         | _ \<Rightarrow> 0)
      else if c = CHR 0xE3 then (case cs of d # e # _ \<Rightarrow> if d = CHR 0x80 \<and> e = CHR 0x80 then 3 else 0 | _ \<Rightarrow> 0)
      else 0)"
| "ws_len [] = 0"

definition ws_tail :: "string \<Rightarrow> nat" where
  "ws_tail s =
     (if ws_len (drop (length s - 1) s) = 1 then 1
      else if 2 \<le> length s \<and> ws_len (drop (length s - 2) s) = 2 then 2
      else if 3 \<le> length s \<and> ws_len (drop (length s - 3) s) = 3 then 3
      else 0)"

lemma ws_tail_pos: "ws_tail s \<noteq> 0 \<Longrightarrow> s \<noteq> []"
  by (auto simp: ws_tail_def)

function str_trim_start :: "string \<Rightarrow> string" where
  "str_trim_start s = (if ws_len s = 0 then s else str_trim_start (drop (ws_len s) s))"
  by pat_completeness auto
termination
  by (relation "measure length") (auto, metis diff_less length_greater_0_conv not_gr_zero ws_len.simps(2))

function str_trim_end :: "string \<Rightarrow> string" where
  "str_trim_end s = (if ws_tail s = 0 then s else str_trim_end (take (length s - ws_tail s) s))"
  by pat_completeness auto
termination
proof (relation "measure length")
  fix s :: string
  assume "ws_tail s \<noteq> 0"
  then show "(take (length s - ws_tail s) s, s) \<in> measure length"
    using ws_tail_pos [of s] by (cases s) simp_all
qed simp

declare str_trim_start.simps [simp del] str_trim_end.simps [simp del]

definition str_trim :: "string \<Rightarrow> string" where
  "str_trim s = str_trim_end (str_trim_start s)"

definition graphic :: "char \<Rightarrow> bool" where
  "graphic c \<longleftrightarrow> 0x20 < (of_char c :: nat) \<and> (of_char c :: nat) < 0x7F"

lemma graphic_ws_len: "graphic c \<Longrightarrow> ws_len (c # cs) = 0"
proof -
  assume g: "graphic c"
  have "\<not> graphic x" if "x \<in> {CHR 0x09, CHR 0x0A, CHR 0x0B, CHR 0x0C, CHR 0x0D, CHR 0x20, CHR 0xC2, CHR 0xE1, CHR 0xE2, CHR 0xE3}" for x
    using that by (auto simp: graphic_def)
  with g have "c \<notin> {CHR 0x09, CHR 0x0A, CHR 0x0B, CHR 0x0C, CHR 0x0D, CHR 0x20, CHR 0xC2, CHR 0xE1, CHR 0xE2, CHR 0xE3}" by blast
  then show ?thesis by simp
qed

text \<open>A string of graphic ASCII characters has nothing to trim.\<close>

lemma str_trim_graphic:
  assumes "list_all graphic s"
  shows "str_trim s = s"
proof -
  have z: "ws_len (drop n s) = 0" for n
  proof (cases "drop n s")
    case (Cons c cs)
    then have "c \<in> set (drop n s)" by simp
    then have "c \<in> set s" by (rule in_set_dropD)
    then have "graphic c" using assms by (simp add: list_all_iff)
    then show ?thesis unfolding Cons by (rule graphic_ws_len)
  qed simp
  have "ws_tail s = 0" by (simp add: ws_tail_def z)
  then show ?thesis
    using z [of 0] by (simp add: str_trim_def str_trim_start.simps str_trim_end.simps)
qed

section \<open>Splitting\<close>

fun str_split :: "char \<Rightarrow> string \<Rightarrow> string list" where
  "str_split c [] = [[]]"
| "str_split c (x # xs) =
     (if x = c then [] # str_split c xs
      else case str_split c xs of [] \<Rightarrow> [[x]] | p # ps \<Rightarrow> (x # p) # ps)"

fun str_join :: "char \<Rightarrow> string list \<Rightarrow> string" where
  "str_join c [] = []"
| "str_join c [p] = p"
| "str_join c (p # q # ps) = p @ c # str_join c (q # ps)"

definition str_split_once :: "char \<Rightarrow> string \<Rightarrow> (string \<times> string) option" where
  "str_split_once c s =
     (let p = takeWhile (\<lambda>x. x \<noteq> c) s
      in if length p = length s then None else Some (p, drop (Suc (length p)) s))"

lemma str_split_no_sep: "c \<notin> set p \<Longrightarrow> str_split c p = [p]"
  by (induction p) auto

lemma str_split_append: "c \<notin> set p \<Longrightarrow> str_split c (p @ c # s) = p # str_split c s"
  by (induction p) auto

lemma str_split_join:
  "ps \<noteq> [] \<Longrightarrow> (\<And>p. p \<in> set ps \<Longrightarrow> c \<notin> set p) \<Longrightarrow> str_split c (str_join c ps) = ps"
  by (induction c ps rule: str_join.induct) (simp_all add: str_split_no_sep str_split_append)

lemma str_split_once_append: "c \<notin> set p \<Longrightarrow> str_split_once c (p @ c # s) = Some (p, s)"
proof -
  assume "c \<notin> set p"
  then have "takeWhile (\<lambda>x. x \<noteq> c) (p @ c # s) = p" by (induction p) auto
  then show ?thesis by (simp add: str_split_once_def)
qed

lemma set_str_join: "set (str_join c ps) \<subseteq> insert c (\<Union>(set ` set ps))"
  by (induction c ps rule: str_join.induct) auto

section \<open>Case and numbers\<close>

definition ascii_lower :: "char \<Rightarrow> char" where
  "ascii_lower c = (let n = (of_char c :: nat) in if 65 \<le> n \<and> n \<le> 90 then char_of (n + 32) else c)"

definition to_ascii_lowercase :: "string \<Rightarrow> string" where
  "to_ascii_lowercase s = map ascii_lower s"

definition eq_ignore_ascii_case :: "string \<Rightarrow> string \<Rightarrow> bool" where
  "eq_ignore_ascii_case s t \<longleftrightarrow> to_ascii_lowercase s = to_ascii_lowercase t"

definition digit_val :: "char \<Rightarrow> int option" where
  "digit_val c = (let n = (of_char c :: int) in if 48 \<le> n \<and> n \<le> 57 then Some (n - 48) else None)"

text \<open>Digit by digit with overflow checks, as \<open>from_str_radix\<close> does.\<close>

fun parse_digits :: "int \<Rightarrow> int \<Rightarrow> string \<Rightarrow> int option" where
  "parse_digits bound acc [] = Some acc"
| "parse_digits bound acc (c # cs) =
     (case digit_val c of
        None \<Rightarrow> None
      | Some d \<Rightarrow> if acc * 10 + d < bound then parse_digits bound (acc * 10 + d) cs else None)"

text \<open>\<open>str::parse\<close> at an unsigned type: one leading plus sign is accepted, a lone sign is not.\<close>

definition parse_unsigned :: "int \<Rightarrow> string \<Rightarrow> int option" where
  "parse_unsigned bound s =
     (case s of
        [] \<Rightarrow> None
      | c # cs \<Rightarrow> if c = CHR ''+'' then (if cs = [] then None else parse_digits bound 0 cs) else parse_digits bound 0 s)"

definition parse_u32 :: "string \<Rightarrow> u32 option" where
  "parse_u32 s = map_option of_int (parse_unsigned (2 ^ 32) s)"

definition parse_u64 :: "string \<Rightarrow> u64 option" where
  "parse_u64 s = map_option of_int (parse_unsigned (2 ^ 64) s)"

text \<open>Decimal rendering.\<close>

definition digit_char :: "nat \<Rightarrow> char" where
  "digit_char d = char_of (48 + d)"

fun show_nat :: "nat \<Rightarrow> string" where
  "show_nat n = (if n < 10 then [digit_char n] else show_nat (n div 10) @ [digit_char (n mod 10)])"

declare show_nat.simps [simp del]

lemma digit_val_char: "d < 10 \<Longrightarrow> digit_val (digit_char d) = Some (int d)"
proof -
  assume "d < 10"
  then have "(of_char (digit_char d) :: nat) = 48 + d" by (simp add: digit_char_def)
  then have "(of_char (digit_char d) :: int) = 48 + int d"
    by (metis of_nat_add of_nat_numeral of_nat_of_char)
  with \<open>d < 10\<close> show ?thesis by (simp add: digit_val_def Let_def)
qed

lemma parse_digits_append:
  "parse_digits b a (s @ t) = Option.bind (parse_digits b a s) (\<lambda>a'. parse_digits b a' t)"
  by (induction s arbitrary: a) (simp_all split: option.split)

lemma parse_digits_show: "int n < b \<Longrightarrow> parse_digits b 0 (show_nat n) = Some (int n)"
proof (induction n rule: show_nat.induct)
  case (1 n)
  show ?case
  proof (cases "n < 10")
    case True
    then show ?thesis using 1 by (simp add: show_nat.simps [of n] digit_val_char)
  next
    case False
    have "int (n div 10) < b" using 1(2) by linarith
    then have "parse_digits b 0 (show_nat (n div 10)) = Some (int (n div 10))" using False 1(1) by blast
    moreover have "int (n div 10) * 10 + int (n mod 10) = int n" by (metis div_mult_mod_eq of_nat_add of_nat_mult of_nat_numeral)
    ultimately show ?thesis
      using False 1(2) by (simp add: show_nat.simps [of n] parse_digits_append digit_val_char)
  qed
qed

lemma show_nat_digits: "c \<in> set (show_nat n) \<Longrightarrow> \<exists>d < 10. c = digit_char d"
proof (induction n rule: show_nat.induct)
  case (1 n)
  have m: "n mod 10 < 10" by simp
  show ?case
  proof (cases "n < 10")
    case False
    then have "c \<in> set (show_nat (n div 10)) \<or> c = digit_char (n mod 10)"
      using 1(2) by (auto simp: show_nat.simps [of n])
    then show ?thesis using 1(1) [OF False] m by blast
  qed (use 1 in \<open>auto simp: show_nat.simps [of n]\<close>)
qed

lemma show_nat_nonempty: "show_nat n \<noteq> []"
  by (subst show_nat.simps) simp

lemma digit_char_cases: "d < 10 \<Longrightarrow> graphic (digit_char d) \<and> digit_char d \<notin> {CHR '','', CHR '':'', CHR ''='', CHR ''+'', CHR ''.''}"
proof -
  assume d: "d < 10"
  have o: "(of_char (digit_char d) :: nat) = 48 + d" using d by (simp add: digit_char_def)
  have "c \<noteq> digit_char d" if "(of_char c :: nat) < 48 \<or> 57 < (of_char c :: nat)" for c
    using that d o by auto
  from this [of "CHR '',''"] this [of "CHR '':''"] this [of "CHR ''=''"] this [of "CHR ''+''"] this [of "CHR ''.''"] o d
  show ?thesis by (auto simp: graphic_def)
qed

lemma show_nat_chars:
  "list_all graphic (show_nat n)"
  "CHR '','' \<notin> set (show_nat n)" "CHR '':'' \<notin> set (show_nat n)" "CHR ''='' \<notin> set (show_nat n)" "CHR ''.'' \<notin> set (show_nat n)"
  using show_nat_digits [of _ n] digit_char_cases by (fastforce simp: list_all_iff)+

lemma parse_unsigned_show: "int n < b \<Longrightarrow> parse_unsigned b (show_nat n) = Some (int n)"
proof -
  assume b: "int n < b"
  obtain c cs where c: "show_nat n = c # cs" using show_nat_nonempty [of n] by (cases "show_nat n") auto
  then obtain d where "d < 10" "c = digit_char d" using show_nat_digits [of c n] by auto
  then have "c \<noteq> CHR ''+''" using digit_char_cases by auto
  then show ?thesis using parse_digits_show [OF b] by (simp add: parse_unsigned_def c)
qed

lemma parse_u32_show: "parse_u32 (show_nat (unat (n :: u32))) = Some n"
proof -
  have "int (unat n) < 2 ^ 32" using unsigned_less [of n, where ?'a = int] by simp
  from parse_unsigned_show [OF this] show ?thesis by (simp add: parse_u32_def)
qed

end
