(* ===== verification/Proto.thy ===== *)
theory Proto
  imports Strings "HOL-Library.List_Lexorder" "HOL-Library.Char_ord"
begin

text \<open>
  Version negotiation (\<open>src/proto.rs\<close>, the version check of \<open>src/subscribe/yellowstone.rs\<close> and the lookup of
  \<open>build.rs\<close>). From outside come the fields of \<open>proto_env\<close>: the crate versions of the build, serde's two
  JSON readings of a version blob, and the \<open>Debug\<close> rendering of a string. A panic is the value \<open>None\<close>.
\<close>

section \<open>Semantic versions\<close>

record semver =
  sv_major :: u32
  sv_minor :: u32
  sv_patch :: u32

definition MIN_YELLOWSTONE_GEYSER :: semver where
  "MIN_YELLOWSTONE_GEYSER = \<lparr>sv_major = 12, sv_minor = 2, sv_patch = 0\<rparr>"

definition MIN_RICHAT :: semver where
  "MIN_RICHAT = \<lparr>sv_major = 2, sv_minor = 1, sv_patch = 0\<rparr>"

datatype ordering = Less | Equal | Greater

definition cmp_u32 :: "u32 \<Rightarrow> u32 \<Rightarrow> ordering" where
  "cmp_u32 a b = (if a < b then Less else if a = b then Equal else Greater)"

definition semver_ord :: "semver \<Rightarrow> semver \<Rightarrow> ordering" where
  "semver_ord a b =
     (case cmp_u32 (sv_major a) (sv_major b) of
        Equal \<Rightarrow> (case cmp_u32 (sv_minor a) (sv_minor b) of
                   Equal \<Rightarrow> cmp_u32 (sv_patch a) (sv_patch b) | r \<Rightarrow> r)
      | r \<Rightarrow> r)"

definition show_u32 :: "u32 \<Rightarrow> string" where
  "show_u32 n = show_nat (unat n)"

definition semver_display :: "semver \<Rightarrow> string" where
  "semver_display v = show_u32 (sv_major v) @ CHR ''.'' # show_u32 (sv_minor v) @ CHR ''.'' # show_u32 (sv_patch v)"

datatype semver_parse_error = Shape string | Component string string

text \<open>\<open>s.split_once(c).map_or(s, |(p, _)| p)\<close>.\<close>

definition before_char :: "char \<Rightarrow> string \<Rightarrow> string" where
  "before_char c s = (case str_split_once c s of None \<Rightarrow> s | Some (p, _) \<Rightarrow> p)"

definition strip_v :: "string \<Rightarrow> string" where
  "strip_v s = (case s of [] \<Rightarrow> [] | c # cs \<Rightarrow> if c = CHR ''v'' then cs else s)"

definition parse_semver :: "string \<Rightarrow> semver_parse_error + semver" where
  "parse_semver raw =
     (let stripped = strip_v (str_trim raw)
      in case str_split_once (CHR ''.'') stripped of
           None \<Rightarrow> Inl (Shape raw)
         | Some (major, rest) \<Rightarrow>
             (case str_split_once (CHR ''.'') rest of
                None \<Rightarrow> Inl (Shape raw)
              | Some (minor, patch_rest) \<Rightarrow>
                  (let no_build = before_char (CHR ''+'') patch_rest;
                       patch_str = (case str_split_once (CHR ''-'') no_build of
                                      Some (p, _) \<Rightarrow> p
                                    | None \<Rightarrow> before_char (CHR ''+'') patch_rest)
                   in case parse_u32 major of
                        None \<Rightarrow> Inl (Component raw major)
                      | Some ma \<Rightarrow>
                          (case parse_u32 minor of
                             None \<Rightarrow> Inl (Component raw minor)
                           | Some mi \<Rightarrow>
                               (case parse_u32 patch_str of
                                  None \<Rightarrow> Inl (Component raw patch_str)
                                | Some pa \<Rightarrow> Inr \<lparr>sv_major = ma, sv_minor = mi, sv_patch = pa\<rparr>)))))"

section \<open>Compatibility\<close>

datatype compatibility =
    Accept
  | Warn string
  | RefuseOlderMajor u32 u32
  | RefuseBaseline string semver semver
  | Unknown string

fun is_refusal :: "compatibility \<Rightarrow> bool" where
  "is_refusal (RefuseOlderMajor _ _) = True"
| "is_refusal (RefuseBaseline _ _ _) = True"
| "is_refusal _ = False"

definition baseline_minimum :: "string \<Rightarrow> semver option" where
  "baseline_minimum pkg =
     (if pkg = ''yellowstone-grpc-geyser'' then Some MIN_YELLOWSTONE_GEYSER
      else if pkg = ''richat'' then Some MIN_RICHAT else None)"

definition unwrap_or :: "'a option \<Rightarrow> 'a \<Rightarrow> 'a" where
  "unwrap_or o' d = (case o' of Some x \<Rightarrow> x | None \<Rightarrow> d)"

definition baseline_refusal :: "semver \<Rightarrow> semver option \<Rightarrow> string option \<Rightarrow> compatibility option" where
  "baseline_refusal server_proto server_plugin package =
     (case package of
        None \<Rightarrow> None
      | Some pkg \<Rightarrow>
          (case baseline_minimum pkg of
             None \<Rightarrow> None
           | Some m \<Rightarrow>
               (let target = unwrap_or server_plugin server_proto
                in if sv_major target = sv_major m \<and> semver_ord target m = Less
                   then Some (RefuseBaseline pkg m target) else None)))"

definition classify :: "semver \<Rightarrow> semver option \<Rightarrow> semver option \<Rightarrow> string option \<Rightarrow> compatibility" where
  "classify harness server_proto server_plugin package =
     (case server_proto of
        None \<Rightarrow> Unknown ''server did not report a parseable proto version''
      | Some v \<Rightarrow>
          if sv_major v < sv_major harness then RefuseOlderMajor (sv_major harness) (sv_major v)
          else (case baseline_refusal v server_plugin package of
                  Some r \<Rightarrow> r
                | None \<Rightarrow>
                    (case semver_ord v harness of
                       Equal \<Rightarrow> Accept
                     | Less \<Rightarrow> Warn (''server proto '' @ semver_display v @ '' is older than harness build '' @ semver_display harness
                         @ '' within the same major; continuing because protobuf is forward-compatible for added fields, ''
                         @ ''but flag the version drift'')
                     | Greater \<Rightarrow> Warn (''server proto '' @ semver_display v @ '' is newer than harness build '' @ semver_display harness
                         @ ''; continuing because protobuf is backward-compatible for known fields''))))"

section \<open>Evaluating a version string\<close>

record version_blob =
  vb_package :: "string option"
  vb_version :: "string option"
  vb_proto :: "string option"
  vb_solana :: "string option"

record proto_env =
  pe_harness_proto :: string
  pe_harness_client :: string
  pe_json_nested :: "string \<Rightarrow> version_blob option"
  pe_json_flat :: "string \<Rightarrow> version_blob option"
  pe_dbg :: "string \<Rightarrow> string"

record endpoint_version =
  ev_package :: "string option"
  ev_plugin_version :: "string option"
  ev_proto_version :: "string option"
  ev_solana_version :: "string option"
  ev_compatibility :: compatibility
  ev_raw :: string
  ev_warnings :: "string list"

definition parse_version_blob :: "proto_env \<Rightarrow> string \<Rightarrow> version_blob option" where
  "parse_version_blob E raw =
     (case pe_json_nested E raw of
        Some inner \<Rightarrow>
          if vb_package inner \<noteq> None \<or> vb_version inner \<noteq> None \<or> vb_proto inner \<noteq> None \<or> vb_solana inner \<noteq> None
          then Some inner else pe_json_flat E raw
      | None \<Rightarrow> pe_json_flat E raw)"

fun show_semver_error :: "proto_env \<Rightarrow> semver_parse_error \<Rightarrow> string" where
  "show_semver_error E (Shape input) = ''expected MAJOR.MINOR.PATCH triple, got '' @ pe_dbg E input"
| "show_semver_error E (Component input c) =
     ''non-numeric semver component in '' @ pe_dbg E input @ '': '' @ pe_dbg E c"

text \<open>A byte inside a multi-byte UTF-8 character; slicing a \<open>str\<close> there panics.\<close>

definition continuation_byte :: "char \<Rightarrow> bool" where
  "continuation_byte c \<longleftrightarrow> 0x80 \<le> (of_char c :: int) \<and> (of_char c :: int) < 0xC0"

definition short_preview :: "proto_env \<Rightarrow> string \<Rightarrow> string option" where
  "short_preview E s =
     (let trimmed = str_trim s
      in if length trimmed \<le> 80 then Some (pe_dbg E trimmed)
         else if continuation_byte (trimmed ! 77) then None
         else Some (pe_dbg E (take 77 trimmed) @ ''...''))"

definition assemble :: "endpoint_version \<Rightarrow> endpoint_version" where
  "assemble v = v\<lparr>ev_warnings := remdups_adj (sort (ev_warnings v))\<rparr>"

definition trim_quotes :: "string \<Rightarrow> string" where
  "trim_quotes s = rev (dropWhile (\<lambda>c. c = CHR 0x22) (rev (dropWhile (\<lambda>c. c = CHR 0x22) s)))"

definition semver_ok :: "semver_parse_error + semver \<Rightarrow> semver option" where
  "semver_ok r = (case r of Inl _ \<Rightarrow> None | Inr v \<Rightarrow> Some v)"

definition semver_warning :: "proto_env \<Rightarrow> string \<Rightarrow> string option \<Rightarrow> string list" where
  "semver_warning E prefix s =
     (case s of
        None \<Rightarrow> []
      | Some s \<Rightarrow> (case parse_semver s of Inl e \<Rightarrow> [prefix @ show_semver_error E e] | Inr _ \<Rightarrow> []))"

definition opt_or :: "'a option \<Rightarrow> 'a option \<Rightarrow> 'a option" where
  "opt_or a b = (case a of Some _ \<Rightarrow> a | None \<Rightarrow> b)"

definition evaluate_blob :: "proto_env \<Rightarrow> semver \<Rightarrow> string \<Rightarrow> version_blob \<Rightarrow> endpoint_version" where
  "evaluate_blob E harness raw blob =
     (let w0 = (if vb_package blob = None then [''server GetVersion did not include `package`; baseline check skipped''] else []);
          server_str = opt_or (vb_proto blob) (vb_version blob);
          server = Option.bind server_str (\<lambda>s. semver_ok (parse_semver s));
          w1 = semver_warning E ''could not parse server proto version: '' server_str;
          plugin = Option.bind (vb_version blob) (\<lambda>s. semver_ok (parse_semver s));
          w2 = semver_warning E ''could not parse server plugin version: '' (vb_version blob);
          compat = classify harness server plugin (vb_package blob);
          w3 = (case compat of Warn reason \<Rightarrow> [reason] | _ \<Rightarrow> [])
      in assemble \<lparr>ev_package = vb_package blob, ev_plugin_version = vb_version blob,
           ev_proto_version = opt_or (vb_proto blob) server_str, ev_solana_version = vb_solana blob,
           ev_compatibility = compat, ev_raw = raw, ev_warnings = w0 @ w1 @ w2 @ w3\<rparr>)"

definition evaluate_plain :: "proto_env \<Rightarrow> semver \<Rightarrow> string \<Rightarrow> string \<Rightarrow> endpoint_version" where
  "evaluate_plain E harness raw preview =
     (let plain = trim_quotes (str_trim raw)
      in assemble \<lparr>ev_package = None, ev_plugin_version = Some plain, ev_proto_version = Some plain,
           ev_solana_version = None, ev_compatibility = classify harness (semver_ok (parse_semver plain)) None None,
           ev_raw = raw,
           ev_warnings = [''server version string is not JSON ('' @ preview @ ''); treating as plain version label'']\<rparr>)"

definition evaluate :: "proto_env \<Rightarrow> string \<Rightarrow> endpoint_version option" where
  "evaluate E raw =
     (case parse_semver (pe_harness_proto E) of
        Inl e \<Rightarrow> Some \<lparr>ev_package = None, ev_plugin_version = None, ev_proto_version = None, ev_solana_version = None,
            ev_compatibility = Unknown ''failed to parse harness's own proto crate version'', ev_raw = raw,
            ev_warnings = [''internal: failed to parse harness proto version '' @ pe_dbg E (pe_harness_proto E)
               @ '': '' @ show_semver_error E e]\<rparr>
      | Inr harness \<Rightarrow>
          (case parse_version_blob E raw of
             Some blob \<Rightarrow> Some (evaluate_blob E harness raw blob)
           | None \<Rightarrow> map_option (evaluate_plain E harness raw) (short_preview E raw)))"

text \<open>The check after \<open>GetVersion\<close> returned: a refusal becomes the error with its reason.\<close>

definition check_version :: "proto_env \<Rightarrow> string \<Rightarrow> (string + endpoint_version) option" where
  "check_version E raw =
     map_option (\<lambda>ev. case ev_compatibility ev of
         RefuseOlderMajor harness server \<Rightarrow>
           Inl (''server proto major '' @ show_u32 server @ '' is older than harness major '' @ show_u32 harness)
       | RefuseBaseline package minimum reported \<Rightarrow>
           Inl (''server plugin '' @ package @ '' reports '' @ semver_display reported
             @ '' which is below the supported minimum '' @ semver_display minimum)
       | _ \<Rightarrow> Inr ev) (evaluate E raw)"

section \<open>Run metadata\<close>

record proto_metadata =
  pm_proto_crate_version :: string
  pm_client_crate_version :: string
  pm_endpoint1_plugin :: string
  pm_endpoint2_plugin :: string
  pm_warnings :: "string list"

definition metadata_from_endpoints :: "proto_env \<Rightarrow> endpoint_version \<Rightarrow> endpoint_version \<Rightarrow> proto_metadata" where
  "metadata_from_endpoints E e1 e2 =
     \<lparr>pm_proto_crate_version = pe_harness_proto E, pm_client_crate_version = pe_harness_client E,
      pm_endpoint1_plugin = unwrap_or (ev_plugin_version e1) ''unknown'',
      pm_endpoint2_plugin = unwrap_or (ev_plugin_version e2) ''unknown'',
      pm_warnings = map (\<lambda>w. ''endpoint1: '' @ w) (ev_warnings e1) @ map (\<lambda>w. ''endpoint2: '' @ w) (ev_warnings e2)\<rparr>"

definition metadata_from_single_endpoint :: "proto_env \<Rightarrow> endpoint_version \<Rightarrow> proto_metadata" where
  "metadata_from_single_endpoint E e1 =
     \<lparr>pm_proto_crate_version = pe_harness_proto E, pm_client_crate_version = pe_harness_client E,
      pm_endpoint1_plugin = unwrap_or (ev_plugin_version e1) ''unknown'',
      pm_endpoint2_plugin = ''n/a (--solo)'',
      pm_warnings = map (\<lambda>w. ''endpoint1: '' @ w) (ev_warnings e1)\<rparr>"

section \<open>The build script's lock-file lookup\<close>

definition strip_prefix :: "string \<Rightarrow> string \<Rightarrow> string option" where
  "strip_prefix p s = (if take (length p) s = p then Some (drop (length p) s) else None)"

definition strip_suffix :: "string \<Rightarrow> string \<Rightarrow> string option" where
  "strip_suffix p s = map_option rev (strip_prefix (rev p) (rev s))"

fun scan_lock :: "string \<Rightarrow> string list \<Rightarrow> string option" where
  "scan_lock want [] = None"
| "scan_lock want (line # rest) =
     (if str_trim line \<noteq> want then scan_lock want rest
      else case rest of
             [] \<Rightarrow> None
           | nxt # _ \<Rightarrow> Option.bind (strip_prefix (''version = '' @ [CHR 0x22]) (str_trim nxt)) (strip_suffix [CHR 0x22]))"

definition lookup_crate_version :: "string list \<Rightarrow> string \<Rightarrow> string option" where
  "lookup_crate_version lock_lines crate = scan_lock (''name = '' @ CHR 0x22 # crate @ [CHR 0x22]) lock_lines"

end
