(* ===== verification/Decode.thy ===== *)
theory Decode
  imports Event_Types
begin

text \<open>
  The decoder from protobuf updates to events (\<open>decode\<close>, \<open>to_pubkey\<close>, \<open>to_signature\<close> in
  \<open>src/collect/mod.rs\<close>). The messages are the fields the code reads. Three things come from outside the
  sources and are fields of \<open>decode_env\<close>: the generated \<open>SlotStatus::try_from\<close>, \<open>bs58::decode\<close> and
  \<open>prost::Message::encoded_len\<close> of a block (whose unread fields are the parameter \<open>'m\<close>).
\<close>

record slot_update =
  su_slot :: u64
  su_status :: int

record account_info =
  ai_pubkey :: "u8 list"
  ai_owner :: "u8 list"
  ai_write_version :: u64
  ai_txn_signature :: "u8 list option"
  ai_lamports :: u64

record account_update =
  au_slot :: u64
  au_account :: "account_info option"

record transaction_info =
  ti_signature :: "u8 list"
  ti_index :: u64

record transaction_update =
  tu_slot :: u64
  tu_transaction :: "transaction_info option"

record 'm block_update =
  bu_slot :: u64
  bu_blockhash :: string
  bu_executed_transaction_count :: u64
  bu_entries_count :: u64
  bu_rest :: 'm

record entry_update =
  eu_slot :: u64
  eu_index :: u64
  eu_executed_transaction_count :: u64
  eu_starting_transaction_index :: u64

datatype 'm update_oneof =
    Upd_Slot slot_update
  | Upd_Account account_update
  | Upd_Transaction transaction_update
  | Upd_Block "'m block_update"
  | Upd_Entry entry_update
  | Upd_Ping | Upd_Pong | Upd_BlockMeta | Upd_TransactionStatus

record 'm timed_update =
  tm_ts :: event_timestamp
  tm_update :: "'m update_oneof option"

record 'm decode_env =
  slot_status_try_from :: "int \<Rightarrow> slot_status option"
  bs58_decode :: "string \<Rightarrow> string + u8 list"
  encoded_len :: "'m block_update \<Rightarrow> nat"

datatype decode_error =
    AccountMissingInfo
  | TxMissingInfo
  | BadPubkeyLen nat
  | BadSignatureLen nat
  | BadBlockhashLen nat
  | BadBlockhashEncoding string string
  | UnknownSlotStatus int

fun result_bind :: "'e + 'a \<Rightarrow> ('a \<Rightarrow> 'e + 'b) \<Rightarrow> 'e + 'b" where
  "result_bind (Inl e) f = Inl e"
| "result_bind (Inr x) f = f x"

definition to_pubkey :: "u8 list \<Rightarrow> decode_error + pubkey32" where
  "to_pubkey b = (if length b \<noteq> 32 then Inl (BadPubkeyLen (length b)) else Inr b)"

definition to_signature :: "u8 list \<Rightarrow> decode_error + signature64" where
  "to_signature b = (if length b \<noteq> 64 then Inl (BadSignatureLen (length b)) else Inr b)"

text \<open>\<open>opt.map(f).transpose()\<close>.\<close>

fun transpose_option :: "('e + 'a) option \<Rightarrow> 'e + 'a option" where
  "transpose_option None = Inr None"
| "transpose_option (Some (Inl e)) = Inl e"
| "transpose_option (Some (Inr x)) = Inr (Some x)"

fun decode_payload :: "'m decode_env \<Rightarrow> 'm update_oneof \<Rightarrow> decode_error + event_payload option" where
  "decode_payload E (Upd_Slot s) =
     (case slot_status_try_from E (su_status s) of
        None \<Rightarrow> Inl (UnknownSlotStatus (su_status s))
      | Some status \<Rightarrow> Inr (Some (Slot_Payload (su_slot s) (slot_stage_from_proto status))))"
| "decode_payload E (Upd_Account a) =
     (case au_account a of
        None \<Rightarrow> Inl AccountMissingInfo
      | Some info \<Rightarrow>
          result_bind (to_pubkey (ai_pubkey info)) (\<lambda>pubkey.
          result_bind (to_pubkey (ai_owner info)) (\<lambda>owner.
          result_bind (transpose_option (map_option to_signature (ai_txn_signature info))) (\<lambda>sig.
            Inr (Some (Account_Payload (au_slot a) pubkey owner (ai_write_version info) sig (ai_lamports info)))))))"
| "decode_payload E (Upd_Transaction t) =
     (case tu_transaction t of
        None \<Rightarrow> Inl TxMissingInfo
      | Some info \<Rightarrow>
          result_bind (to_signature (ti_signature info)) (\<lambda>sig.
            Inr (Some (Transaction_Payload (tu_slot t) sig (ti_index info)))))"
| "decode_payload E (Upd_Block b) =
     (case bs58_decode E (bu_blockhash b) of
        Inl reason \<Rightarrow> Inl (BadBlockhashEncoding (bu_blockhash b) reason)
      | Inr bytes \<Rightarrow>
          if length bytes \<noteq> 32 then Inl (BadBlockhashLen (length bytes))
          else Inr (Some (Block_Payload (bu_slot b) bytes (bu_executed_transaction_count b) (bu_entries_count b)
                 (u64_from_or (- 1) (encoded_len E b)))))"
| "decode_payload E (Upd_Entry e) =
     Inr (Some (Entry_Payload (eu_slot e) (eu_index e) (eu_executed_transaction_count e) (eu_starting_transaction_index e)))"
| "decode_payload E Upd_Ping = Inr None"
| "decode_payload E Upd_Pong = Inr None"
| "decode_payload E Upd_BlockMeta = Inr None"
| "decode_payload E Upd_TransactionStatus = Inr None"

definition decode :: "'m decode_env \<Rightarrow> 'm timed_update \<Rightarrow> subscription_role \<Rightarrow> decode_error + event option" where
  "decode E timed sub =
     (case tm_update timed of
        None \<Rightarrow> Inr None
      | Some payload \<Rightarrow>
          result_bind (decode_payload E payload) (\<lambda>p.
            Inr (map_option (\<lambda>q. \<lparr>ev_ts = tm_ts timed, ev_subscription = sub, ev_payload = q\<rparr>) p)))"

section \<open>Specification\<close>

text \<open>Which updates carry data, and which of those are well formed, stated without the error branches.\<close>

fun is_control :: "'m update_oneof option \<Rightarrow> bool" where
  "is_control None = True"
| "is_control (Some u) = (u \<in> {Upd_Ping, Upd_Pong, Upd_BlockMeta, Upd_TransactionStatus})"

fun well_formed_update :: "'m decode_env \<Rightarrow> 'm update_oneof \<Rightarrow> bool" where
  "well_formed_update E (Upd_Slot s) = (slot_status_try_from E (su_status s) \<noteq> None)"
| "well_formed_update E (Upd_Account a) =
     (case au_account a of None \<Rightarrow> False
      | Some i \<Rightarrow> length (ai_pubkey i) = 32 \<and> length (ai_owner i) = 32
          \<and> (case ai_txn_signature i of None \<Rightarrow> True | Some s \<Rightarrow> length s = 64))"
| "well_formed_update E (Upd_Transaction t) =
     (case tu_transaction t of None \<Rightarrow> False | Some i \<Rightarrow> length (ti_signature i) = 64)"
| "well_formed_update E (Upd_Block b) =
     (case bs58_decode E (bu_blockhash b) of Inl _ \<Rightarrow> False | Inr bytes \<Rightarrow> length bytes = 32)"
| "well_formed_update E _ = True"

fun payload_ok :: "event_payload \<Rightarrow> bool" where
  "payload_ok (Account_Payload _ pk ow _ sig _) =
     (length pk = 32 \<and> length ow = 32 \<and> (case sig of None \<Rightarrow> True | Some s \<Rightarrow> length s = 64))"
| "payload_ok (Transaction_Payload _ sig _) = (length sig = 64)"
| "payload_ok (Block_Payload _ bh _ _ _) = (length bh = 32)"
| "payload_ok _ = True"

fun payload_slot :: "event_payload \<Rightarrow> u64" where
  "payload_slot (Slot_Payload s _) = s"
| "payload_slot (Account_Payload s _ _ _ _ _) = s"
| "payload_slot (Transaction_Payload s _ _) = s"
| "payload_slot (Block_Payload s _ _ _ _) = s"
| "payload_slot (Entry_Payload s _ _ _) = s"

fun update_slot :: "'m update_oneof \<Rightarrow> u64" where
  "update_slot (Upd_Slot s) = su_slot s"
| "update_slot (Upd_Account a) = au_slot a"
| "update_slot (Upd_Transaction t) = tu_slot t"
| "update_slot (Upd_Block b) = bu_slot b"
| "update_slot (Upd_Entry e) = eu_slot e"
| "update_slot _ = 0"

lemma result_bind_Inr: "result_bind r f = Inr y \<longleftrightarrow> (\<exists>x. r = Inr x \<and> f x = Inr y)"
  by (cases r) simp_all

lemma to_pubkey_Inr: "to_pubkey b = Inr p \<longleftrightarrow> p = b \<and> length b = 32"
  by (auto simp: to_pubkey_def)

lemma to_signature_Inr: "to_signature b = Inr p \<longleftrightarrow> p = b \<and> length b = 64"
  by (auto simp: to_signature_def)

lemma transpose_signature_Inr:
  "transpose_option (map_option to_signature o') = Inr r \<longleftrightarrow>
     r = o' \<and> (case o' of None \<Rightarrow> True | Some s \<Rightarrow> length s = 64)"
  by (cases o') (auto simp: to_signature_def)

lemmas decode_Inr = result_bind_Inr to_pubkey_Inr to_signature_Inr transpose_signature_Inr

lemma decode_payload_None: "decode_payload E u = Inr None \<longleftrightarrow> is_control (Some u)"
  by (cases u) (simp_all add: decode_Inr split: option.split sum.split)

lemma decode_payload_Some:
  "decode_payload E u = Inr (Some p) \<longleftrightarrow>
     \<not> is_control (Some u) \<and> well_formed_update E u \<and> decode_payload E u = Inr (Some p) \<and> payload_ok p \<and> payload_slot p = update_slot u"
  by (cases u) (auto simp: decode_Inr split: option.splits sum.splits if_splits)

lemma decode_payload_ex: "\<not> is_control (Some u) \<Longrightarrow> well_formed_update E u \<Longrightarrow> \<exists>p. decode_payload E u = Inr (Some p)"
  by (cases u) (auto simp: decode_Inr split: option.splits sum.splits if_splits)

lemma decode_payload_cases:
  "decode_payload E u = Inr None \<longleftrightarrow> is_control (Some u)"
  "(\<exists>p. decode_payload E u = Inr (Some p)) \<longleftrightarrow> \<not> is_control (Some u) \<and> well_formed_update E u"
  "decode_payload E u = Inr (Some p) \<Longrightarrow> payload_ok p \<and> payload_slot p = update_slot u"
  using decode_payload_None decode_payload_Some decode_payload_ex by blast+

text \<open>C27. The decoder accepts exactly the well-formed updates: control messages and empty frames yield nothing,
  a data update yields an event if and only if it is well formed and an error otherwise, never a panic; and
  every event carries its frame's timestamp, its subscription and its slot unchanged, with 32-byte keys and
  64-byte signatures, whatever the base58, enum and length functions return.\<close>

theorem decode_spec:
  fixes E :: "'m decode_env"
  shows "(decode E timed sub = Inr None \<longleftrightarrow> is_control (tm_update timed))
    \<and> ((\<exists>ev. decode E timed sub = Inr (Some ev)) \<longleftrightarrow>
         (\<exists>u. tm_update timed = Some u \<and> \<not> is_control (Some u) \<and> well_formed_update E u))
    \<and> (case decode E timed sub of
         Inr (Some ev) \<Rightarrow> ev_ts ev = tm_ts timed \<and> ev_subscription ev = sub \<and> payload_ok (ev_payload ev)
           \<and> (\<exists>u. tm_update timed = Some u \<and> payload_slot (ev_payload ev) = update_slot u)
       | _ \<Rightarrow> True)"
proof (cases "tm_update timed")
  case None
  then show ?thesis by (simp add: decode_def)
next
  case (Some u)
  show ?thesis
  proof (cases "decode_payload E u")
    case (Inl e)
    then show ?thesis
      using decode_payload_cases(1,2) [of E u] by (simp add: decode_def Some del: is_control.simps)
  next
    case (Inr p)
    then show ?thesis
      using decode_payload_cases [of E u] by (cases p) (simp_all add: decode_def Some del: is_control.simps)
  qed
qed

end
