(* ===== verification/Ring.thy ===== *)
theory Ring
  imports Event_Types
begin

text \<open>
  The bounded ring between a receiver and its dispatcher (\<open>src/collect/ring.rs\<close>) and the shared counters
  (\<open>ReceiverStats\<close> in \<open>src/collect/mod.rs\<close>). \<open>crossbeam_channel::bounded(n)\<close> is the documented bounded FIFO
  queue; each end knows whether the other is gone. Constructing a ring of capacity zero panics, which is the
  value \<open>None\<close>.
\<close>

record receiver_stats =
  rs_received :: u64
  rs_dropped :: u64
  rs_decode_errors :: u64
  rs_disconnects :: u64
  rs_shutdown :: bool

definition receiver_stats_new :: receiver_stats where
  "receiver_stats_new = \<lparr>rs_received = 0, rs_dropped = 0, rs_decode_errors = 0, rs_disconnects = 0, rs_shutdown = False\<rparr>"

record receiver_stats_snapshot =
  sn_received :: u64
  sn_dropped :: u64
  sn_decode_errors :: u64
  sn_disconnects :: u64

definition stats_snapshot :: "receiver_stats \<Rightarrow> receiver_stats_snapshot" where
  "stats_snapshot s = \<lparr>sn_received = rs_received s, sn_dropped = rs_dropped s,
     sn_decode_errors = rs_decode_errors s, sn_disconnects = rs_disconnects s\<rparr>"

record 'e ring =
  rg_capacity :: usize
  rg_queue :: "'e list"
  rg_receiver_alive :: bool
  rg_sender_alive :: bool
  rg_stats :: receiver_stats

definition ring_with_capacity :: "usize \<Rightarrow> 'e ring option" where
  "ring_with_capacity capacity =
     (if 0 < capacity
      then Some \<lparr>rg_capacity = capacity, rg_queue = [], rg_receiver_alive = True, rg_sender_alive = True,
                 rg_stats = receiver_stats_new\<rparr>
      else None)"

definition ring_try_send :: "'e \<Rightarrow> 'e ring \<Rightarrow> bool \<times> 'e ring" where
  "ring_try_send ev r =
     (if \<not> rg_receiver_alive r then (False, r)
      else if length (rg_queue r) < unat (rg_capacity r) then (True, r\<lparr>rg_queue := rg_queue r @ [ev]\<rparr>)
      else (False, r\<lparr>rg_stats := (rg_stats r)\<lparr>rs_dropped := rs_dropped (rg_stats r) + 1\<rparr>\<rparr>))"

datatype try_recv_error = Empty | Disconnected

definition ring_try_recv :: "'e ring \<Rightarrow> (try_recv_error + 'e) \<times> 'e ring" where
  "ring_try_recv r =
     (case rg_queue r of
        [] \<Rightarrow> (Inl (if rg_sender_alive r then Empty else Disconnected), r)
      | ev # q \<Rightarrow> (Inr ev, r\<lparr>rg_queue := q\<rparr>))"

text \<open>The blocking receive: \<open>None\<close> while there is nothing to receive and the sender still lives.\<close>

definition ring_recv :: "'e ring \<Rightarrow> ((unit + 'e) \<times> 'e ring) option" where
  "ring_recv r =
     (case rg_queue r of
        [] \<Rightarrow> if rg_sender_alive r then None else Some (Inl (), r)
      | ev # q \<Rightarrow> Some (Inr ev, r\<lparr>rg_queue := q\<rparr>))"

lemma ring_recv_try:
  "ring_recv r = (case ring_try_recv r of (Inr ev, r') \<Rightarrow> Some (Inr ev, r') | (Inl Empty, _) \<Rightarrow> None | (Inl Disconnected, r') \<Rightarrow> Some (Inl (), r'))"
  by (simp add: ring_recv_def ring_try_recv_def split: list.split)

definition ring_pending :: "'e ring \<Rightarrow> nat" where
  "ring_pending r = length (rg_queue r)"

section \<open>Bounded FIFO queues\<close>

text \<open>The contract between the two ends, whatever implements it: an accepted element joins at the back if there
  is room, a refused one changes nothing but the refusal count, and removal takes the front.\<close>

locale bounded_fifo =
  fixes items :: "'s \<Rightarrow> 'e list"
    and room :: "'s \<Rightarrow> nat"
    and refused :: "'s \<Rightarrow> nat"
    and live :: "'s \<Rightarrow> bool"
    and send :: "'e \<Rightarrow> 's \<Rightarrow> bool \<times> 's"
    and recv :: "'s \<Rightarrow> 'e option \<times> 's"
  assumes send_room: "room (snd (send x s)) = room s"
    and send_live: "live s \<Longrightarrow> refused s + 1 < 2 ^ 64 \<Longrightarrow> live (snd (send x s))"
    and send_ok: "live s \<Longrightarrow> length (items s) < room s \<Longrightarrow>
      fst (send x s) \<and> items (snd (send x s)) = items s @ [x] \<and> refused (snd (send x s)) = refused s"
    and send_full: "live s \<Longrightarrow> refused s + 1 < 2 ^ 64 \<Longrightarrow> room s \<le> length (items s) \<Longrightarrow>
      \<not> fst (send x s) \<and> items (snd (send x s)) = items s \<and> refused (snd (send x s)) = refused s + 1"
    and recv_room: "room (snd (recv s)) = room s" and recv_live: "live s \<Longrightarrow> live (snd (recv s))"
    and recv_refused: "refused (snd (recv s)) = refused s"
    and recv_items: "recv s = (case items s of [] \<Rightarrow> (None, snd (recv s)) | x # q \<Rightarrow> (Some x, snd (recv s)))"
    and recv_rest: "items (snd (recv s)) = tl (items s)"
begin

text \<open>A schedule: \<open>Some x\<close> is an attempt to send \<open>x\<close>, \<open>None\<close> an attempt to receive.\<close>

fun exec :: "'e option list \<Rightarrow> 's \<Rightarrow> ('e list \<times> 'e list) \<times> 's" where
  "exec [] s = (([], []), s)"
| "exec (Some x # as) s =
     (case send x s of (ok, s') \<Rightarrow> case exec as s' of ((acc, out), s'') \<Rightarrow> ((if ok then x # acc else acc, out), s''))"
| "exec (None # as) s =
     (case recv s of (y, s') \<Rightarrow> case exec as s' of ((acc, out), s'') \<Rightarrow>
        ((acc, case y of Some x \<Rightarrow> x # out | None \<Rightarrow> out), s''))"

definition sends :: "'e option list \<Rightarrow> nat" where
  "sends as = length (filter (\<lambda>a. a \<noteq> None) as)"

lemma exec_fifo:
  assumes "live s" and "refused s + sends as < 2 ^ 64" and "length (items s) \<le> room s"
  shows "items s @ fst (fst (exec as s)) = snd (fst (exec as s)) @ items (snd (exec as s))
    \<and> refused (snd (exec as s)) + length (fst (fst (exec as s))) = refused s + sends as
    \<and> length (items (snd (exec as s))) \<le> room s"
  using assms
proof (induction as arbitrary: s)
  case Nil
  then show ?case by (simp add: sends_def)
next
  case (Cons a as)
  show ?case
  proof (cases a)
    case None
    let ?s' = "snd (recv s)"
    have IH: "items ?s' @ fst (fst (exec as ?s')) = snd (fst (exec as ?s')) @ items (snd (exec as ?s'))"
      "refused (snd (exec as ?s')) + length (fst (fst (exec as ?s'))) = refused s + sends as"
      "length (items (snd (exec as ?s'))) \<le> room s"
      using Cons.IH [of ?s'] Cons.prems by (simp_all add: None sends_def recv_live recv_refused recv_room recv_rest)
    have r: "recv s = ((case items s of [] \<Rightarrow> None | x # q \<Rightarrow> Some x), ?s')"
      by (subst recv_items) (simp split: list.split)
    have ex: "exec (None # as) s = ((fst (fst (exec as ?s')),
        case items s of [] \<Rightarrow> snd (fst (exec as ?s')) | x # q \<Rightarrow> x # snd (fst (exec as ?s'))), snd (exec as ?s'))"
      by (subst exec.simps(3), subst r) (simp split: list.split prod.split)
    show ?thesis
      unfolding None ex using IH by (cases "items s") (simp_all add: sends_def recv_rest)
  next
    case (Some x)
    let ?s' = "snd (send x s)"
    have ref: "refused s + 1 < 2 ^ 64" using Cons.prems(2) by (simp add: Some sends_def)
    have ex: "exec (Some x # as) s = ((if fst (send x s) then x # fst (fst (exec as ?s')) else fst (fst (exec as ?s')),
        snd (fst (exec as ?s'))), snd (exec as ?s'))"
      by (simp split: prod.split)
    have live: "live ?s'" using Cons.prems(1) ref by (rule send_live)
    show ?thesis
    proof (cases "length (items s) < room s")
      case True
      note ok = send_ok [OF Cons.prems(1) True, of x]
      have "length (items ?s') \<le> room ?s'" using ok True by (simp add: send_room)
      then show ?thesis
        unfolding Some ex using Cons.IH [OF live] ok Cons.prems(2)
        by (simp add: Some sends_def send_room)
    next
      case False
      then have le: "room s \<le> length (items s)" by simp
      note full = send_full [OF Cons.prems(1) ref le, of x]
      have "length (items ?s') \<le> room ?s'" using full Cons.prems(3) by (simp add: send_room)
      then show ?thesis
        unfolding Some ex using Cons.IH [OF live] full Cons.prems(2)
        by (simp add: Some sends_def send_room)
    qed
  qed
qed

end

definition ring_recv_opt :: "'e ring \<Rightarrow> 'e option \<times> 'e ring" where
  "ring_recv_opt r = (case ring_try_recv r of (Inr ev, r') \<Rightarrow> (Some ev, r') | (Inl _, r') \<Rightarrow> (None, r'))"

interpretation rg: bounded_fifo rg_queue "\<lambda>r. unat (rg_capacity r)" "\<lambda>r. unat (rs_dropped (rg_stats r))" rg_receiver_alive
  ring_try_send ring_recv_opt
proof (unfold_locales, goal_cases)
  case (4 s x)
  then show ?case by (simp add: ring_try_send_def unat_word_ariths)
qed (auto simp: ring_try_send_def ring_recv_opt_def ring_try_recv_def unat_word_ariths split: list.split)

text \<open>C23. The ring is a bounded FIFO that accounts for every event: for any interleaving of sends and receives
  on a fresh ring, the received events followed by the queued ones are exactly the accepted ones in order,
  accepted and dropped events add up to the attempts, and the queue never exceeds the capacity.\<close>

theorem ring_fifo_conservation:
  assumes "ring_with_capacity capacity = Some r" and "rg.sends as < 2 ^ 64"
  shows "let ((accepted, received), r') = rg.exec as r
         in accepted = received @ rg_queue r'
          \<and> unat (rs_dropped (rg_stats r')) + length accepted = rg.sends as
          \<and> ring_pending r' \<le> unat capacity"
proof -
  have r: "rg_queue r = []" "rg_receiver_alive r" "rs_dropped (rg_stats r) = 0" "rg_capacity r = capacity"
    using assms(1) by (auto simp: ring_with_capacity_def receiver_stats_new_def split: if_splits)
  have h: "unat (rs_dropped (rg_stats r)) + rg.sends as < 2 ^ 64" "length (rg_queue r) \<le> unat (rg_capacity r)"
    using r assms(2) by simp_all
  show ?thesis
    using rg.exec_fifo [OF r(2) h]
    unfolding r append_Nil unsigned_0 add_0 Let_def case_prod_unfold ring_pending_def by blast
qed

theorem ring_fifo_conservation_witness:
  "rg.exec [Some (1 :: nat), Some 2, Some 3, None, Some 4, None] (the (ring_with_capacity 2)) =
     (([1, 2, 4], [1, 2]), \<lparr>rg_capacity = 2, rg_queue = [4], rg_receiver_alive = True, rg_sender_alive = True,
        rg_stats = receiver_stats_new\<lparr>rs_dropped := 1\<rparr>\<rparr>)
   \<and> ring_pending (snd (rg.exec [Some (1 :: nat), Some 2, Some 3, None, Some 4, None] (the (ring_with_capacity 2)))) \<le> unat (2 :: usize)"
proof -
  have "ring_with_capacity 2 = Some (the (ring_with_capacity 2) :: nat ring)" by (simp add: ring_with_capacity_def)
  moreover have "rg.sends [Some (1 :: nat), Some 2, Some 3, None, Some 4, None] < 2 ^ 64" by (simp add: rg.sends_def)
  moreover have "rg.exec [Some (1 :: nat), Some 2, Some 3, None, Some 4, None] (the (ring_with_capacity 2)) =
     (([1, 2, 4], [1, 2]), \<lparr>rg_capacity = 2, rg_queue = [4], rg_receiver_alive = True, rg_sender_alive = True,
        rg_stats = receiver_stats_new\<lparr>rs_dropped := 1\<rparr>\<rparr>)"
    by (simp add: ring_with_capacity_def ring_try_send_def ring_recv_opt_def ring_try_recv_def receiver_stats_new_def)
  ultimately show ?thesis
    using ring_fifo_conservation [of 2 "the (ring_with_capacity 2) :: nat ring" "[Some 1, Some 2, Some 3, None, Some 4, None]"]
    by simp
qed

end
