(* ===== verification/Receiver.thy ===== *)
theory Receiver
  imports Decode Ring
begin

text \<open>
  The receiver thread of one subscription (\<open>receiver_thread_main\<close> in \<open>src/run.rs\<close>) as a state machine. The
  phases are the points at which it waits for its surroundings: its start (pinning to a core, the real-time
  priority, the runtime of its own), the two loop heads that read the shutdown
  flag, the connection attempt, the opening of the stream and the poll of the stream. An input is what the
  surroundings answer; \<open>rx_step\<close> is undefined on an answer the phase does not wait for.
\<close>

definition MAX_CONSECUTIVE_SAME_ERROR :: u32 where
  "MAX_CONSECUTIVE_SAME_ERROR = 5"

datatype sched_outcome = Sched_Applied | Sched_Unsupported | Sched_Failed string

datatype rx_phase = Rx_Start | Rx_Loop | Rx_Connect | Rx_Open | Rx_Poll | Rx_Await | Rx_Done

datatype 'm poll =
    Poll_Item "'m timed_update"
  | Poll_Status string
  | Poll_End
  | Poll_Timeout

text \<open>\<open>Thread_Started\<close> carries the outcomes of the two scheduler calls, if they are made, and whether the runtime
  could be built.\<close>

datatype 'm rx_input =
    Thread_Started "sched_outcome option" "sched_outcome option" bool
  | Check_Shutdown bool
  | Connect_Ok
  | Connect_Err string
  | Open_Ok
  | Open_Err string
  | Polled "'m poll"

record receiver =
  rx_role :: subscription_role
  rx_core :: "u32 option"
  rx_realtime :: bool
  rx_fifo :: bool
  rx_phase :: rx_phase
  rx_last_error :: "string option"
  rx_same_count :: u32

text \<open>\<open>rx_fifo\<close>: the thread runs with real-time priority.\<close>

definition rx_start :: "u32 option \<Rightarrow> bool \<Rightarrow> subscription_role \<Rightarrow> receiver" where
  "rx_start core realtime role = \<lparr>rx_role = role, rx_core = core, rx_realtime = realtime, rx_fifo = False,
     rx_phase = Rx_Start, rx_last_error = None, rx_same_count = 0\<rparr>"

text \<open>The coalescing of identical messages, the same at the three places an error is handled.\<close>

definition rx_note_error :: "string \<Rightarrow> receiver \<Rightarrow> receiver" where
  "rx_note_error text rx =
     (if rx_last_error rx \<noteq> Some text then rx\<lparr>rx_last_error := Some text, rx_same_count := 1\<rparr>
      else rx\<lparr>rx_same_count := rx_same_count rx + 1\<rparr>)"

definition rx_give_up_or :: "rx_phase \<Rightarrow> receiver \<Rightarrow> receiver" where
  "rx_give_up_or next_phase rx =
     rx\<lparr>rx_phase := (if MAX_CONSECUTIVE_SAME_ERROR \<le> rx_same_count rx then Rx_Done else next_phase)\<rparr>"

definition bump_decode_errors :: "event ring \<Rightarrow> event ring" where
  "bump_decode_errors r = r\<lparr>rg_stats := (rg_stats r)\<lparr>rs_decode_errors := rs_decode_errors (rg_stats r) + 1\<rparr>\<rparr>"

definition bump_disconnects :: "event ring \<Rightarrow> event ring" where
  "bump_disconnects r = r\<lparr>rg_stats := (rg_stats r)\<lparr>rs_disconnects := rs_disconnects (rg_stats r) + 1\<rparr>\<rparr>"

definition rx_poll :: "'m decode_env \<Rightarrow> 'm poll \<Rightarrow> receiver \<Rightarrow> event ring \<Rightarrow> receiver \<times> event ring" where
  "rx_poll E p rx ring =
     (case p of
        Poll_Timeout \<Rightarrow> (rx\<lparr>rx_phase := Rx_Poll\<rparr>, ring)
      | Poll_End \<Rightarrow> (rx\<lparr>rx_phase := Rx_Loop\<rparr>, ring)
      | Poll_Status text \<Rightarrow> (rx_give_up_or Rx_Loop (rx_note_error text rx), bump_disconnects ring)
      | Poll_Item timed \<Rightarrow>
          (case decode E timed (rx_role rx) of
             Inl _ \<Rightarrow> (rx\<lparr>rx_phase := Rx_Poll\<rparr>, bump_decode_errors ring)
           | Inr None \<Rightarrow> (rx\<lparr>rx_phase := Rx_Poll\<rparr>, ring)
           | Inr (Some ev) \<Rightarrow>
               (rx\<lparr>rx_phase := Rx_Poll, rx_last_error := None, rx_same_count := 0\<rparr>, snd (ring_try_send ev ring))))"

text \<open>The start of the thread: pinned if it was given a core, escalated if \<open>--realtime\<close> was, then its runtime is built.\<close>

definition rx_thread_start :: "sched_outcome option \<Rightarrow> sched_outcome option \<Rightarrow> bool \<Rightarrow> receiver \<Rightarrow> receiver option" where
  "rx_thread_start pin realtime runtime_ok rx =
     (if rx_phase rx = Rx_Start \<and> (pin = None \<longleftrightarrow> rx_core rx = None) \<and> (realtime = None \<longleftrightarrow> \<not> rx_realtime rx)
      then Some (rx\<lparr>rx_phase := (if runtime_ok then Rx_Loop else Rx_Done), rx_fifo := (realtime = Some Sched_Applied)\<rparr>)
      else None)"

fun rx_step :: "'m decode_env \<Rightarrow> 'm rx_input \<Rightarrow> receiver \<times> event ring \<Rightarrow> (receiver \<times> event ring) option" where
  "rx_step E (Thread_Started pin realtime runtime_ok) (rx, ring) =
     map_option (\<lambda>rx'. (rx', ring)) (rx_thread_start pin realtime runtime_ok rx)"
| "rx_step E (Check_Shutdown b) (rx, ring) =
     (case rx_phase rx of
        Rx_Loop \<Rightarrow> Some (rx\<lparr>rx_phase := (if b then Rx_Done else Rx_Connect)\<rparr>, ring)
      | Rx_Poll \<Rightarrow> Some (rx\<lparr>rx_phase := (if b then Rx_Done else Rx_Await)\<rparr>, ring)
      | _ \<Rightarrow> None)"
| "rx_step E Connect_Ok (rx, ring) =
     (if rx_phase rx = Rx_Connect then Some (rx\<lparr>rx_phase := Rx_Open\<rparr>, ring) else None)"
| "rx_step E (Connect_Err text) (rx, ring) =
     (if rx_phase rx = Rx_Connect then Some (rx_give_up_or Rx_Loop (rx_note_error text rx), ring) else None)"
| "rx_step E Open_Ok (rx, ring) =
     (if rx_phase rx = Rx_Open then Some (rx\<lparr>rx_phase := Rx_Poll\<rparr>, ring) else None)"
| "rx_step E (Open_Err text) (rx, ring) =
     (if rx_phase rx = Rx_Open then Some (rx_give_up_or Rx_Loop (rx_note_error text rx), ring) else None)"
| "rx_step E (Polled p) (rx, ring) =
     (if rx_phase rx = Rx_Await then Some (rx_poll E p rx ring) else None)"

text \<open>The one answer that counts a thread with real-time priority.\<close>

fun applies_realtime :: "'m rx_input \<Rightarrow> bool" where
  "applies_realtime (Thread_Started _ realtime _) = (realtime = Some Sched_Applied)"
| "applies_realtime _ = False"

lemma rx_step_fifo:
  assumes "rx_step E i (rx, ring) = Some (rx', ring')"
  shows "rx_realtime rx' = rx_realtime rx \<and> rx_fifo rx' = (if rx_phase rx = Rx_Start then applies_realtime i else rx_fifo rx)
    \<and> (applies_realtime i \<longrightarrow> rx_phase rx = Rx_Start \<and> rx_realtime rx) \<and> rx_phase rx' \<noteq> Rx_Start"
  using assms
  by (cases i) (auto simp: rx_thread_start_def rx_poll_def rx_give_up_or_def rx_note_error_def
      split: rx_phase.splits if_splits poll.splits sum.splits option.splits)

text \<open>A whole history of answers, oldest first.\<close>

fun rx_exec :: "'m decode_env \<Rightarrow> 'm rx_input list \<Rightarrow> receiver \<times> event ring \<Rightarrow> (receiver \<times> event ring) option" where
  "rx_exec E [] s = Some s"
| "rx_exec E (i # is) s = (case rx_step E i s of None \<Rightarrow> None | Some s' \<Rightarrow> rx_exec E is s')"

section \<open>When a receiver gives up\<close>

text \<open>What a history says about failures: the messages since the last event that was decoded.\<close>

definition delivered :: "'m decode_env \<Rightarrow> subscription_role \<Rightarrow> 'm rx_input \<Rightarrow> event option" where
  "delivered E role i =
     (case i of Polled (Poll_Item timed) \<Rightarrow> (case decode E timed role of Inr d \<Rightarrow> d | Inl _ \<Rightarrow> None) | _ \<Rightarrow> None)"

fun failure_text :: "'m rx_input \<Rightarrow> string option" where
  "failure_text (Connect_Err t) = Some t"
| "failure_text (Open_Err t) = Some t"
| "failure_text (Polled (Poll_Status t)) = Some t"
| "failure_text _ = None"

definition recent_failures :: "'m decode_env \<Rightarrow> subscription_role \<Rightarrow> 'm rx_input list \<Rightarrow> string list" where
  "recent_failures E role is =
     foldl (\<lambda>fs i. if delivered E role i \<noteq> None then [] else case failure_text i of Some t \<Rightarrow> fs @ [t] | None \<Rightarrow> fs) [] is"

fun ends_thread :: "'m rx_input \<Rightarrow> bool" where
  "ends_thread (Thread_Started _ _ runtime_ok) = (\<not> runtime_ok)"
| "ends_thread (Check_Shutdown b) = b"
| "ends_thread _ = False"

text \<open>The length of the run of equal elements a list ends with.\<close>

definition final_run :: "'a list \<Rightarrow> nat" where
  "final_run fs = (if fs = [] then 0 else length (takeWhile (\<lambda>t. t = last fs) (rev fs)))"

lemma final_run_snoc: "final_run (fs @ [t]) = (if fs \<noteq> [] \<and> last fs = t then final_run fs + 1 else 1)"
  by (cases fs rule: rev_cases) (auto simp: final_run_def)

lemma final_run_Nil [simp]: "final_run [] = 0"
  by (simp add: final_run_def)

lemma takeWhile_ge_replicate: "n \<le> length (takeWhile (\<lambda>t. t = a) xs) \<longleftrightarrow> (\<exists>ys. xs = replicate n a @ ys)"
proof (induction n arbitrary: xs)
  case (Suc n)
  then show ?case by (cases xs) auto
qed simp

lemma final_run_ge:
  assumes "0 < n"
  shows "n \<le> final_run fs \<longleftrightarrow> (\<exists>t ts. fs = ts @ replicate n t)"
proof
  assume n: "n \<le> final_run fs"
  then have "fs \<noteq> []" using assms by (cases fs) simp_all
  then have "n \<le> length (takeWhile (\<lambda>t. t = last fs) (rev fs))" using n by (simp add: final_run_def)
  then obtain ys where "rev fs = replicate n (last fs) @ ys" unfolding takeWhile_ge_replicate by blast
  then have "rev (rev fs) = rev (replicate n (last fs) @ ys)" by simp
  then have "fs = rev ys @ replicate n (last fs)" by simp
  then show "\<exists>t ts. fs = ts @ replicate n t" by blast
next
  assume "\<exists>t ts. fs = ts @ replicate n t"
  then obtain t ts where fs: "fs = ts @ replicate n t" by blast
  obtain m where m: "n = Suc m" using assms by (cases n) simp_all
  have "fs = (ts @ replicate m t) @ [t]" by (simp add: fs m replicate_append_same)
  then have last: "last fs = t" and ne: "fs \<noteq> []" by simp_all
  have "rev fs = replicate n t @ rev ts" by (simp add: fs)
  then have "n \<le> length (takeWhile (\<lambda>u. u = t) (rev fs))" unfolding takeWhile_ge_replicate by blast
  then show "n \<le> final_run fs" by (simp add: final_run_def ne last)
qed

text \<open>The state the history \<open>is\<close> leads to.\<close>

definition rx_inv :: "'m decode_env \<Rightarrow> 'm rx_input list \<Rightarrow> receiver \<Rightarrow> bool" where
  "rx_inv E is rx \<longleftrightarrow>
     (let fs = recent_failures E (rx_role rx) is
      in rx_last_error rx = (if fs = [] then None else Some (last fs))
       \<and> unat (rx_same_count rx) = final_run fs \<and> final_run fs \<le> 5
       \<and> (rx_phase rx = Rx_Done \<longleftrightarrow> (is \<noteq> [] \<and> ends_thread (last is)) \<or> 5 \<le> final_run fs))"

lemma unat_succ_small: "unat (c :: u32) \<le> 5 \<Longrightarrow> unat (c + 1) = unat c + 1"
  by (simp add: unat_word_ariths)

lemma rx_phase_note: "rx_phase (rx_note_error t rx) = rx_phase rx" "rx_role (rx_note_error t rx) = rx_role rx"
  by (simp_all add: rx_note_error_def)

lemma give_up_bound: "MAX_CONSECUTIVE_SAME_ERROR \<le> c \<longleftrightarrow> 5 \<le> unat c"
  by (simp add: MAX_CONSECUTIVE_SAME_ERROR_def word_le_nat_alt)

lemma recent_failures_snoc:
  "recent_failures E role (is @ [i]) =
     (if delivered E role i \<noteq> None then []
      else case failure_text i of Some t \<Rightarrow> recent_failures E role is @ [t] | None \<Rightarrow> recent_failures E role is)"
  unfolding recent_failures_def foldl_append foldl_Cons foldl_Nil by (rule refl)

lemma rx_inv_start: "rx_inv E [] (rx_start core realtime role)"
  by (simp add: rx_inv_def rx_start_def recent_failures_def)

lemma rx_inv_failure:
  assumes inv: "rx_inv E is rx" and live: "rx_phase rx \<noteq> Rx_Done" and np: "p \<noteq> Rx_Done"
    and i: "failure_text i = Some t" "delivered E (rx_role rx) i = None"
  shows "rx_inv E (is @ [i]) (rx_give_up_or p (rx_note_error t rx))"
proof -
  let ?fs = "recent_failures E (rx_role rx) is"
  have le: "\<not> 5 \<le> final_run ?fs" using inv live by (simp add: rx_inv_def Let_def)
  have fs: "recent_failures E (rx_role rx) (is @ [i]) = ?fs @ [t]" by (simp add: recent_failures_snoc i)
  have ni: "\<not> ends_thread i" using i(1) by (cases i) auto
  have c: "unat (rx_same_count (rx_note_error t rx)) = final_run (?fs @ [t])"
    "rx_last_error (rx_note_error t rx) = Some t"
    using inv le by (auto simp: rx_note_error_def rx_inv_def Let_def final_run_snoc unat_succ_small split: if_splits)
  show ?thesis
    using c le np ni by (auto simp: rx_inv_def rx_give_up_or_def rx_phase_note fs Let_def give_up_bound final_run_snoc)
qed

lemma rx_inv_quiet:
  assumes inv: "rx_inv E is rx" and live: "rx_phase rx \<noteq> Rx_Done"
    and i: "failure_text i = None" "delivered E (rx_role rx) i = None"
    and p: "p = Rx_Done \<longleftrightarrow> ends_thread i"
  shows "rx_inv E (is @ [i]) (rx\<lparr>rx_phase := p\<rparr>)"
  using inv live p by (simp add: rx_inv_def Let_def recent_failures_snoc i)

lemma rx_inv_fifo: "rx_inv E is (rx\<lparr>rx_fifo := b\<rparr>) = rx_inv E is rx"
  by (simp add: rx_inv_def)

lemma rx_inv_event:
  assumes i: "delivered E (rx_role rx) i \<noteq> None"
  shows "rx_inv E (is @ [i]) (rx\<lparr>rx_phase := Rx_Poll, rx_last_error := None, rx_same_count := 0\<rparr>)"
proof -
  have "\<not> ends_thread i" using i by (cases i) (auto simp: delivered_def)
  then show ?thesis using i by (simp add: rx_inv_def Let_def recent_failures_snoc)
qed

lemma delivered_simps [simp]:
  "delivered E role (Thread_Started pin realtime ok) = None" "delivered E role (Check_Shutdown b) = None" "delivered E role Connect_Ok = None" "delivered E role (Connect_Err t) = None"
  "delivered E role Open_Ok = None" "delivered E role (Open_Err t) = None" "delivered E role (Polled (Poll_Status t)) = None"
  "delivered E role (Polled Poll_End) = None" "delivered E role (Polled Poll_Timeout) = None"
  by (simp_all add: delivered_def)

lemma rx_inv_poll:
  assumes inv: "rx_inv E is rx" and await: "rx_phase rx = Rx_Await"
  shows "rx_inv E (is @ [Polled p]) (fst (rx_poll E p rx ring))"
proof (cases p)
  case (Poll_Item timed)
  show ?thesis
  proof (cases "decode E timed (rx_role rx)")
    case (Inl e)
    then show ?thesis
      using rx_inv_quiet [OF inv, of "Polled p" Rx_Poll] await by (simp add: Poll_Item rx_poll_def delivered_def)
  next
    case (Inr d)
    then show ?thesis
      using rx_inv_quiet [OF inv, of "Polled p" Rx_Poll] rx_inv_event [of E rx "Polled p" "is"] await
      by (cases d) (simp_all add: Poll_Item rx_poll_def delivered_def)
  qed
next
  case (Poll_Status t)
  then show ?thesis using rx_inv_failure [OF inv, of Rx_Loop "Polled p" t] await by (simp add: rx_poll_def)
next
  case Poll_End
  then show ?thesis using rx_inv_quiet [OF inv, of "Polled p" Rx_Loop] await by (simp add: rx_poll_def)
next
  case Poll_Timeout
  then show ?thesis using rx_inv_quiet [OF inv, of "Polled p" Rx_Poll] await by (simp add: rx_poll_def)
qed

lemma rx_inv_step:
  assumes inv: "rx_inv E is rx" and step: "rx_step E i (rx, ring) = Some (rx', ring')"
  shows "rx_inv E (is @ [i]) rx'"
proof (cases i)
  case (Thread_Started pin realtime ok)
  have "rx_inv E (is @ [i]) (rx\<lparr>rx_phase := if ok then Rx_Loop else Rx_Done\<rparr>)"
    using rx_inv_quiet [OF inv, of i "if ok then Rx_Loop else Rx_Done"] step by (auto simp: Thread_Started rx_thread_start_def split: if_splits)
  then show ?thesis using step by (auto simp: Thread_Started rx_thread_start_def rx_inv_fifo split: if_splits)
next
  case (Check_Shutdown b)
  then show ?thesis
    using step rx_inv_quiet [OF inv, of i "if b then Rx_Done else Rx_Connect"]
      rx_inv_quiet [OF inv, of i "if b then Rx_Done else Rx_Await"]
    by (auto split: rx_phase.splits)
next
  case Connect_Ok
  then show ?thesis using step rx_inv_quiet [OF inv, of i Rx_Open] by (auto split: if_splits)
next
  case (Connect_Err t)
  then show ?thesis using step rx_inv_failure [OF inv, of Rx_Loop i t] by (auto split: if_splits)
next
  case Open_Ok
  then show ?thesis using step rx_inv_quiet [OF inv, of i Rx_Poll] by (auto split: if_splits)
next
  case (Open_Err t)
  then show ?thesis using step rx_inv_failure [OF inv, of Rx_Loop i t] by (auto split: if_splits)
next
  case (Polled p)
  then show ?thesis using step rx_inv_poll [OF inv, of p ring] by (auto split: if_splits)
qed

lemma rx_step_role: "rx_step E i (rx, ring) = Some (rx', ring') \<Longrightarrow> rx_role rx' = rx_role rx"
  by (cases i) (auto simp: rx_thread_start_def rx_poll_def rx_give_up_or_def rx_phase_note split: rx_phase.splits if_splits poll.splits sum.splits option.splits)

lemma rx_inv_exec:
  assumes "rx_inv E js rx" and "rx_exec E is (rx, ring) = Some (rx', ring')"
  shows "rx_inv E (js @ is) rx' \<and> rx_role rx' = rx_role rx"
  using assms
proof (induction "is" arbitrary: js rx ring)
  case (Cons i "is")
  then obtain rx1 ring1 where st: "rx_step E i (rx, ring) = Some (rx1, ring1)"
    by (cases "rx_step E i (rx, ring)") auto
  have "rx_exec E is (rx1, ring1) = Some (rx', ring')" using Cons.prems(2) st by simp
  then show ?case
    using Cons.IH [OF rx_inv_step [OF Cons.prems(1) st]] rx_step_role [OF st] by simp
qed simp

text \<open>C24. A receiver abandons its subscription exactly when it must: after any history of answers, it has stopped
  if and only if its runtime could not be built, it read a set shutdown flag last, or the last five failures since the last decoded event
  carried one and the same text, whether they came from connecting, from opening the stream or from a status
  that ended it.\<close>

theorem receiver_gives_up_iff:
  assumes "rx_exec E is (rx_start core realtime role, ring) = Some (rx, ring')"
  shows "rx_phase rx = Rx_Done \<longleftrightarrow>
     (is \<noteq> [] \<and> ends_thread (last is))
   \<or> (\<exists>t ts. recent_failures E role is = ts @ replicate 5 t)"
proof -
  have "rx_inv E ([] @ is) rx \<and> rx_role rx = rx_role (rx_start core realtime role)" by (rule rx_inv_exec [OF rx_inv_start assms])
  then have "rx_inv E is rx" "rx_role rx = role" by (simp_all add: rx_start_def)
  then show ?thesis using final_run_ge [of 5 "recent_failures E role is"] by (simp add: rx_inv_def Let_def)
qed

definition plain_env :: "unit decode_env" where
  "plain_env = \<lparr>slot_status_try_from = (\<lambda>_. None), bs58_decode = (\<lambda>_. Inl []), encoded_len = (\<lambda>_. 0)\<rparr>"

definition refusing_server :: "nat \<Rightarrow> unit rx_input list" where
  "refusing_server n = Thread_Started None None True # concat (replicate n [Check_Shutdown False, Connect_Ok, Open_Err ''filter cap''])"

theorem receiver_gives_up_iff_witness:
  "(case rx_exec plain_env (refusing_server 5) (rx_start None False (Entries One), the (ring_with_capacity 1)) of
      Some (rx, _) \<Rightarrow> rx_phase rx = Rx_Done | None \<Rightarrow> False)
   \<and> (case rx_exec plain_env (refusing_server 4) (rx_start None False (Entries One), the (ring_with_capacity 1)) of
      Some (rx, _) \<Rightarrow> rx_phase rx \<noteq> Rx_Done | None \<Rightarrow> False)"
proof -
  let ?run = "\<lambda>n. rx_exec plain_env (refusing_server n) (rx_start None False (Entries One), the (ring_with_capacity 1))"
  have "?run 5 \<noteq> None" "?run 4 \<noteq> None" by code_simp+
  then obtain a b c d where r: "?run 5 = Some (a, b)" "?run 4 = Some (c, d)" by (cases "?run 5"; cases "?run 4") auto
  have "recent_failures plain_env (Entries One) (refusing_server 5) = [] @ replicate 5 ''filter cap''" by code_simp
  then have a: "rx_phase a = Rx_Done" unfolding receiver_gives_up_iff [OF r(1)] by blast
  have "length (recent_failures plain_env (Entries One) (refusing_server 4)) = 4" by code_simp
  then have four: "recent_failures plain_env (Entries One) (refusing_server 4) \<noteq> ts @ replicate 5 t" for t ts by auto
  have "last (refusing_server 4) = Open_Err ''filter cap''" by code_simp
  then have "rx_phase c \<noteq> Rx_Done" unfolding receiver_gives_up_iff [OF r(2)] using four by simp
  then show ?thesis using a r by simp
qed

text \<open>A server that accepts every subscription and ends every stream cleanly is reconnected to forever: a whole round
  leaves the receiver and the statistics as they were, so no failure is counted and no limit is ever reached.\<close>

definition clean_end_round :: "'m rx_input list" where
  "clean_end_round = [Check_Shutdown False, Connect_Ok, Open_Ok, Check_Shutdown False, Polled Poll_End]"

lemma clean_ends_never_stop:
  "rx_exec E (concat (replicate n clean_end_round)) ((rx_start core realtime role)\<lparr>rx_phase := Rx_Loop\<rparr>, ring) =
     Some ((rx_start core realtime role)\<lparr>rx_phase := Rx_Loop\<rparr>, ring)"
proof (induction n)
  case (Suc n)
  then show ?case by (simp add: clean_end_round_def rx_start_def rx_poll_def)
qed simp

end
