(* ===== verification/Stability.thy ===== *)
theory Stability
  imports Interfaces Digest
begin

text \<open>
  Stream stability per endpoint (\<open>src/stability.rs\<close>): the gap distribution with its maximum, stall events,
  the drift between processed and confirmed arrivals, disconnects and the time to the first message after a
  reconnect.
\<close>

section \<open>Distribution digest\<close>

text \<open>\<open>STALL_THRESHOLD_MS\<close>, the literal \<open>600.0\<close>.\<close>

definition STALL_THRESHOLD_MS :: rat where
  "STALL_THRESHOLD_MS = 600"

record 'd distribution_digest =
  dd_digest :: 'd
  dd_buffer :: "rat list"
  dd_max :: rat

definition dd_new :: "'d runtime \<Rightarrow> 'd distribution_digest" where
  "dd_new R = \<lparr>dd_digest = td_new R TDIGEST_COMPRESSION, dd_buffer = [], dd_max = 0\<rparr>"

definition dd_flush :: "'d runtime \<Rightarrow> 'd distribution_digest \<Rightarrow> 'd distribution_digest" where
  "dd_flush R d =
     (if dd_buffer d = [] then d
      else d\<lparr>dd_buffer := [], dd_digest := td_merge_unsorted R (dd_digest d) (dd_buffer d)\<rparr>)"

definition dd_push :: "'d runtime \<Rightarrow> rat \<Rightarrow> 'd distribution_digest \<Rightarrow> 'd distribution_digest" where
  "dd_push R v d =
     (let d1 = (if dd_max d < v then d\<lparr>dd_max := v\<rparr> else d);
          d2 = d1\<lparr>dd_buffer := dd_buffer d1 @ [v]\<rparr>
      in if TDIGEST_BUFFER_FLUSH \<le> length (dd_buffer d2) then dd_flush R d2 else d2)"

definition dd_quantile :: "'d runtime \<Rightarrow> 'd distribution_digest \<Rightarrow> rat \<Rightarrow> f64 \<times> 'd distribution_digest" where
  "dd_quantile R d q =
     (let d' = dd_flush R d
      in (if td_is_empty R (dd_digest d') then NaN else td_estimate_quantile R (dd_digest d') q, d'))"

interpretation dd_bd: buffered_digest "td_merge_unsorted R" dd_digest dd_buffer "dd_push R" "dd_flush R"
  for R :: "'d runtime"
  by unfold_locales (auto simp: dd_flush_def dd_push_def Let_def)

lemma dd_push_max: "dd_max (dd_push R v d) = max (dd_max d) v"
  using if_less_max [of "dd_max d" v] by (simp add: dd_push_def dd_flush_def Let_def split: if_splits)

section \<open>Tracker\<close>

record stall_event =
  se_wall_ms :: u64
  se_duration_ms :: rat

record disconnect_event =
  de_wall_ms :: u64
  de_status :: string
  de_events_received_before :: u64

record 'd stability_tracker =
  st_endpoint :: endpoint_role
  last_slot_event_ts :: "event_timestamp option"
  slot_gaps :: "'d distribution_digest"
  stall_events :: "stall_event list"
  processed_arrivals :: "(u64, event_timestamp) hmap"
  confirmed_arrivals :: "(u64, event_timestamp) hmap"
  drift_digest :: "'d distribution_digest"
  disconnects :: "disconnect_event list"
  reconnect_ttfm :: "'d distribution_digest"
  pending_reconnect_mono_ns :: "u64 option"

definition st_new :: "'d runtime \<Rightarrow> endpoint_role \<Rightarrow> 'd stability_tracker" where
  "st_new R e =
     \<lparr>st_endpoint = e, last_slot_event_ts = None, slot_gaps = dd_new R, stall_events = [], processed_arrivals = [],
      confirmed_arrivals = [], drift_digest = dd_new R, disconnects = [], reconnect_ttfm = dd_new R,
      pending_reconnect_mono_ns = None\<rparr>"

text \<open>\<open>(ns as f64).max(0.0) / 1_000_000.0\<close>.\<close>

definition nonneg_ms :: "int \<Rightarrow> rat" where
  "nonneg_ms n = f64_div (max (f64_of_int n) 0) 1000000"

definition st_resolve_ttfm :: "'d runtime \<Rightarrow> event_timestamp \<Rightarrow> 'd stability_tracker \<Rightarrow> 'd stability_tracker" where
  "st_resolve_ttfm R ts t =
     (case pending_reconnect_mono_ns t of
        None \<Rightarrow> t
      | Some at_ns \<Rightarrow>
          (let ttfm_ns = i64_clamp (mono_ns ts) - i64_clamp at_ns
           in t\<lparr>pending_reconnect_mono_ns := None,
                reconnect_ttfm := dd_push R (max (ns_to_ms ttfm_ns) 0) (reconnect_ttfm t)\<rparr>))"

definition st_record_gap :: "'d runtime \<Rightarrow> event_timestamp \<Rightarrow> 'd stability_tracker \<Rightarrow> 'd stability_tracker" where
  "st_record_gap R ts t =
     (let t1 = (case last_slot_event_ts t of
          None \<Rightarrow> t
        | Some prev \<Rightarrow>
            (let gap_ms = nonneg_ms (i64_clamp (mono_ns ts) - i64_clamp (mono_ns prev));
                 t' = t\<lparr>slot_gaps := dd_push R gap_ms (slot_gaps t)\<rparr>
             in if STALL_THRESHOLD_MS < gap_ms
                then t'\<lparr>stall_events := stall_events t' @ [\<lparr>se_wall_ms = wall_ms ts, se_duration_ms = gap_ms\<rparr>]\<rparr>
                else t'))
      in t1\<lparr>last_slot_event_ts := Some ts\<rparr>)"

definition st_record_drift :: "'d runtime \<Rightarrow> event_timestamp \<Rightarrow> event_timestamp \<Rightarrow> 'd stability_tracker \<Rightarrow> 'd stability_tracker" where
  "st_record_drift R processed confirmed t =
     t\<lparr>drift_digest := dd_push R (nonneg_ms (i64_clamp (mono_ns confirmed) - i64_clamp (mono_ns processed))) (drift_digest t)\<rparr>"

definition st_drift_processed :: "'d runtime \<Rightarrow> u64 \<Rightarrow> event_timestamp \<Rightarrow> 'd stability_tracker \<Rightarrow> 'd stability_tracker" where
  "st_drift_processed R slot ts t =
     (let t1 = t\<lparr>processed_arrivals := hm_or_insert slot ts (processed_arrivals t)\<rparr>
      in case hm_get (confirmed_arrivals t1) slot of
           None \<Rightarrow> t1
         | Some c \<Rightarrow>
             (let t2 = st_record_drift R ts c (t1\<lparr>confirmed_arrivals := hm_remove slot (confirmed_arrivals t1)\<rparr>)
              in t2\<lparr>processed_arrivals := hm_remove slot (processed_arrivals t2)\<rparr>))"

definition st_drift_confirmed :: "'d runtime \<Rightarrow> u64 \<Rightarrow> event_timestamp \<Rightarrow> 'd stability_tracker \<Rightarrow> 'd stability_tracker" where
  "st_drift_confirmed R slot ts t =
     (let t1 = t\<lparr>confirmed_arrivals := hm_or_insert slot ts (confirmed_arrivals t)\<rparr>
      in case hm_get (processed_arrivals t1) slot of
           None \<Rightarrow> t1
         | Some p \<Rightarrow>
             (let t2 = st_record_drift R p ts (t1\<lparr>processed_arrivals := hm_remove slot (processed_arrivals t1)\<rparr>)
              in t2\<lparr>confirmed_arrivals := hm_remove slot (confirmed_arrivals t2)\<rparr>))"

definition st_observe :: "'d runtime \<Rightarrow> event \<Rightarrow> 'd stability_tracker \<Rightarrow> 'd stability_tracker" where
  "st_observe R ev t =
     (if ev_endpoint ev \<noteq> st_endpoint t then t
      else let t1 = st_resolve_ttfm R (ev_ts ev) t
           in case ev_payload ev of
                Slot_Payload slot stage \<Rightarrow>
                  (let t2 = st_record_gap R (ev_ts ev) t1;
                       commitment = (case ev_subscription ev of Main _ c _ \<Rightarrow> Some c | Entries _ \<Rightarrow> None)
                   in case (stage, commitment) of
                        (Processed, Some Com_Processed) \<Rightarrow> st_drift_processed R slot (ev_ts ev) t2
                      | (Confirmed, Some Com_Confirmed) \<Rightarrow> st_drift_confirmed R slot (ev_ts ev) t2
                      | _ \<Rightarrow> t2)
              | _ \<Rightarrow> t1)"

definition st_record_disconnect :: "u64 \<Rightarrow> string \<Rightarrow> u64 \<Rightarrow> 'd stability_tracker \<Rightarrow> 'd stability_tracker" where
  "st_record_disconnect wall status before t =
     t\<lparr>disconnects := disconnects t @ [\<lparr>de_wall_ms = wall, de_status = status, de_events_received_before = before\<rparr>]\<rparr>"

definition st_record_reconnect :: "u64 \<Rightarrow> 'd stability_tracker \<Rightarrow> 'd stability_tracker" where
  "st_record_reconnect at_ns t = t\<lparr>pending_reconnect_mono_ns := Some at_ns\<rparr>"

record stability_summary =
  sy_gap_p50 :: f64
  sy_gap_p90 :: f64
  sy_gap_p99 :: f64
  sy_gap_max :: rat
  sy_stall_events :: "stall_event list"
  sy_drift_p50 :: f64
  sy_drift_p99 :: f64
  sy_disconnects :: "disconnect_event list"
  sy_ttfm_p50 :: f64
  sy_ttfm_p99 :: f64
  sy_ttfm_max :: rat

definition stability_summary_empty :: stability_summary where
  "stability_summary_empty =
     \<lparr>sy_gap_p50 = NaN, sy_gap_p90 = NaN, sy_gap_p99 = NaN, sy_gap_max = 0, sy_stall_events = [],
      sy_drift_p50 = NaN, sy_drift_p99 = NaN, sy_disconnects = [], sy_ttfm_p50 = NaN, sy_ttfm_p99 = NaN, sy_ttfm_max = 0\<rparr>"

definition st_summary :: "'d runtime \<Rightarrow> 'd stability_tracker \<Rightarrow> stability_summary \<times> 'd stability_tracker" where
  "st_summary R t =
     (let (g50, g1) = dd_quantile R (slot_gaps t) q50; (g90, g2) = dd_quantile R g1 q90; (g99, g3) = dd_quantile R g2 q99;
          (d50, d1) = dd_quantile R (drift_digest t) q50; (d99, d2) = dd_quantile R d1 q99;
          (r50, r1) = dd_quantile R (reconnect_ttfm t) q50; (r99, r2) = dd_quantile R r1 q99
      in (\<lparr>sy_gap_p50 = g50, sy_gap_p90 = g90, sy_gap_p99 = g99, sy_gap_max = dd_max g3, sy_stall_events = stall_events t,
           sy_drift_p50 = d50, sy_drift_p99 = d99, sy_disconnects = disconnects t,
           sy_ttfm_p50 = r50, sy_ttfm_p99 = r99, sy_ttfm_max = dd_max r2\<rparr>,
          t\<lparr>slot_gaps := g3, drift_digest := d2, reconnect_ttfm := r2\<rparr>))"

lemma st_resolve_ttfm_frame:
  "st_endpoint (st_resolve_ttfm R ts t) = st_endpoint t" "last_slot_event_ts (st_resolve_ttfm R ts t) = last_slot_event_ts t"
  "slot_gaps (st_resolve_ttfm R ts t) = slot_gaps t" "stall_events (st_resolve_ttfm R ts t) = stall_events t"
  "drift_digest (st_resolve_ttfm R ts t) = drift_digest t" "disconnects (st_resolve_ttfm R ts t) = disconnects t"
  "processed_arrivals (st_resolve_ttfm R ts t) = processed_arrivals t"
  "confirmed_arrivals (st_resolve_ttfm R ts t) = confirmed_arrivals t"
  by (simp_all add: st_resolve_ttfm_def Let_def split: option.split)

lemma st_drift_frame:
  "st_endpoint (st_drift_processed R s ts t) = st_endpoint t" "last_slot_event_ts (st_drift_processed R s ts t) = last_slot_event_ts t"
  "slot_gaps (st_drift_processed R s ts t) = slot_gaps t" "stall_events (st_drift_processed R s ts t) = stall_events t"
  "st_endpoint (st_drift_confirmed R s ts t) = st_endpoint t" "last_slot_event_ts (st_drift_confirmed R s ts t) = last_slot_event_ts t"
  "slot_gaps (st_drift_confirmed R s ts t) = slot_gaps t" "stall_events (st_drift_confirmed R s ts t) = stall_events t"
  by (simp_all add: st_drift_processed_def st_drift_confirmed_def st_record_drift_def Let_def split: option.split)

lemma st_record_gap_frame:
  "st_endpoint (st_record_gap R ts t) = st_endpoint t" "last_slot_event_ts (st_record_gap R ts t) = Some ts"
  "drift_digest (st_record_gap R ts t) = drift_digest t" "processed_arrivals (st_record_gap R ts t) = processed_arrivals t"
  "confirmed_arrivals (st_record_gap R ts t) = confirmed_arrivals t" "disconnects (st_record_gap R ts t) = disconnects t"
  by (simp_all add: st_record_gap_def Let_def split: option.split)

text \<open>What an own slot event does to the gap statistics, whatever its stage and commitment.\<close>

lemma st_observe_gap:
  assumes "ev_endpoint ev = st_endpoint t" and "ev_payload ev = Slot_Payload slot stage"
  shows "slot_gaps (st_observe R ev t) = slot_gaps (st_record_gap R (ev_ts ev) (st_resolve_ttfm R (ev_ts ev) t))
    \<and> stall_events (st_observe R ev t) = stall_events (st_record_gap R (ev_ts ev) (st_resolve_ttfm R (ev_ts ev) t))
    \<and> last_slot_event_ts (st_observe R ev t) = Some (ev_ts ev) \<and> st_endpoint (st_observe R ev t) = st_endpoint t"
  using assms by (simp add: st_observe_def Let_def st_drift_frame st_record_gap_frame st_resolve_ttfm_frame
      split: slot_stage.split subscription_role.split commitment.split)

lemma st_observe_quiet:
  assumes "ev_endpoint ev \<noteq> st_endpoint t \<or> (\<forall>slot stage. ev_payload ev \<noteq> Slot_Payload slot stage)"
  shows "slot_gaps (st_observe R ev t) = slot_gaps t \<and> stall_events (st_observe R ev t) = stall_events t
    \<and> last_slot_event_ts (st_observe R ev t) = last_slot_event_ts t \<and> st_endpoint (st_observe R ev t) = st_endpoint t"
  using assms by (auto simp: st_observe_def Let_def st_resolve_ttfm_frame split: event_payload.split)

lemma st_observe_endpoint: "st_endpoint (st_observe R ev t) = st_endpoint t"
proof (cases "ev_endpoint ev \<noteq> st_endpoint t \<or> (\<forall>slot stage. ev_payload ev \<noteq> Slot_Payload slot stage)")
  case False
  then obtain slot stage where "ev_endpoint ev = st_endpoint t" "ev_payload ev = Slot_Payload slot stage" by blast
  then show ?thesis using st_observe_gap by blast
qed (use st_observe_quiet in blast)

interpretation st_track: endpoint_tracker st_endpoint "st_observe R"
  for R :: "'d runtime"
proof (unfold_locales, goal_cases)
  case (1 ev t)
  show ?case by (rule st_observe_endpoint)
next
  case (2 ev t)
  then show ?case by (simp add: st_observe_def)
qed

section \<open>Gaps and stalls\<close>

lemma nonneg_ms_mono: "m \<le> n \<Longrightarrow> nonneg_ms m \<le> nonneg_ms n"
  unfolding nonneg_ms_def f64_div_def
  by (intro f64_round_mono divide_right_mono max.mono f64_of_int_mono) simp_all

lemma nonneg_ms_pos: "0 \<le> n \<Longrightarrow> nonneg_ms n = ns_to_ms n"
  using f64_of_int_mono [of 0 n] by (simp add: nonneg_ms_def ns_to_ms_def max_def f64_of_int_def)

text \<open>The stall test compares rounded doubles; it decides the comparison of the nanosecond counts exactly.\<close>

lemma stall_threshold_exact: "STALL_THRESHOLD_MS < nonneg_ms n \<longleftrightarrow> 600000000 < n"
proof -
  have "nonneg_ms 600000000 = 600" "STALL_THRESHOLD_MS < nonneg_ms 600000001" by code_simp+
  then show ?thesis
    using nonneg_ms_mono [of n 600000000] nonneg_ms_mono [of 600000001 n]
    unfolding STALL_THRESHOLD_MS_def by (cases "n \<le> 600000000") simp_all
qed

definition own_slot_ts :: "endpoint_role \<Rightarrow> event \<Rightarrow> event_timestamp list" where
  "own_slot_ts e ev =
     (if ev_endpoint ev = e then (case ev_payload ev of Slot_Payload _ _ \<Rightarrow> [ev_ts ev] | _ \<Rightarrow> []) else [])"

definition own_slot_times :: "endpoint_role \<Rightarrow> event list \<Rightarrow> event_timestamp list" where
  "own_slot_times e evs = concat (map (own_slot_ts e) evs)"

definition gap_ns :: "event_timestamp \<Rightarrow> event_timestamp \<Rightarrow> int" where
  "gap_ns a b = i64_clamp (mono_ns b) - i64_clamp (mono_ns a)"

fun consecutive :: "'a list \<Rightarrow> ('a \<times> 'a) list" where
  "consecutive (x # y # zs) = (x, y) # consecutive (y # zs)"
| "consecutive _ = []"

lemma consecutive_snoc: "consecutive (xs @ [y, z]) = consecutive (xs @ [y]) @ [(y, z)]"
  by (induction xs rule: consecutive.induct) simp_all

definition gaps_of :: "event_timestamp list \<Rightarrow> rat list" where
  "gaps_of ts = map (\<lambda>(a, b). nonneg_ms (gap_ns a b)) (consecutive ts)"

definition stalls_of :: "event_timestamp list \<Rightarrow> stall_event list" where
  "stalls_of ts = map (\<lambda>(a, b). \<lparr>se_wall_ms = wall_ms b, se_duration_ms = ns_to_ms (gap_ns a b)\<rparr>)
     (filter (\<lambda>(a, b). 600000000 < gap_ns a b) (consecutive ts))"

definition gap_state :: "'d runtime \<Rightarrow> event_timestamp list \<Rightarrow> 'd stability_tracker \<Rightarrow> bool" where
  "gap_state R ts t \<longleftrightarrow> last_slot_event_ts t = (if ts = [] then None else Some (last ts))
     \<and> slot_gaps t = fold (dd_push R) (gaps_of ts) (dd_new R) \<and> stall_events t = stalls_of ts"

lemma gap_state_step:
  assumes "gap_state R ts t"
  shows "gap_state R (ts @ [b]) (st_record_gap R b t)"
proof (cases ts rule: rev_cases)
  case Nil
  then show ?thesis using assms by (simp add: gap_state_def st_record_gap_def Let_def gaps_of_def stalls_of_def)
next
  case (snoc ts' a)
  have "600000000 < gap_ns a b \<Longrightarrow> nonneg_ms (gap_ns a b) = ns_to_ms (gap_ns a b)" by (simp add: nonneg_ms_pos)
  then show ?thesis
    using assms stall_threshold_exact [of "gap_ns a b"]
    by (simp add: gap_state_def st_record_gap_def Let_def gaps_of_def stalls_of_def snoc consecutive_snoc gap_ns_def)
qed

lemma gap_state_cong:
  "slot_gaps t' = slot_gaps t \<Longrightarrow> stall_events t' = stall_events t \<Longrightarrow> last_slot_event_ts t' = last_slot_event_ts t \<Longrightarrow>
   gap_state R ts t' = gap_state R ts t"
  by (simp add: gap_state_def)

lemma gap_state_fold:
  "gap_state R (own_slot_times e evs) (fold (st_observe R) evs (st_new R e))"
proof (induction evs rule: rev_induct)
  case Nil
  then show ?case by (simp add: gap_state_def own_slot_times_def st_new_def gaps_of_def stalls_of_def)
next
  case (snoc ev evs)
  let ?t = "fold (st_observe R) evs (st_new R e)"
  have e: "st_endpoint ?t = e" by (simp add: st_track.fold_owner st_new_def)
  show ?case
  proof (cases "ev_endpoint ev \<noteq> st_endpoint ?t \<or> (\<forall>slot stage. ev_payload ev \<noteq> Slot_Payload slot stage)")
    case True
    then have "own_slot_ts e ev = []" by (auto simp: own_slot_ts_def e split: event_payload.split)
    then show ?thesis
      using st_observe_quiet [OF True, of R] snoc gap_state_cong [of "st_observe R ev ?t" ?t]
      by (simp add: own_slot_times_def)
  next
    case False
    then obtain slot stage where o': "ev_endpoint ev = st_endpoint ?t" and p: "ev_payload ev = Slot_Payload slot stage" by blast
    have "own_slot_ts e ev = [ev_ts ev]" using o' p by (simp add: own_slot_ts_def e)
    moreover have "gap_state R (own_slot_times e evs @ [ev_ts ev])
        (st_record_gap R (ev_ts ev) (st_resolve_ttfm R (ev_ts ev) ?t))"
      using snoc by (intro gap_state_step) (simp add: gap_state_def st_resolve_ttfm_frame)
    ultimately show ?thesis
      using st_observe_gap [OF o' p, of R]
      by (simp add: own_slot_times_def gap_state_def st_record_gap_frame)
  qed
qed

lemma dd_max_fold: "dd_max (fold (dd_push R) vs d) = fold max vs (dd_max d)"
  by (induction vs arbitrary: d) (simp_all add: dd_push_max max.commute)

text \<open>C22. Stall detection is exact. After any merged event stream, the stall list holds, in order, one entry for
  each pair of consecutive slot messages of this endpoint that are more than 600,000,000 ns apart, with the
  wall clock of the later message and the gap in milliseconds, and nothing else (the comparison of rounded
  doubles loses no borderline case); the gap digest received every consecutive gap, clamped at zero, in
  order, and the reported maximum is the largest of them or zero.\<close>

theorem stability_gaps_and_stalls:
  fixes R :: "'d runtime"
  shows "let t = fold (st_observe R) evs (st_new R e); ts = own_slot_times e evs
         in stall_events t = stalls_of ts
          \<and> slot_gaps t = fold (dd_push R) (gaps_of ts) (dd_new R)
          \<and> sy_gap_max (fst (st_summary R t)) = fold max (gaps_of ts) 0"
proof -
  have "dd_max (snd (dd_quantile R d q)) = dd_max d" for q and d :: "'d distribution_digest"
    by (simp add: dd_quantile_def dd_flush_def Let_def)
  then have "sy_gap_max (fst (st_summary R t)) = dd_max (slot_gaps t)" for t :: "'d stability_tracker"
    by (simp add: st_summary_def Let_def case_prod_unfold)
  moreover have "dd_max (dd_new R) = 0" by (simp add: dd_new_def)
  ultimately show ?thesis
    using gap_state_fold [of R e evs] by (simp add: gap_state_def Let_def dd_max_fold)
qed

section \<open>Drift\<close>

definition confirmed_slot_event :: "event \<Rightarrow> bool" where
  "confirmed_slot_event ev = (case (ev_payload ev, ev_subscription ev) of
     (Slot_Payload _ Confirmed, Main _ Com_Confirmed _) \<Rightarrow> True | _ \<Rightarrow> False)"

definition processed_slot_event :: "event \<Rightarrow> bool" where
  "processed_slot_event ev = (case (ev_payload ev, ev_subscription ev) of
     (Slot_Payload _ Processed, Main _ Com_Processed _) \<Rightarrow> True | _ \<Rightarrow> False)"

lemma st_observe_no_confirmed:
  assumes "\<not> confirmed_slot_event ev" and "confirmed_arrivals t = []"
  shows "confirmed_arrivals (st_observe R ev t) = [] \<and> drift_digest (st_observe R ev t) = drift_digest t"
  using assms by (auto simp: st_observe_def confirmed_slot_event_def Let_def st_resolve_ttfm_frame st_record_gap_frame
      st_drift_processed_def split: event_payload.split slot_stage.splits subscription_role.splits commitment.splits)

lemma hm_or_insert_fresh: "hm_or_insert k v [] = [(k, v)]"
  by (simp add: hm_or_insert_def hm_insert_def)

lemma st_observe_no_processed:
  assumes "\<not> processed_slot_event ev" and "processed_arrivals t = []"
  shows "processed_arrivals (st_observe R ev t) = [] \<and> drift_digest (st_observe R ev t) = drift_digest t"
  using assms by (auto simp: st_observe_def processed_slot_event_def Let_def st_resolve_ttfm_frame st_record_gap_frame
      st_drift_confirmed_def split: event_payload.split slot_stage.splits subscription_role.splits commitment.splits)

lemma no_confirmed_no_drift:
  assumes "\<forall>ev \<in> set evs. \<not> confirmed_slot_event ev"
  shows "drift_digest (fold (st_observe R) evs (st_new R e)) = dd_new R"
proof -
  have "confirmed_arrivals t = [] \<Longrightarrow> drift_digest (fold (st_observe R) evs t) = drift_digest t" for t
    using assms by (induction evs arbitrary: t) (simp_all add: st_observe_no_confirmed)
  then show ?thesis by (simp add: st_new_def)
qed

lemma no_processed_no_drift:
  assumes "\<forall>ev \<in> set evs. \<not> processed_slot_event ev"
  shows "drift_digest (fold (st_observe R) evs (st_new R e)) = dd_new R"
proof -
  have "processed_arrivals t = [] \<Longrightarrow> drift_digest (fold (st_observe R) evs t) = drift_digest t" for t
    using assms by (induction evs arbitrary: t) (simp_all add: st_observe_no_processed)
  then show ?thesis by (simp add: st_new_def)
qed

text \<open>Drift needs both commitment levels: if a tracker's stream lacks either the confirmed-stage slot events
  of a confirmed subscription or the processed-stage slot events of a processed one, no drift value is ever
  recorded, so the drift quantiles stay empty.\<close>

theorem drift_needs_both_commitments:
  assumes "(\<forall>ev \<in> set evs. \<not> confirmed_slot_event ev) \<or> (\<forall>ev \<in> set evs. \<not> processed_slot_event ev)"
  shows "drift_digest (fold (st_observe R) evs (st_new R e)) = dd_new R"
  using assms no_confirmed_no_drift no_processed_no_drift by blast

text \<open>A processed subscription only.\<close>

definition sample_slots :: "event list" where
  "sample_slots = map (\<lambda>(slot, stage, ms). \<lparr>ev_ts = \<lparr>mono_ns = ms * 1000000, wall_ms = ms\<rparr>,
      ev_subscription = Main One Com_Processed Slots, ev_payload = Slot_Payload slot stage\<rparr>)
     [(100, Processed, 0), (101, Processed, 400), (100, Confirmed, 1200)]"

theorem drift_needs_both_commitments_witness:
  "drift_digest (fold (st_observe list_runtime) sample_slots (st_new list_runtime One)) = dd_new list_runtime
   \<and> map se_duration_ms (stall_events (fold (st_observe list_runtime) sample_slots (st_new list_runtime One))) = [800]"
proof -
  have "\<forall>ev \<in> set sample_slots. \<not> confirmed_slot_event ev"
    by (simp add: sample_slots_def confirmed_slot_event_def)
  moreover have "map se_duration_ms (stall_events (fold (st_observe list_runtime) sample_slots (st_new list_runtime One))) = [800]"
    by code_simp
  ultimately show ?thesis using drift_needs_both_commitments [of sample_slots list_runtime One] by blast
qed

text \<open>The arrivals waiting for the other commitment level are a pairing pool.\<close>

definition drift_pool :: "bool \<Rightarrow> 'd stability_tracker \<Rightarrow> (u64, event_timestamp) hmap" where
  "drift_pool b t = (if b then processed_arrivals t else confirmed_arrivals t)"

definition drift_step :: "'d runtime \<Rightarrow> bool \<Rightarrow> u64 \<Rightarrow> event_timestamp \<Rightarrow> 'd stability_tracker \<Rightarrow> 'd stability_tracker" where
  "drift_step R b slot ts t = (if b then st_drift_processed R slot ts t else st_drift_confirmed R slot ts t)"

lemma drift_step_pools:
  "drift_pool b (drift_step R b k ts t) =
     (if k \<in> hm_keys (drift_pool (\<not> b) t) then hm_remove k (hm_or_insert k ts (drift_pool b t)) else hm_or_insert k ts (drift_pool b t))"
  "drift_pool (\<not> b) (drift_step R b k ts t) =
     (if k \<in> hm_keys (drift_pool (\<not> b) t) then hm_remove k (drift_pool (\<not> b) t) else drift_pool (\<not> b) t)"
proof -
  have keys: "k \<in> hm_keys (drift_pool (\<not> b) t) \<longleftrightarrow> hm_get (drift_pool (\<not> b) t) k \<noteq> None"
    by (simp add: hm_get_None_iff)
  show "drift_pool b (drift_step R b k ts t) =
     (if k \<in> hm_keys (drift_pool (\<not> b) t) then hm_remove k (hm_or_insert k ts (drift_pool b t)) else hm_or_insert k ts (drift_pool b t))"
    "drift_pool (\<not> b) (drift_step R b k ts t) =
     (if k \<in> hm_keys (drift_pool (\<not> b) t) then hm_remove k (drift_pool (\<not> b) t) else drift_pool (\<not> b) t)"
    unfolding keys by (simp_all add: drift_pool_def drift_step_def st_drift_processed_def st_drift_confirmed_def
        st_record_drift_def Let_def split: option.split)
qed

lemma hm_keys_or_insert: "hm_keys (hm_or_insert k v m) = insert k (hm_keys m)"
  using hm_get_in_keys [of m k] by (auto simp: hm_or_insert_def hm_keys_insert split: option.split)

interpretation drift: pairing_pool "\<lambda>b t. hm_keys (drift_pool b t)" "\<lambda>_. True" "drift_step R"
  for R :: "'d runtime"
proof (unfold_locales, goal_cases)
  case (2 t b k x)
  then show ?case by (simp add: drift_step_pools hm_keys_remove hm_keys_or_insert) blast
next
  case (3 t b k x)
  then show ?case by (simp add: drift_step_pools hm_keys_remove)
next
  case (4 t k b x)
  then show ?case by (simp add: drift_step_pools hm_keys_remove)
qed

definition drift_obs :: "event \<Rightarrow> (bool \<times> u64 \<times> event_timestamp) list" where
  "drift_obs ev = (case (ev_payload ev, ev_subscription ev) of
     (Slot_Payload slot Processed, Main _ Com_Processed _) \<Rightarrow> [(True, slot, ev_ts ev)]
   | (Slot_Payload slot Confirmed, Main _ Com_Confirmed _) \<Rightarrow> [(False, slot, ev_ts ev)]
   | _ \<Rightarrow> [])"

lemma drift_pool_resolve:
  "drift_pool b (st_resolve_ttfm R ts t) = drift_pool b t" "drift_pool b (st_record_gap R ts t) = drift_pool b t"
  by (simp_all add: drift_pool_def st_resolve_ttfm_frame st_record_gap_frame)

lemma drift_pool_step_cong:
  assumes "\<And>c. drift_pool c t = drift_pool c t'"
  shows "drift_pool c (drift_step R b k ts t) = drift_pool c (drift_step R b k ts t')"
  using assms by (cases "c = b") (auto simp: drift_step_pools dest: sym)

lemma st_observe_drift:
  assumes "ev_endpoint ev = st_endpoint t"
  shows "drift_pool c (st_observe R ev t) = drift_pool c (drift.run R t (drift_obs ev))"
proof -
  let ?t = "st_record_gap R (ev_ts ev) (st_resolve_ttfm R (ev_ts ev) t)"
  have same: "drift_pool c (drift_step R b k (ev_ts ev) ?t) = drift_pool c (drift_step R b k (ev_ts ev) t)" for b k
    by (rule drift_pool_step_cong) (simp add: drift_pool_resolve)
  show ?thesis
    using assms same [of True] same [of False]
    by (auto simp: st_observe_def drift_obs_def Let_def drift_pool_resolve drift_step_def
        split: event_payload.split slot_stage.split subscription_role.split commitment.split)
qed

text \<open>A slot waits for at most one commitment level: after any merged event stream, no slot is both among the
  processed arrivals waiting for their confirmation and among the confirmed arrivals waiting for the processed
  one, in whatever order and however often the two levels reported it.\<close>

theorem drift_pools_disjoint:
  fixes R :: "'d runtime"
  shows "let t = fold (st_observe R) evs (st_new R e)
         in hm_keys (processed_arrivals t) \<inter> hm_keys (confirmed_arrivals t) = {}"
proof -
  have "hm_keys (drift_pool True (st_observe R ev t)) \<inter> hm_keys (drift_pool False (st_observe R ev t)) = {}"
    if "hm_keys (drift_pool True t) \<inter> hm_keys (drift_pool False t) = {}" for ev t
  proof (cases "ev_endpoint ev = st_endpoint t")
    case True
    show ?thesis unfolding st_observe_drift [OF True] using drift.run_disjoint [OF TrueI that] by blast
  qed (simp add: st_track.observe_foreign that)
  then have "hm_keys (drift_pool True t) \<inter> hm_keys (drift_pool False t) = {} \<Longrightarrow>
      hm_keys (drift_pool True (fold (st_observe R) evs t)) \<inter> hm_keys (drift_pool False (fold (st_observe R) evs t)) = {}" for t
    by (induction evs arbitrary: t) simp_all
  from this [of "st_new R e"] show ?thesis by (simp add: drift_pool_def st_new_def Let_def)
qed

end
