(* ===== verification/Raw.thy ===== *)
theory Raw
  imports Event_Types
begin

text \<open>
  The optional JSONL event log (\<open>src/raw.rs\<close>). JSON values are trees whose objects are hash maps;
  \<open>serde_json::to_string\<close>, \<open>bs58::encode\<close> and the outcome of every file operation come from outside: the first
  two are fields of \<open>raw_env\<close>, the last an argument (\<open>None\<close> for success). The file is the list of lines it
  accepted.
\<close>

datatype json = J_Null | J_Num u64 | J_Str string | J_Object "(string, json) hmap"

record raw_env =
  re_to_string :: "json \<Rightarrow> string option"
  re_bs58_encode :: "u8 list \<Rightarrow> string"

section \<open>Events as JSON\<close>

definition commitment_label :: "commitment \<Rightarrow> string" where
  "commitment_label c = (case c of Com_Processed \<Rightarrow> ''processed'' | Com_Confirmed \<Rightarrow> ''confirmed'' | Com_Finalized \<Rightarrow> ''finalized'')"

definition subscription_label :: "subscription_role \<Rightarrow> string" where
  "subscription_label role = (case role of Main _ commitment _ \<Rightarrow> ''main:'' @ commitment_label commitment | Entries _ \<Rightarrow> ''entries'')"

definition json_merge :: "json \<Rightarrow> json \<Rightarrow> json" where
  "json_merge a b =
     (case (a, b) of
        (J_Object a_map, J_Object b_map) \<Rightarrow> J_Object (foldl (\<lambda>m (k, v). hm_insert k v m) a_map b_map)
      | _ \<Rightarrow> J_Null)"

definition common_json :: "event \<Rightarrow> json" where
  "common_json ev = J_Object
     [(''mono_ns'', J_Num (mono_ns (ev_ts ev))), (''wall_ms'', J_Num (wall_ms (ev_ts ev))),
      (''endpoint'', J_Str (endpoint_label (ev_endpoint ev))), (''subscription'', J_Str (subscription_label (ev_subscription ev)))]"

fun payload_json :: "raw_env \<Rightarrow> event_payload \<Rightarrow> json" where
  "payload_json E (Slot_Payload slot stage) = J_Object
     [(''kind'', J_Str ''slot''), (''slot'', J_Num slot), (''stage'', J_Str (slot_stage_label stage))]"
| "payload_json E (Account_Payload slot pubkey owner wv sig lamports) = J_Object
     [(''kind'', J_Str ''account''), (''slot'', J_Num slot), (''pubkey'', J_Str (re_bs58_encode E pubkey)),
      (''owner'', J_Str (re_bs58_encode E owner)), (''write_version'', J_Num wv),
      (''txn_signature'', case sig of None \<Rightarrow> J_Null | Some s \<Rightarrow> J_Str (re_bs58_encode E s)), (''lamports'', J_Num lamports)]"
| "payload_json E (Transaction_Payload slot sig index) = J_Object
     [(''kind'', J_Str ''transaction''), (''slot'', J_Num slot), (''signature'', J_Str (re_bs58_encode E sig)), (''index'', J_Num index)]"
| "payload_json E (Block_Payload slot hash tx entries nbytes) = J_Object
     [(''kind'', J_Str ''block''), (''slot'', J_Num slot), (''blockhash'', J_Str (re_bs58_encode E hash)),
      (''tx_count'', J_Num tx), (''entries_count'', J_Num entries), (''block_size_bytes'', J_Num nbytes)]"
| "payload_json E (Entry_Payload slot index executed starting) = J_Object
     [(''kind'', J_Str ''entry''), (''slot'', J_Num slot), (''index'', J_Num index),
      (''executed_transaction_count'', J_Num executed), (''starting_transaction_index'', J_Num starting)]"

definition event_to_json :: "raw_env \<Rightarrow> event \<Rightarrow> json" where
  "event_to_json E ev = json_merge (common_json ev) (payload_json E (ev_payload ev))"

section \<open>The writer\<close>

record raw_writer =
  rw_path :: string
  rw_lines :: "string list"
  rw_bytes_written :: u64
  rw_poisoned :: bool
  rw_error_text :: "string option"

definition rw_create :: "string option \<Rightarrow> string \<Rightarrow> string + raw_writer" where
  "rw_create io path =
     (case io of
        Some source \<Rightarrow> Inl (''failed to open --raw-records path '' @ path @ '': '' @ source)
      | None \<Rightarrow> Inr \<lparr>rw_path = path, rw_lines = [], rw_bytes_written = 0, rw_poisoned = False, rw_error_text = None\<rparr>)"

definition rw_write :: "raw_env \<Rightarrow> string option \<Rightarrow> event \<Rightarrow> raw_writer \<Rightarrow> raw_writer" where
  "rw_write E io ev w =
     (if rw_poisoned w then w
      else case re_to_string E (event_to_json E ev) of
        None \<Rightarrow> w
      | Some serialized \<Rightarrow>
          (case io of
             Some e \<Rightarrow> w\<lparr>rw_poisoned := True, rw_error_text := Some (''write to '' @ rw_path w @ '' failed: '' @ e)\<rparr>
           | None \<Rightarrow> w\<lparr>rw_lines := rw_lines w @ [serialized],
                       rw_bytes_written := rw_bytes_written w + u64_from_or 0 (length serialized + 1)\<rparr>))"

definition rw_flush :: "string option \<Rightarrow> raw_writer \<Rightarrow> raw_writer" where
  "rw_flush io w =
     (if rw_poisoned w then w
      else case io of
        Some e \<Rightarrow> w\<lparr>rw_poisoned := True, rw_error_text := Some (''flush of '' @ rw_path w @ '' failed: '' @ e)\<rparr>
      | None \<Rightarrow> w)"

definition rw_take_warning :: "raw_writer \<Rightarrow> string option \<times> raw_writer" where
  "rw_take_warning w = (rw_error_text w, w\<lparr>rw_error_text := None\<rparr>)"

section \<open>What a record keeps\<close>

lemma commitment_label_eq: "commitment_label c = commitment_label d \<longleftrightarrow> c = d"
  by (cases c; cases d) (simp_all add: commitment_label_def)

lemma json_merge_literals:
  "event_to_json E ev = J_Object
     ([(''mono_ns'', J_Num (mono_ns (ev_ts ev))), (''wall_ms'', J_Num (wall_ms (ev_ts ev))),
       (''endpoint'', J_Str (endpoint_label (ev_endpoint ev))), (''subscription'', J_Str (subscription_label (ev_subscription ev)))]
      @ (case payload_json E (ev_payload ev) of J_Object m \<Rightarrow> m | _ \<Rightarrow> []))"
  by (cases "ev_payload ev") (simp_all add: event_to_json_def json_merge_def common_json_def hm_insert_def)

lemma payload_json_inj:
  assumes "inj (re_bs58_encode E)" and "payload_json E p = payload_json E q"
  shows "p = q"
  using assms(2) injD [OF labels_injective(4)]
  by (cases p; cases q) (auto simp: inj_eq [OF assms(1)] split: option.splits)

lemma payload_json_object: "\<exists>m. payload_json E p = J_Object m"
  by (cases p) simp_all

text \<open>C31. A raw record loses nothing the run measures: with an injective base-58 encoding, two events with the
  same JSON agree on both clock readings, on the endpoint, on the payload with every field, and on the
  subscription's label, that is on being an entries subscription and otherwise on the commitment. Only the
  stream the main subscription was opened for is not recorded.\<close>

theorem raw_record_faithful:
  assumes "inj (re_bs58_encode E)" and "event_to_json E ev = event_to_json E ev'"
  shows "ev_ts ev = ev_ts ev' \<and> ev_endpoint ev = ev_endpoint ev' \<and> ev_payload ev = ev_payload ev'
    \<and> (case (ev_subscription ev, ev_subscription ev') of
         (Main _ c _, Main _ c' _) \<Rightarrow> c = c' | (Entries _, Entries _) \<Rightarrow> True | _ \<Rightarrow> False)"
proof -
  obtain m m' where m: "payload_json E (ev_payload ev) = J_Object m" "payload_json E (ev_payload ev') = J_Object m'"
    using payload_json_object by metis
  have eq: "mono_ns (ev_ts ev) = mono_ns (ev_ts ev')" "wall_ms (ev_ts ev) = wall_ms (ev_ts ev')"
    "endpoint_label (ev_endpoint ev) = endpoint_label (ev_endpoint ev')"
    "subscription_label (ev_subscription ev) = subscription_label (ev_subscription ev')" "m = m'"
    using assms(2) unfolding json_merge_literals m by simp_all
  have "ev_payload ev = ev_payload ev'" using payload_json_inj [OF assms(1)] m eq(5) by metis
  moreover have "ev_endpoint ev = ev_endpoint ev'" using injD [OF labels_injective(2) eq(3)] .
  moreover have "case (ev_subscription ev, ev_subscription ev') of
      (Main _ c _, Main _ c' _) \<Rightarrow> c = c' | (Entries _, Entries _) \<Rightarrow> True | _ \<Rightarrow> False"
    using eq(4) by (auto simp: subscription_label_def commitment_label_eq split: subscription_role.splits)
  ultimately show ?thesis using eq(1,2) by simp
qed

definition toy_raw_env :: raw_env where
  "toy_raw_env = \<lparr>re_to_string = (\<lambda>_. Some ''x''), re_bs58_encode = map (\<lambda>b. char_of (unat b))\<rparr>"

lemma inj_toy_bs58: "inj (re_bs58_encode toy_raw_env)"
proof -
  have "inj (\<lambda>b :: u8. char_of (unat b) :: char)"
  proof (rule injI)
    fix a b :: u8
    assume "(char_of (unat a) :: char) = char_of (unat b)"
    then have "(of_char (char_of (unat a) :: char) :: nat) = of_char (char_of (unat b) :: char)" by simp
    moreover have "unat a < 256" "unat b < 256" using unsigned_less [of a, where 'a = nat] unsigned_less [of b, where 'a = nat] by simp_all
    ultimately have "unat a = unat b" by (simp add: of_char_of)
    then show "a = b" by (simp only: word_unat_eq_iff)
  qed
  then show ?thesis by (simp add: toy_raw_env_def)
qed

definition two_stream_event :: "main_stream \<Rightarrow> event" where
  "two_stream_event st = \<lparr>ev_ts = \<lparr>mono_ns = 5, wall_ms = 7\<rparr>, ev_subscription = Main One Com_Processed st,
     ev_payload = Slot_Payload 9 Processed\<rparr>"

theorem raw_record_faithful_witness:
  "event_to_json toy_raw_env (two_stream_event Slots) = event_to_json toy_raw_env (two_stream_event Accounts)
   \<and> ev_payload (two_stream_event Slots) = ev_payload (two_stream_event Accounts)"
proof -
  have "event_to_json toy_raw_env (two_stream_event Slots) = event_to_json toy_raw_env (two_stream_event Accounts)"
    by (simp add: event_to_json_def common_json_def two_stream_event_def subscription_label_def)
  then show ?thesis using raw_record_faithful [OF inj_toy_bs58] by blast
qed

section \<open>The error latch\<close>

text \<open>Writes in order, each with its outcome.\<close>

definition rw_run :: "raw_env \<Rightarrow> (event \<times> string option) list \<Rightarrow> raw_writer \<Rightarrow> raw_writer" where
  "rw_run E ws w = fold (\<lambda>(ev, io). rw_write E io ev) ws w"

definition raw_lines :: "raw_env \<Rightarrow> event list \<Rightarrow> string list" where
  "raw_lines E evs = map (\<lambda>ev. the (re_to_string E (event_to_json E ev))) evs"

lemma rw_write_poisoned: "rw_poisoned w \<Longrightarrow> rw_write E io ev w = w"
  by (simp add: rw_write_def)

lemma rw_run_poisoned: "rw_poisoned w \<Longrightarrow> rw_run E ws w = w"
  unfolding rw_run_def by (induction ws) (auto simp: rw_write_poisoned)

lemma rw_run_ok:
  assumes "\<And>v. re_to_string E v \<noteq> None" and "\<forall>(ev, io) \<in> set ws. io = None" and "\<not> rw_poisoned w"
  shows "rw_run E ws w = w\<lparr>rw_lines := rw_lines w @ raw_lines E (map fst ws),
     rw_bytes_written := rw_bytes_written w + sum_list (map (\<lambda>l. u64_from_or 0 (length l + 1)) (raw_lines E (map fst ws)))\<rparr>"
  using assms(2,3)
proof (induction ws arbitrary: w)
  case (Cons a ws)
  obtain ev where a: "a = (ev, None)" using Cons.prems(1) by (cases a) auto
  obtain l where l: "re_to_string E (event_to_json E ev) = Some l" using assms(1) by blast
  show ?case
    using Cons.IH [of "rw_write E None ev w"] Cons.prems
    by (simp add: rw_run_def a rw_write_def l raw_lines_def algebra_simps)
qed (simp add: rw_run_def raw_lines_def)

text \<open>C32. The log is a prefix of the run and the first I/O error is the one reported: with a serializer that
  never fails, a run of writes without errors appends one line per event, in order, and counts their bytes
  with the newlines modulo two to the 64; if the write after it fails, nothing that follows is written or
  counted, no later error replaces the message, and a flush changes nothing.\<close>

theorem raw_writer_latches_first_error:
  assumes "\<And>v. re_to_string E v \<noteq> None" and "\<forall>(ev, io) \<in> set before. io = None"
    and "rw_create None path = Inr w"
  shows "let done = raw_lines E (map fst before);
             w' = rw_run E (before @ (ev, Some e) # after) w
         in rw_lines w' = done \<and> rw_bytes_written w' = sum_list (map (\<lambda>l. u64_from_or 0 (length l + 1)) done)
          \<and> fst (rw_take_warning w') = Some (''write to '' @ path @ '' failed: '' @ e)
          \<and> rw_flush io w' = w' \<and> fst (rw_take_warning (snd (rw_take_warning w'))) = None"
proof -
  have w: "w = \<lparr>rw_path = path, rw_lines = [], rw_bytes_written = 0, rw_poisoned = False, rw_error_text = None\<rparr>"
    using assms(3) by (simp add: rw_create_def)
  obtain l where l: "re_to_string E (event_to_json E ev) = Some l" using assms(1) by blast
  let ?w = "rw_run E before w"
  let ?p = "rw_write E (Some e) ev ?w"
  have run: "rw_run E (before @ (ev, Some e) # after) w = rw_run E after ?p" by (simp add: rw_run_def)
  have w1: "?w = w\<lparr>rw_lines := raw_lines E (map fst before),
      rw_bytes_written := sum_list (map (\<lambda>l. u64_from_or 0 (length l + 1)) (raw_lines E (map fst before)))\<rparr>"
    using rw_run_ok [OF assms(1,2), of w] by (simp add: w)
  have p: "?p = ?w\<lparr>rw_poisoned := True, rw_error_text := Some (''write to '' @ path @ '' failed: '' @ e)\<rparr>"
  proof -
    have "rw_path ?w = path" "\<not> rw_poisoned ?w" unfolding w1 unfolding w by simp_all
    then show ?thesis by (simp add: rw_write_def l)
  qed
  then have "rw_run E after ?p = ?p" by (intro rw_run_poisoned) simp
  then have end_eq: "rw_run E (before @ (ev, Some e) # after) w = ?p" unfolding run .
  show ?thesis
    unfolding Let_def end_eq unfolding p unfolding w1 unfolding w by (simp add: rw_take_warning_def rw_flush_def)
qed

theorem raw_writer_latches_first_error_witness:
  "rw_lines (rw_run toy_raw_env ([(two_stream_event Slots, None)] @ (two_stream_event Slots, Some ''full'') # [(two_stream_event Slots, None)])
     (case rw_create None ''f'' of Inr w \<Rightarrow> w)) = [''x'']"
proof -
  have "rw_create None ''f'' = Inr (case rw_create None ''f'' of Inr w \<Rightarrow> w)" by (simp add: rw_create_def)
  moreover have "raw_lines toy_raw_env (map fst [(two_stream_event Slots, None :: string option)]) = [''x'']"
    by (simp add: raw_lines_def toy_raw_env_def)
  moreover have "\<And>v. re_to_string toy_raw_env v \<noteq> None" by (simp add: toy_raw_env_def)
  ultimately show ?thesis
    using raw_writer_latches_first_error [of toy_raw_env "[(two_stream_event Slots, None)]" "''f''"
        "case rw_create None ''f'' of Inr w \<Rightarrow> w" "two_stream_event Slots" "''full''" "[(two_stream_event Slots, None)]"]
    unfolding Let_def by simp
qed

end
