(* ===== verification/Affinity.thy ===== *)
theory Affinity
  imports Strings Event_Types
begin

text \<open>
  CPU affinity (\<open>AffinityPlan\<close>, \<open>AffinitySpec\<close>, \<open>parse_core_list\<close> and their errors in
  \<open>src/collect/mod.rs\<close>): the run-time plan, the parsers of the flat and the structured form, the automatic
  layout and the flattened echo. \<open>available_parallelism\<close> is the argument of \<open>auto_from_nproc\<close>.
\<close>

section \<open>Plans and specs\<close>

record affinity_plan =
  ap_endpoint1_cores :: "u32 list"
  ap_endpoint2_cores :: "u32 list"
  ap_processor_core :: "u32 option"
  ap_control_core :: "u32 option"

record affinity_spec =
  as_endpoint1 :: "u32 list"
  as_endpoint2 :: "u32 list"
  as_processor :: "u32 option"
  as_control :: "u32 option"

definition affinity_spec_default :: affinity_spec where
  "affinity_spec_default = \<lparr>as_endpoint1 = [], as_endpoint2 = [], as_processor = None, as_control = None\<rparr>"

datatype affinity_parse_error =
    Mixed
  | EmptySection
  | UnknownRole string
  | DuplicateRole string
  | InvalidCore string string
  | SingleCoreOnly string
  | DuplicateCore u32

fun plan_from_cli :: "u32 list \<Rightarrow> affinity_plan" where
  "plan_from_cli [] =
     \<lparr>ap_endpoint1_cores = [], ap_endpoint2_cores = [], ap_processor_core = None, ap_control_core = None\<rparr>"
| "plan_from_cli [c] =
     \<lparr>ap_endpoint1_cores = [c], ap_endpoint2_cores = [c], ap_processor_core = Some c, ap_control_core = None\<rparr>"
| "plan_from_cli [a, b] =
     \<lparr>ap_endpoint1_cores = [a], ap_endpoint2_cores = [b], ap_processor_core = None, ap_control_core = None\<rparr>"
| "plan_from_cli [a, b, p] =
     \<lparr>ap_endpoint1_cores = [a], ap_endpoint2_cores = [b], ap_processor_core = Some p, ap_control_core = None\<rparr>"
| "plan_from_cli (a # b # p # c # _) =
     \<lparr>ap_endpoint1_cores = [a], ap_endpoint2_cores = [b], ap_processor_core = Some p, ap_control_core = Some c\<rparr>"

definition core_for_subscription :: "affinity_plan \<Rightarrow> subscription_role \<Rightarrow> nat \<Rightarrow> u32 option" where
  "core_for_subscription plan role idx =
     (let cores = (case role_endpoint role of One \<Rightarrow> ap_endpoint1_cores plan | Two \<Rightarrow> ap_endpoint2_cores plan)
      in if cores = [] then None else Some (cores ! (idx mod length cores)))"

definition plan_from_spec :: "affinity_spec \<Rightarrow> affinity_plan" where
  "plan_from_spec s =
     \<lparr>ap_endpoint1_cores = as_endpoint1 s, ap_endpoint2_cores = as_endpoint2 s,
      ap_processor_core = as_processor s, ap_control_core = as_control s\<rparr>"

section \<open>Automatic layout\<close>

definition u32_range :: "u32 \<Rightarrow> u32 \<Rightarrow> u32 list" where
  "u32_range a b = map of_nat [unat a..<unat b]"

definition auto_for_core_count :: "nat \<Rightarrow> affinity_spec" where
  "auto_for_core_count nproc =
     (if nproc < 6 then affinity_spec_default
      else let nproc_u32 = (if nproc < 2 ^ 32 then of_nat nproc else - 1 :: u32);
               last = nproc_u32 - 1;
               receiver_start = 2;
               receiver_end_inclusive = last - 1;
               receiver_count = receiver_end_inclusive - receiver_start + 1;
               half = receiver_count div 2;
               split_at = receiver_start + half
           in \<lparr>as_endpoint1 = u32_range receiver_start split_at,
               as_endpoint2 = u32_range split_at (receiver_end_inclusive + 1),
               as_processor = None, as_control = Some last\<rparr>)"

text \<open>The comparison with \<open>2\<^sup>3\<^sup>2\<close> over the integers, for evaluation.\<close>

lemma auto_for_core_count_code [code]:
  "auto_for_core_count nproc =
     (if nproc < 6 then affinity_spec_default
      else let nproc_u32 = (if int nproc < 2 ^ 32 then of_nat nproc else - 1 :: u32);
               last = nproc_u32 - 1;
               receiver_start = 2;
               receiver_end_inclusive = last - 1;
               receiver_count = receiver_end_inclusive - receiver_start + 1;
               half = receiver_count div 2;
               split_at = receiver_start + half
           in \<lparr>as_endpoint1 = u32_range receiver_start split_at,
               as_endpoint2 = u32_range split_at (receiver_end_inclusive + 1),
               as_processor = None, as_control = Some last\<rparr>)"
  unfolding auto_for_core_count_def of_nat_less_numeral_power_cancel_iff by (rule refl)

definition auto_from_nproc :: "nat option \<Rightarrow> affinity_spec" where
  "auto_from_nproc available_parallelism =
     auto_for_core_count (case available_parallelism of Some n \<Rightarrow> n | None \<Rightarrow> 4)"

section \<open>Parsing\<close>

text \<open>The first core that already occurs before its position.\<close>

fun first_duplicate :: "u32 list \<Rightarrow> u32 list \<Rightarrow> u32 option" where
  "first_duplicate seen [] = None"
| "first_duplicate seen (c # cs) = (if c \<in> set seen then Some c else first_duplicate (seen @ [c]) cs)"

fun flat_spec :: "u32 list \<Rightarrow> affinity_spec" where
  "flat_spec [] = affinity_spec_default"
| "flat_spec [c] = \<lparr>as_endpoint1 = [c], as_endpoint2 = [c], as_processor = Some c, as_control = None\<rparr>"
| "flat_spec [a, b] = \<lparr>as_endpoint1 = [a], as_endpoint2 = [b], as_processor = None, as_control = None\<rparr>"
| "flat_spec [a, b, p] = \<lparr>as_endpoint1 = [a], as_endpoint2 = [b], as_processor = Some p, as_control = None\<rparr>"
| "flat_spec (a # b # p # c # _) = \<lparr>as_endpoint1 = [a], as_endpoint2 = [b], as_processor = Some p, as_control = Some c\<rparr>"

definition from_flat_vec :: "u32 list \<Rightarrow> affinity_parse_error + affinity_spec" where
  "from_flat_vec cores =
     (case first_duplicate [] cores of Some c \<Rightarrow> Inl (DuplicateCore c) | None \<Rightarrow> Inr (flat_spec cores))"

fun parse_cores :: "string \<Rightarrow> u32 list \<Rightarrow> string list \<Rightarrow> affinity_parse_error + u32 list" where
  "parse_cores label cores [] = Inr cores"
| "parse_cores label cores (part # parts) =
     (let t = str_trim part
      in if t = [] then Inl EmptySection
         else case parse_u32 t of
                None \<Rightarrow> Inl (InvalidCore t label)
              | Some n \<Rightarrow> if n \<in> set cores then Inl (DuplicateCore n) else parse_cores label (cores @ [n]) parts)"

definition parse_core_list :: "string \<Rightarrow> string \<Rightarrow> affinity_parse_error + u32 list" where
  "parse_core_list value label = parse_cores label [] (str_split (CHR '','') value)"

definition from_flat_str :: "string \<Rightarrow> affinity_parse_error + affinity_spec" where
  "from_flat_str raw = (case parse_core_list raw ''flat'' of Inl e \<Rightarrow> Inl e | Inr cores \<Rightarrow> from_flat_vec cores)"

record structured_state =
  sx_me :: affinity_spec
  sx_ep1 :: bool
  sx_ep2 :: bool
  sx_proc :: bool
  sx_ctrl :: bool

definition structured_init :: structured_state where
  "structured_init = \<lparr>sx_me = affinity_spec_default, sx_ep1 = False, sx_ep2 = False, sx_proc = False, sx_ctrl = False\<rparr>"

text \<open>The \<open>match role\<close> of one section.\<close>

definition structured_role :: "string \<Rightarrow> u32 list \<Rightarrow> structured_state \<Rightarrow> affinity_parse_error + structured_state" where
  "structured_role role cores st =
     (if role = ''ep1'' then
        (if sx_ep1 st then Inl (DuplicateRole ''ep1'')
         else Inr (st\<lparr>sx_ep1 := True, sx_me := (sx_me st)\<lparr>as_endpoint1 := cores\<rparr>\<rparr>))
      else if role = ''ep2'' then
        (if sx_ep2 st then Inl (DuplicateRole ''ep2'')
         else Inr (st\<lparr>sx_ep2 := True, sx_me := (sx_me st)\<lparr>as_endpoint2 := cores\<rparr>\<rparr>))
      else if role = ''proc'' then
        (if sx_proc st then Inl (DuplicateRole ''proc'')
         else if length cores \<noteq> 1 then Inl (SingleCoreOnly ''proc'')
         else Inr (st\<lparr>sx_proc := True, sx_me := (sx_me st)\<lparr>as_processor := Some (cores ! 0)\<rparr>\<rparr>))
      else if role = ''ctrl'' then
        (if sx_ctrl st then Inl (DuplicateRole ''ctrl'')
         else if length cores \<noteq> 1 then Inl (SingleCoreOnly ''ctrl'')
         else Inr (st\<lparr>sx_ctrl := True, sx_me := (sx_me st)\<lparr>as_control := Some (cores ! 0)\<rparr>\<rparr>))
      else Inl (UnknownRole role))"

definition structured_section :: "string \<Rightarrow> structured_state \<Rightarrow> affinity_parse_error + structured_state" where
  "structured_section sec st =
     (let sec = str_trim sec
      in if sec = [] then Inl EmptySection
         else case str_split_once (CHR ''='') sec of
                None \<Rightarrow> Inl Mixed
              | Some (role, value) \<Rightarrow>
                  (let role = str_trim role; value = str_trim value
                   in case parse_core_list value role of
                        Inl e \<Rightarrow> Inl e
                      | Inr cores \<Rightarrow> if cores = [] then Inl EmptySection else structured_role role cores st))"

fun structured_sections :: "string list \<Rightarrow> structured_state \<Rightarrow> affinity_parse_error + structured_state" where
  "structured_sections [] st = Inr st"
| "structured_sections (s # ss) st =
     (case structured_section s st of Inl e \<Rightarrow> Inl e | Inr st' \<Rightarrow> structured_sections ss st')"

definition option_list :: "'a option \<Rightarrow> 'a list" where
  "option_list o' = (case o' of None \<Rightarrow> [] | Some x \<Rightarrow> [x])"

definition spec_flat :: "affinity_spec \<Rightarrow> u32 list" where
  "spec_flat s = as_endpoint1 s @ as_endpoint2 s @ option_list (as_processor s) @ option_list (as_control s)"

definition from_structured :: "string \<Rightarrow> affinity_parse_error + affinity_spec" where
  "from_structured raw =
     (case structured_sections (str_split (CHR '':'') raw) structured_init of
        Inl e \<Rightarrow> Inl e
      | Inr st \<Rightarrow>
          (case first_duplicate [] (spec_flat (sx_me st)) of
             Some c \<Rightarrow> Inl (DuplicateCore c)
           | None \<Rightarrow> Inr (sx_me st)))"

definition affinity_parse :: "nat option \<Rightarrow> string \<Rightarrow> affinity_parse_error + affinity_spec" where
  "affinity_parse available_parallelism raw =
     (let trimmed = str_trim raw
      in if trimmed = [] then Inr affinity_spec_default
         else if eq_ignore_ascii_case trimmed ''auto'' then Inr (auto_from_nproc available_parallelism)
         else if CHR ''='' \<in> set trimmed then from_structured trimmed
         else from_flat_str trimmed)"

definition push_new :: "u32 \<Rightarrow> u32 list \<Rightarrow> u32 list" where
  "push_new c out = (if c \<in> set out then out else out @ [c])"

definition all_cores :: "affinity_spec \<Rightarrow> u32 list" where
  "all_cores s = fold push_new (option_list (as_control s))
     (fold push_new (option_list (as_processor s))
        (fold push_new (as_endpoint2 s) (fold push_new (as_endpoint1 s) [])))"

definition spec_is_empty :: "affinity_spec \<Rightarrow> bool" where
  "spec_is_empty s \<longleftrightarrow> as_endpoint1 s = [] \<and> as_endpoint2 s = [] \<and> as_processor s = None \<and> as_control s = None"

section \<open>What the parser accepts\<close>

lemma first_duplicate_None: "first_duplicate seen cs = None \<longleftrightarrow> distinct cs \<and> set seen \<inter> set cs = {}"
  by (induction seen cs rule: first_duplicate.induct) auto

lemma fold_push_new: "distinct out \<Longrightarrow> distinct (fold push_new cs out) \<and> set (fold push_new cs out) = set out \<union> set cs"
  by (induction cs arbitrary: out) (auto simp: push_new_def)

lemma fold_push_new_distinct: "distinct (out @ cs) \<Longrightarrow> fold push_new cs out = out @ cs"
  by (induction cs arbitrary: out) (auto simp: push_new_def)

lemma all_cores_fold: "all_cores s = fold push_new (spec_flat s) []"
  by (simp add: all_cores_def spec_flat_def fold_append)

lemma flat_spec_plan: "plan_from_spec (flat_spec cs) = plan_from_cli cs"
  by (cases cs rule: plan_from_cli.cases) (simp_all add: plan_from_spec_def affinity_spec_default_def)

text \<open>The two routes from a flat core list to a run-time plan agree: the overlay route through the spec
  yields the plan the command line's own interpretation yields whenever it succeeds, it fails exactly on a
  repeated core, and the legacy echo then lists every pinned core once.\<close>

theorem flat_routes_agree:
  "(case from_flat_vec cores of
      Inr spec \<Rightarrow> distinct cores \<and> plan_from_spec spec = plan_from_cli cores
        \<and> distinct (all_cores spec) \<and> set (all_cores spec) = set (take 4 cores)
    | Inl e \<Rightarrow> \<not> distinct cores \<and> (\<exists>c \<in> set cores. e = DuplicateCore c))"
proof (cases "first_duplicate [] cores")
  case None
  have "set (spec_flat (flat_spec cores)) = set (take 4 cores)"
    by (cases cores rule: plan_from_cli.cases) (auto simp: spec_flat_def affinity_spec_default_def option_list_def)
  moreover have "from_flat_vec cores = Inr (flat_spec cores)" by (simp add: from_flat_vec_def None)
  moreover have "distinct cores" using None by (simp add: first_duplicate_None)
  ultimately show ?thesis
    using fold_push_new [of "[]" "spec_flat (flat_spec cores)"] by (simp add: flat_spec_plan all_cores_fold)
next
  case (Some c)
  have "first_duplicate seen cs = Some d \<Longrightarrow> d \<in> set cs" for seen cs d
    by (induction seen cs rule: first_duplicate.induct) (auto split: if_splits)
  moreover have "\<not> distinct cores" using Some first_duplicate_None [of "[]" cores] by auto
  ultimately show ?thesis using Some by (simp add: from_flat_vec_def)
qed

lemma from_structured_flat:
  "from_structured raw = Inr spec \<Longrightarrow> distinct (spec_flat spec)"
  by (auto simp: from_structured_def first_duplicate_None split: sum.splits option.splits)

text \<open>C37. No core does two jobs: whatever structured text the parser accepts, the cores of the two endpoints, of
  the processor and of the control thread are pairwise distinct, the echoed list is exactly their
  concatenation, and every receiver of an endpoint is pinned to one of that endpoint's own cores.\<close>

theorem structured_parse_sound:
  assumes "affinity_parse np raw = Inr spec" and "CHR ''='' \<in> set (str_trim raw)"
  shows "distinct (as_endpoint1 spec @ as_endpoint2 spec @ option_list (as_processor spec) @ option_list (as_control spec))
    \<and> all_cores spec = as_endpoint1 spec @ as_endpoint2 spec @ option_list (as_processor spec) @ option_list (as_control spec)
    \<and> (case core_for_subscription (plan_from_spec spec) role idx of
         None \<Rightarrow> (case role_endpoint role of One \<Rightarrow> as_endpoint1 spec | Two \<Rightarrow> as_endpoint2 spec) = []
       | Some c \<Rightarrow> c \<in> set (case role_endpoint role of One \<Rightarrow> as_endpoint1 spec | Two \<Rightarrow> as_endpoint2 spec))"
proof -
  have "\<not> eq_ignore_ascii_case (str_trim raw) ''auto''"
  proof
    assume "eq_ignore_ascii_case (str_trim raw) ''auto''"
    then have "map ascii_lower (str_trim raw) = ''auto''"
      by (simp add: eq_ignore_ascii_case_def to_ascii_lowercase_def ascii_lower_def Let_def)
    moreover have "ascii_lower (CHR ''='') \<in> set (map ascii_lower (str_trim raw))" using assms(2) by simp
    ultimately show False by (simp add: ascii_lower_def Let_def)
  qed
  then have "from_structured (str_trim raw) = Inr spec"
    using assms by (auto simp: affinity_parse_def Let_def split: if_splits)
  then have d: "distinct (spec_flat spec)" by (rule from_structured_flat)
  then have "all_cores spec = spec_flat spec"
    using fold_push_new_distinct [of "[]" "spec_flat spec"] by (simp add: all_cores_fold)
  moreover have "idx mod length cs < length cs" if "cs \<noteq> []" for cs :: "u32 list" using that by simp
  ultimately show ?thesis
    using d by (cases "role_endpoint role") (auto simp: spec_flat_def core_for_subscription_def plan_from_spec_def Let_def)
qed

section \<open>Round trip\<close>

text \<open>The documented structured form of a spec.\<close>

definition render_cores :: "u32 list \<Rightarrow> string" where
  "render_cores cs = str_join (CHR '','') (map (\<lambda>c. show_nat (unat c)) cs)"

definition render_section :: "string \<Rightarrow> u32 list \<Rightarrow> string list" where
  "render_section role cs = (if cs = [] then [] else [role @ CHR ''='' # render_cores cs])"

definition render_sections :: "affinity_spec \<Rightarrow> string list" where
  "render_sections s = render_section ''ep1'' (as_endpoint1 s) @ render_section ''ep2'' (as_endpoint2 s)
     @ render_section ''proc'' (option_list (as_processor s)) @ render_section ''ctrl'' (option_list (as_control s))"

definition render_spec :: "affinity_spec \<Rightarrow> string" where
  "render_spec s = str_join (CHR '':'') (render_sections s)"

lemma render_cores_chars:
  assumes "c \<in> set (render_cores cs)"
  shows "graphic c \<and> c \<noteq> CHR '':'' \<and> c \<noteq> CHR ''=''"
proof -
  have "c = CHR '','' \<or> (\<exists>n. c \<in> set (show_nat n))"
    using assms set_str_join [of "CHR '',''" "map (\<lambda>c. show_nat (unat c)) cs"] unfolding render_cores_def by auto
  then show ?thesis using show_nat_chars by (auto simp: list_all_iff graphic_def)
qed

lemma parse_cores_render:
  "distinct (done @ cs) \<Longrightarrow> parse_cores label done (map (\<lambda>c. show_nat (unat c)) cs) = Inr (done @ cs)"
  by (induction cs arbitrary: "done")
     (simp_all add: Let_def str_trim_graphic show_nat_chars show_nat_nonempty parse_u32_show)

lemma parse_core_list_render: "cs \<noteq> [] \<Longrightarrow> distinct cs \<Longrightarrow> parse_core_list (render_cores cs) label = Inr cs"
proof -
  assume cs: "cs \<noteq> []" "distinct cs"
  have "str_split (CHR '','') (render_cores cs) = map (\<lambda>c. show_nat (unat c)) cs"
    unfolding render_cores_def using cs show_nat_chars(2) by (intro str_split_join) auto
  then show ?thesis using parse_cores_render [of "[]" cs label] cs by (simp add: parse_core_list_def)
qed

lemma render_section_trim:
  assumes "list_all graphic role"
  shows "str_trim (role @ CHR ''='' # render_cores cs) = role @ CHR ''='' # render_cores cs"
    "str_trim (render_cores cs) = render_cores cs" "str_trim role = role"
  using assms render_cores_chars [of _ cs]
  by (auto intro!: str_trim_graphic simp: list_all_iff graphic_def)

lemma structured_section_render:
  assumes "list_all graphic role" and "CHR ''='' \<notin> set role" and "cs \<noteq> []" and "distinct cs"
  shows "structured_section (role @ CHR ''='' # render_cores cs) st = structured_role role cs st"
  using assms
  by (simp add: structured_section_def Let_def render_section_trim str_split_once_append parse_core_list_render)

lemma render_sections_parse:
  assumes "distinct (spec_flat s)"
  shows "structured_sections (render_sections s) structured_init =
    Inr \<lparr>sx_me = s, sx_ep1 = as_endpoint1 s \<noteq> [], sx_ep2 = as_endpoint2 s \<noteq> [],
         sx_proc = as_processor s \<noteq> None, sx_ctrl = as_control s \<noteq> None\<rparr>"
proof -
  have g: "list_all graphic ''ep1''" "list_all graphic ''ep2''" "list_all graphic ''proc''" "list_all graphic ''ctrl''"
    by (simp_all add: graphic_def)
  have app: "structured_sections (xs @ ys) st =
      (case structured_sections xs st of Inl e \<Rightarrow> Inl e | Inr st' \<Rightarrow> structured_sections ys st')" for xs ys st
    by (induction xs arbitrary: st) (simp_all split: sum.split)
  have sec: "structured_sections (render_section role cs) st = (if cs = [] then Inr st else structured_role role cs st)"
    if "list_all graphic role" "CHR ''='' \<notin> set role" "distinct cs" for role cs st
    using structured_section_render [OF that(1,2) _ that(3)] by (simp add: render_section_def split: sum.split)
  obtain e1 e2 p c where s: "s = \<lparr>as_endpoint1 = e1, as_endpoint2 = e2, as_processor = p, as_control = c\<rparr>" by (cases s)
  have d: "distinct e1" "distinct e2" "distinct (option_list p)" "distinct (option_list c)"
    using assms by (simp_all add: s spec_flat_def)
  show ?thesis
    unfolding render_sections_def s
    using g d by (cases p; cases c; cases "e1 = []"; cases "e2 = []")
      (simp_all add: app sec option_list_def structured_role_def structured_init_def affinity_spec_default_def)
qed


section \<open>The automatic layout\<close>

lemma map_of_nat_upt_append: "a \<le> b \<Longrightarrow> b \<le> c \<Longrightarrow> map f [a..<b] @ map f [b..<c] = map f [a..<c]"
  by (metis map_append upt_add_eq_append le_add_diff_inverse)

text \<open>The automatic layout uses each core once and never the first two: on a host with at least six cores
  the endpoints' cores and the control core are together exactly the cores 2 to n-1 in order, the two endpoints
  differ by at most one core and neither is empty, the processor stays unpinned; below six cores nothing is
  pinned. No 32-bit subtraction underflows.\<close>

theorem auto_layout_partition:
  assumes "n < 2 ^ 32"
  shows "if n < 6 then spec_is_empty (auto_for_core_count n)
    else let s = auto_for_core_count n
         in as_endpoint1 s @ as_endpoint2 s @ option_list (as_control s) = map of_nat [2..<n]
          \<and> as_processor s = None \<and> as_endpoint1 s \<noteq> []
          \<and> length (as_endpoint1 s) \<le> length (as_endpoint2 s) \<and> length (as_endpoint2 s) \<le> length (as_endpoint1 s) + 1"
proof (cases "n < 6")
  case True
  then show ?thesis by (simp add: auto_for_core_count_def spec_is_empty_def affinity_spec_default_def)
next
  case False
  define N :: u32 where "N = of_nat n"
  have N: "unat N = n" using assms by (simp add: N_def unat_of_nat take_bit_nat_eq_self)
  have l: "unat (N - 1) = n - 1" using False N by (simp add: unat_sub word_le_nat_alt)
  have e: "unat (N - 3) = n - 3" using False N by (simp add: unat_sub word_le_nat_alt)
  have h: "unat ((N - 3) div 2) = (n - 3) div 2" using e by (simp add: unat_div)
  have s: "unat (2 + (N - 3) div 2) = 2 + (n - 3) div 2"
    using h assms False by (simp add: unat_word_ariths)
  have lit: "N - 1 - 1 - 2 + 1 = N - 3" "N - 1 - 1 + 1 = N - 1" by simp_all
  have auto: "auto_for_core_count n = \<lparr>as_endpoint1 = map of_nat [2..<2 + (n - 3) div 2],
      as_endpoint2 = map of_nat [2 + (n - 3) div 2..<n - 1], as_processor = None, as_control = Some (of_nat (n - 1))\<rparr>"
    using False assms by (simp only: auto_for_core_count_def u32_range_def Let_def N_def [symmetric] lit s l if_False if_True)
       (simp add: of_nat_diff N_def)
  have "map of_nat [2..<n] = (map of_nat [2..<n - 1] @ [of_nat (n - 1)] :: u32 list)"
    using False by (cases n) simp_all
  moreover have "map of_nat [2..<2 + (n - 3) div 2] @ map of_nat [2 + (n - 3) div 2..<n - 1] = (map of_nat [2..<n - 1] :: u32 list)"
    using False by (intro map_of_nat_upt_append) simp_all
  ultimately show ?thesis
    using False by (simp add: auto Let_def option_list_def) linarith
qed

theorem structured_parse_sound_witness:
  "affinity_parse None '' EP1=2:ep2=3'' = Inl (UnknownRole ''EP1'')
   \<and> affinity_parse None ''ep1=2,3 :ep2=4:ctrl=+7'' =
       Inr \<lparr>as_endpoint1 = [2, 3], as_endpoint2 = [4], as_processor = None, as_control = Some 7\<rparr>
   \<and> all_cores \<lparr>as_endpoint1 = [2, 3], as_endpoint2 = [4], as_processor = None, as_control = Some 7\<rparr> = [2, 3] @ [4] @ [] @ [7]"
proof -
  have p: "affinity_parse None ''ep1=2,3 :ep2=4:ctrl=+7'' =
       Inr \<lparr>as_endpoint1 = [2, 3], as_endpoint2 = [4], as_processor = None, as_control = Some 7\<rparr>" by code_simp
  moreover have "CHR ''='' \<in> set (str_trim ''ep1=2,3 :ep2=4:ctrl=+7'')" by code_simp
  moreover have "affinity_parse None '' EP1=2:ep2=3'' = Inl (UnknownRole ''EP1'')" by code_simp
  ultimately show ?thesis
    using structured_parse_sound [of None "''ep1=2,3 :ep2=4:ctrl=+7''" _ "Entries One" 0]
    by (simp add: option_list_def)
qed


theorem auto_layout_partition_witness:
  "as_endpoint1 (auto_for_core_count 8) @ as_endpoint2 (auto_for_core_count 8) @ [7] = [2, 3, 4, 5, 6, 7]
   \<and> as_endpoint1 (auto_for_core_count 8) = [2, 3]"
proof -
  have "as_endpoint1 (auto_for_core_count 8) = [2, 3]" "as_control (auto_for_core_count 8) = Some 7"
    by (simp_all add: auto_for_core_count_def u32_range_def Let_def)
  then show ?thesis
    using auto_layout_partition [of 8] by (simp add: Let_def option_list_def)
qed

end
