(* ===== verification/Config.thy ===== *)
theory Config
  imports Affinity
begin

text \<open>
  Configuration (\<open>src/config.rs\<close>): the raw command line as \<open>clap\<close> delivers it, the TOML overlay, the validated
  \<open>Config\<close> and the function between them. Reading and parsing the overlay file is outside; the warning printed
  when the processor pin is dropped is the dropping itself.
\<close>

datatype allocator = Jemalloc | Mimalloc | System

record endpoint_spec =
  es_url :: string
  es_x_token :: string
  es_tls_forced :: bool

datatype stop_condition = Stop_Slots u64 | Stop_Duration u64 | Stop_Either u64 u64

record cli =
  cli_endpoint1 :: string
  cli_x_token1 :: string
  cli_endpoint1_tls :: bool
  cli_endpoint2 :: "string option"
  cli_x_token2 :: "string option"
  cli_endpoint2_tls :: bool
  cli_solo :: bool
  cli_solo_streams :: "main_stream list"
  cli_entries_endpoint1 :: "string option"
  cli_entries_x_token1 :: "string option"
  cli_entries_endpoint1_tls :: bool
  cli_entries_endpoint2 :: "string option"
  cli_entries_x_token2 :: "string option"
  cli_entries_endpoint2_tls :: bool
  cli_programs :: string
  cli_slots :: "u64 option"
  cli_duration :: "u64 option"
  cli_commitment :: "commitment list"
  cli_with_blocks :: bool
  cli_with_transactions :: bool
  cli_strict_account_key :: bool
  cli_accounts_programs_per_filter :: usize
  cli_reconnect_test :: "u64 option"
  cli_output :: string
  cli_raw_records :: "string option"
  cli_config :: "string option"
  cli_cpu_affinity :: "string option"
  cli_realtime :: bool
  cli_allocator :: allocator
  cli_log_level :: string
  cli_max_decode_mb :: usize
  cli_ring_capacity :: usize

record config =
  cf_endpoint1 :: endpoint_spec
  cf_endpoint2 :: "endpoint_spec option"
  cf_entries_endpoint1 :: "endpoint_spec option"
  cf_entries_endpoint2 :: "endpoint_spec option"
  cf_programs_path :: string
  cf_stop :: stop_condition
  cf_commitments :: "commitment list"
  cf_with_blocks :: bool
  cf_with_transactions :: bool
  cf_strict_account_key :: bool
  cf_accounts_programs_per_filter :: usize
  cf_reconnect_test_secs :: "u64 option"
  cf_output :: string
  cf_raw_records :: "string option"
  cf_cpu_affinity :: affinity_spec
  cf_realtime :: bool
  cf_allocator :: allocator
  cf_log_level :: string
  cf_solo :: bool
  cf_solo_streams :: "main_stream list"
  cf_max_decode_mb :: usize
  cf_ring_capacity :: usize

record toml_overlay =
  to_log_level :: "string option"
  to_raw_records :: "string option"
  to_cpu_affinity :: "u32 list option"

definition toml_overlay_default :: toml_overlay where
  "toml_overlay_default = \<lparr>to_log_level = None, to_raw_records = None, to_cpu_affinity = None\<rparr>"

datatype config_error =
    NoStopCondition
  | Endpoint2Missing
  | EntriesTokenMismatch nat
  | EntriesEndpointMismatch nat
  | CpuAffinityParse affinity_parse_error
  | DuplicateCommitment string
  | EmptyCommitment
  | TomlRead string
  | TomlParse string

definition stop_condition_of :: "u64 option \<Rightarrow> u64 option \<Rightarrow> stop_condition option" where
  "stop_condition_of slots duration =
     (case (slots, duration) of
        (None, None) \<Rightarrow> None
      | (Some s, None) \<Rightarrow> Some (Stop_Slots s)
      | (None, Some d) \<Rightarrow> Some (Stop_Duration d)
      | (Some s, Some d) \<Rightarrow> Some (Stop_Either s d))"

text \<open>\<open>None\<close> is \<open>Ok(())\<close>.\<close>

definition validate_entries_pair :: "nat \<Rightarrow> string option \<Rightarrow> string option \<Rightarrow> config_error option" where
  "validate_entries_pair which endpoint token =
     (case (endpoint, token) of
        (Some _, None) \<Rightarrow> Some (EntriesTokenMismatch which)
      | (None, Some _) \<Rightarrow> Some (EntriesEndpointMismatch which)
      | _ \<Rightarrow> None)"

fun duplicate_commitment :: "commitment list \<Rightarrow> commitment list \<Rightarrow> commitment option" where
  "duplicate_commitment seen [] = None"
| "duplicate_commitment seen (c # cs) = (if c \<in> set seen then Some c else duplicate_commitment (seen @ [c]) cs)"

definition config_affinity :: "nat option \<Rightarrow> string option \<Rightarrow> u32 list option \<Rightarrow> affinity_parse_error + affinity_spec" where
  "config_affinity np cli_spec overlay_cores =
     (case cli_spec of
        Some raw \<Rightarrow> affinity_parse np raw
      | None \<Rightarrow> (case overlay_cores of Some cores \<Rightarrow> from_flat_vec cores | None \<Rightarrow> Inr affinity_spec_default))"

definition build_optional_endpoint :: "string option \<Rightarrow> string option \<Rightarrow> bool \<Rightarrow> endpoint_spec option" where
  "build_optional_endpoint url token tls =
     (case (url, token) of
        (Some u, Some t) \<Rightarrow> Some \<lparr>es_url = u, es_x_token = t, es_tls_forced = tls\<rparr>
      | _ \<Rightarrow> None)"

definition config_endpoint2 :: "cli \<Rightarrow> config_error + endpoint_spec option" where
  "config_endpoint2 cli =
     (if cli_solo cli then Inr None
      else case (cli_endpoint2 cli, cli_x_token2 cli) of
             (Some u, Some t) \<Rightarrow> Inr (Some \<lparr>es_url = u, es_x_token = t, es_tls_forced = cli_endpoint2_tls cli\<rparr>)
           | _ \<Rightarrow> Inl Endpoint2Missing)"

definition config_log_level :: "string \<Rightarrow> string option \<Rightarrow> string" where
  "config_log_level level overlay =
     (if level = ''info'' then (case overlay of Some l \<Rightarrow> l | None \<Rightarrow> level) else level)"

definition from_cli_and_overlay :: "nat option \<Rightarrow> cli \<Rightarrow> toml_overlay \<Rightarrow> config_error + config" where
  "from_cli_and_overlay np cli overlay =
     (case stop_condition_of (cli_slots cli) (cli_duration cli) of
        None \<Rightarrow> Inl NoStopCondition
      | Some stop \<Rightarrow>
      (case validate_entries_pair 1 (cli_entries_endpoint1 cli) (cli_entries_x_token1 cli) of
        Some e \<Rightarrow> Inl e
      | None \<Rightarrow>
      (case validate_entries_pair 2 (cli_entries_endpoint2 cli) (cli_entries_x_token2 cli) of
        Some e \<Rightarrow> Inl e
      | None \<Rightarrow>
      if cli_commitment cli = [] then Inl EmptyCommitment
      else
      (case duplicate_commitment [] (cli_commitment cli) of
        Some c \<Rightarrow> Inl (DuplicateCommitment (commitment_display c))
      | None \<Rightarrow>
      (case config_affinity np (cli_cpu_affinity cli) (to_cpu_affinity overlay) of
        Inl e \<Rightarrow> Inl (CpuAffinityParse e)
      | Inr parsed \<Rightarrow>
      (let cpu_affinity = (if cli_realtime cli then parsed\<lparr>as_processor := None\<rparr> else parsed)
       in case config_endpoint2 cli of
        Inl e \<Rightarrow> Inl e
      | Inr endpoint2 \<Rightarrow>
          Inr \<lparr>cf_endpoint1 = \<lparr>es_url = cli_endpoint1 cli, es_x_token = cli_x_token1 cli, es_tls_forced = cli_endpoint1_tls cli\<rparr>,
               cf_endpoint2 = endpoint2,
               cf_entries_endpoint1 = build_optional_endpoint (cli_entries_endpoint1 cli) (cli_entries_x_token1 cli) (cli_entries_endpoint1_tls cli),
               cf_entries_endpoint2 = build_optional_endpoint (cli_entries_endpoint2 cli) (cli_entries_x_token2 cli) (cli_entries_endpoint2_tls cli),
               cf_programs_path = cli_programs cli, cf_stop = stop, cf_commitments = cli_commitment cli,
               cf_with_blocks = cli_with_blocks cli, cf_with_transactions = cli_with_transactions cli,
               cf_strict_account_key = cli_strict_account_key cli,
               cf_accounts_programs_per_filter = max (cli_accounts_programs_per_filter cli) 1,
               cf_reconnect_test_secs = cli_reconnect_test cli, cf_output = cli_output cli,
               cf_raw_records = (case cli_raw_records cli of Some r \<Rightarrow> Some r | None \<Rightarrow> to_raw_records overlay),
               cf_cpu_affinity = cpu_affinity, cf_realtime = cli_realtime cli, cf_allocator = cli_allocator cli,
               cf_log_level = config_log_level (cli_log_level cli) (to_log_level overlay),
               cf_solo = cli_solo cli, cf_solo_streams = cli_solo_streams cli,
               cf_max_decode_mb = cli_max_decode_mb cli, cf_ring_capacity = cli_ring_capacity cli\<rparr>))))))"

text \<open>The overlay a \<open>--config\<close> path leads to: reading, then parsing, either of which may fail.\<close>

definition load_toml_overlay :: "string + 'f \<Rightarrow> ('f \<Rightarrow> string + toml_overlay) \<Rightarrow> config_error + toml_overlay" where
  "load_toml_overlay file toml_from_str =
     (case file of Inl e \<Rightarrow> Inl (TomlRead e)
      | Inr raw \<Rightarrow> (case toml_from_str raw of Inl e \<Rightarrow> Inl (TomlParse e) | Inr t \<Rightarrow> Inr t))"

definition from_cli :: "nat option \<Rightarrow> (string \<Rightarrow> string + 'f) \<Rightarrow> ('f \<Rightarrow> string + toml_overlay) \<Rightarrow> cli \<Rightarrow> config_error + config" where
  "from_cli np read_file toml_from_str cli =
     (case cli_config cli of
        None \<Rightarrow> from_cli_and_overlay np cli toml_overlay_default
      | Some p \<Rightarrow>
          (case load_toml_overlay (read_file p) toml_from_str of
             Inl e \<Rightarrow> Inl e
           | Inr overlay \<Rightarrow> from_cli_and_overlay np cli overlay))"

section \<open>What a valid configuration guarantees\<close>

definition config_ok :: "config \<Rightarrow> bool" where
  "config_ok c \<longleftrightarrow> cf_commitments c \<noteq> [] \<and> distinct (cf_commitments c)
     \<and> 1 \<le> unat (cf_accounts_programs_per_filter c)
     \<and> (cf_solo c \<longleftrightarrow> cf_endpoint2 c = None)
     \<and> (\<not> cf_realtime c \<or> as_processor (cf_cpu_affinity c) = None)"

lemma duplicate_commitment_None: "duplicate_commitment seen cs = None \<longleftrightarrow> distinct cs \<and> set seen \<inter> set cs = {}"
  by (induction seen cs rule: duplicate_commitment.induct) auto

lemma from_cli_and_overlay_Inr:
  assumes "from_cli_and_overlay np cli overlay = Inr c"
  obtains stop parsed e2 where
    "stop_condition_of (cli_slots cli) (cli_duration cli) = Some stop"
    "validate_entries_pair 1 (cli_entries_endpoint1 cli) (cli_entries_x_token1 cli) = None"
    "validate_entries_pair 2 (cli_entries_endpoint2 cli) (cli_entries_x_token2 cli) = None"
    "cli_commitment cli \<noteq> []" "duplicate_commitment [] (cli_commitment cli) = None"
    "config_affinity np (cli_cpu_affinity cli) (to_cpu_affinity overlay) = Inr parsed"
    "config_endpoint2 cli = Inr e2"
    "cf_stop c = stop" "cf_endpoint2 c = e2" "cf_commitments c = cli_commitment cli" "cf_solo c = cli_solo cli"
    "cf_realtime c = cli_realtime cli"
    "cf_accounts_programs_per_filter c = max (cli_accounts_programs_per_filter cli) 1"
    "cf_cpu_affinity c = (if cli_realtime cli then parsed\<lparr>as_processor := None\<rparr> else parsed)"
    "cf_entries_endpoint1 c = build_optional_endpoint (cli_entries_endpoint1 cli) (cli_entries_x_token1 cli) (cli_entries_endpoint1_tls cli)"
    "cf_entries_endpoint2 c = build_optional_endpoint (cli_entries_endpoint2 cli) (cli_entries_x_token2 cli) (cli_entries_endpoint2_tls cli)"
proof -
  obtain stop where s: "stop_condition_of (cli_slots cli) (cli_duration cli) = Some stop"
    using assms by (cases "stop_condition_of (cli_slots cli) (cli_duration cli)") (simp_all add: from_cli_and_overlay_def)
  have v1: "validate_entries_pair 1 (cli_entries_endpoint1 cli) (cli_entries_x_token1 cli) = None"
    using assms s by (cases "validate_entries_pair 1 (cli_entries_endpoint1 cli) (cli_entries_x_token1 cli)") (simp_all add: from_cli_and_overlay_def)
  have v2: "validate_entries_pair 2 (cli_entries_endpoint2 cli) (cli_entries_x_token2 cli) = None"
    using assms s v1 by (cases "validate_entries_pair 2 (cli_entries_endpoint2 cli) (cli_entries_x_token2 cli)") (simp_all add: from_cli_and_overlay_def)
  have ne: "cli_commitment cli \<noteq> []" using assms s v1 v2 by (auto simp: from_cli_and_overlay_def)
  have d: "duplicate_commitment [] (cli_commitment cli) = None"
    using assms s v1 v2 ne by (cases "duplicate_commitment [] (cli_commitment cli)") (simp_all add: from_cli_and_overlay_def)
  obtain parsed where p: "config_affinity np (cli_cpu_affinity cli) (to_cpu_affinity overlay) = Inr parsed"
    using assms s v1 v2 ne d by (cases "config_affinity np (cli_cpu_affinity cli) (to_cpu_affinity overlay)") (simp_all add: from_cli_and_overlay_def)
  obtain e2 where e: "config_endpoint2 cli = Inr e2"
    using assms s v1 v2 ne d p by (cases "config_endpoint2 cli") (simp_all add: from_cli_and_overlay_def)
  note c = assms [unfolded from_cli_and_overlay_def s v1 v2 d p e Let_def, simplified ne option.case sum.case if_False sum.inject]
  show thesis by (rule that [OF s v1 v2 ne d p e]) (use c in \<open>auto simp: ne\<close>)
qed

lemma from_cli_config_ok:
  assumes "from_cli np read_file toml_from_str cli = Inr c"
  shows "config_ok c"
proof -
  obtain overlay where o': "from_cli_and_overlay np cli overlay = Inr c"
    using assms by (auto simp: from_cli_def split: option.splits sum.splits)
  show ?thesis
  proof (rule from_cli_and_overlay_Inr [OF o'])
    fix stop parsed e2
    assume a: "cli_commitment cli \<noteq> []" "duplicate_commitment [] (cli_commitment cli) = None"
      "config_endpoint2 cli = Inr e2"
      "cf_endpoint2 c = e2" "cf_commitments c = cli_commitment cli" "cf_solo c = cli_solo cli" "cf_realtime c = cli_realtime cli"
      "cf_accounts_programs_per_filter c = max (cli_accounts_programs_per_filter cli) 1"
      "cf_cpu_affinity c = (if cli_realtime cli then parsed\<lparr>as_processor := None\<rparr> else parsed)"
    have "1 \<le> max (cli_accounts_programs_per_filter cli) 1" by simp
    then have m: "1 \<le> unat (max (cli_accounts_programs_per_filter cli) 1)" by (simp add: word_le_nat_alt)
    have "cli_solo cli \<longleftrightarrow> e2 = None"
      using a(3) by (auto simp: config_endpoint2_def split: if_splits option.splits)
    moreover have "distinct (cli_commitment cli)" using a(2) by (simp add: duplicate_commitment_None)
    ultimately show ?thesis using a(1) m by (simp add: config_ok_def a(4-9))
  qed
qed

text \<open>C33. Validation establishes the configuration invariant: whatever the command line and the overlay contain, an
  accepted configuration has at least one commitment and none twice, at least one program per accounts filter, a
  second endpoint exactly when it is not a solo run, and never a pinned processor together with real-time
  scheduling; and an entries endpoint is configured exactly when its URL was given.\<close>

theorem config_validated:
  assumes "from_cli np read_file toml_from_str cli = Inr c"
  shows "config_ok c
    \<and> (cf_entries_endpoint1 c \<noteq> None \<longleftrightarrow> cli_entries_endpoint1 cli \<noteq> None)
    \<and> (cf_entries_endpoint2 c \<noteq> None \<longleftrightarrow> cli_entries_endpoint2 cli \<noteq> None)
    \<and> (cli_slots cli \<noteq> None \<or> cli_duration cli \<noteq> None)"
proof -
  obtain overlay where o': "from_cli_and_overlay np cli overlay = Inr c"
    using assms by (auto simp: from_cli_def split: option.splits sum.splits)
  show ?thesis
  proof (rule from_cli_and_overlay_Inr [OF o'])
    fix stop
    assume a: "stop_condition_of (cli_slots cli) (cli_duration cli) = Some stop"
      "validate_entries_pair 1 (cli_entries_endpoint1 cli) (cli_entries_x_token1 cli) = None"
      "validate_entries_pair 2 (cli_entries_endpoint2 cli) (cli_entries_x_token2 cli) = None"
      "cf_entries_endpoint1 c = build_optional_endpoint (cli_entries_endpoint1 cli) (cli_entries_x_token1 cli) (cli_entries_endpoint1_tls cli)"
      "cf_entries_endpoint2 c = build_optional_endpoint (cli_entries_endpoint2 cli) (cli_entries_x_token2 cli) (cli_entries_endpoint2_tls cli)"
    have "cf_entries_endpoint1 c \<noteq> None \<longleftrightarrow> cli_entries_endpoint1 cli \<noteq> None"
      using a(2) by (auto simp: a(4) validate_entries_pair_def build_optional_endpoint_def split: option.splits)
    moreover have "cf_entries_endpoint2 c \<noteq> None \<longleftrightarrow> cli_entries_endpoint2 cli \<noteq> None"
      using a(3) by (auto simp: a(5) validate_entries_pair_def build_optional_endpoint_def split: option.splits)
    moreover have "cli_slots cli \<noteq> None \<or> cli_duration cli \<noteq> None"
      using a(1) by (auto simp: stop_condition_of_def split: option.splits)
    ultimately show ?thesis using from_cli_config_ok [OF assms] by blast
  qed
qed

definition sample_cli :: cli where
  "sample_cli = \<lparr>cli_endpoint1 = ''a:1'', cli_x_token1 = ''t1'', cli_endpoint1_tls = False, cli_endpoint2 = Some ''b:1'',
     cli_x_token2 = Some ''t2'', cli_endpoint2_tls = False, cli_solo = False, cli_solo_streams = [Slots],
     cli_entries_endpoint1 = Some ''e:1'', cli_entries_x_token1 = Some ''t3'', cli_entries_endpoint1_tls = False,
     cli_entries_endpoint2 = None, cli_entries_x_token2 = None, cli_entries_endpoint2_tls = False,
     cli_programs = ''p.tsv'', cli_slots = Some 100, cli_duration = None, cli_commitment = [Com_Processed, Com_Confirmed],
     cli_with_blocks = True, cli_with_transactions = True, cli_strict_account_key = False,
     cli_accounts_programs_per_filter = 0, cli_reconnect_test = None, cli_output = ''o.json'', cli_raw_records = None,
     cli_config = None, cli_cpu_affinity = None, cli_realtime = True, cli_allocator = Jemalloc, cli_log_level = ''info'',
     cli_max_decode_mb = 256, cli_ring_capacity = 65536\<rparr>"

theorem config_validated_witness:
  "\<exists>c. from_cli None (\<lambda>_. Inl ''no file'') (\<lambda>_ :: unit. Inl ''no parse'') sample_cli = Inr c \<and> config_ok c
     \<and> cf_accounts_programs_per_filter c = 1 \<and> cf_entries_endpoint1 c \<noteq> None"
proof -
  obtain c where c: "from_cli None (\<lambda>_. Inl ''no file'') (\<lambda>_ :: unit. Inl ''no parse'') sample_cli = Inr c"
    "cf_accounts_programs_per_filter c = 1"
    by (simp add: from_cli_def from_cli_and_overlay_def sample_cli_def stop_condition_of_def validate_entries_pair_def
        config_affinity_def toml_overlay_default_def config_endpoint2_def max_def)
  show ?thesis using config_validated [OF c(1)] c by (auto simp: sample_cli_def)
qed

end
