(* ===== verification/Dispatcher.thy ===== *)
theory Dispatcher
  imports Stream_Matchers Stability Cross_Stream Ring Raw Config
begin

text \<open>
  The dispatcher thread of one endpoint (\<open>dispatch_event\<close>, \<open>dispatcher_thread_main\<close> in \<open>src/run.rs\<close>), the ring
  capacities and the stop condition. \<open>endpoint_state\<close> is what the thread owns, \<open>shared\<close> what it locks: the
  matchers, the raw log and the live slot counter. The loop is a machine whose position is the ring it is at,
  the number of events it took from it in this pass, and how far it is with the event it holds, so that a step
  is one access to something shared: the ring, its statistics, a matcher, the log, the slot counter.
\<close>

section \<open>Ring capacities and the stop condition\<close>

definition DEFAULT_RING_CAPACITY :: usize where
  "DEFAULT_RING_CAPACITY = 65536"

definition ring_capacity_for :: "subscription_role \<Rightarrow> usize \<Rightarrow> usize" where
  "ring_capacity_for role baseline =
     (let (mul_num, mul_den) =
        (case role of
           Main _ _ stream \<Rightarrow>
             (case stream of Accounts \<Rightarrow> (4, 1) | Transactions \<Rightarrow> (1, 1) | Blocks \<Rightarrow> (1, 2) | Slots \<Rightarrow> (1, 8))
         | Entries _ \<Rightarrow> (1, 1))
      in max (saturating_mul baseline mul_num div max mul_den 1) 1)"

text \<open>The elapsed time is in nanoseconds.\<close>

definition should_stop :: "config \<Rightarrow> nat \<Rightarrow> u64 \<Rightarrow> bool" where
  "should_stop c elapsed total_slots =
     (case cf_stop c of
        Stop_Slots n \<Rightarrow> n \<le> total_slots
      | Stop_Duration secs \<Rightarrow> unat secs * 1000000000 \<le> elapsed
      | Stop_Either slots duration \<Rightarrow> slots \<le> total_slots \<or> unat duration * 1000000000 \<le> elapsed)"

section \<open>One event\<close>

record ingest_counters_partial =
  ic_accounts :: u64
  ic_transactions :: u64
  ic_blocks :: u64
  ic_entries :: u64
  ic_last_counted_slot :: u64

definition ingest_counters_partial_default :: ingest_counters_partial where
  "ingest_counters_partial_default =
     \<lparr>ic_accounts = 0, ic_transactions = 0, ic_blocks = 0, ic_entries = 0, ic_last_counted_slot = 0\<rparr>"

record 'd endpoint_state =
  ds_stability :: "'d stability_tracker"
  ds_cross :: "'d cross_stream_tracker"
  ds_counters :: ingest_counters_partial

definition endpoint_state_new :: "'d runtime \<Rightarrow> endpoint_role \<Rightarrow> 'd endpoint_state" where
  "endpoint_state_new R e =
     \<lparr>ds_stability = st_new R e, ds_cross = cs_new R e, ds_counters = ingest_counters_partial_default\<rparr>"

record 'd shared =
  shd_matchers :: "'d stream_matchers"
  shd_raw_writer :: "raw_writer option"
  shd_total_slots :: u64

definition count_event :: "event \<Rightarrow> ingest_counters_partial \<Rightarrow> u64 \<Rightarrow> ingest_counters_partial \<times> u64" where
  "count_event ev counters total_slots =
     (case ev_payload ev of
        Slot_Payload slot stage \<Rightarrow>
          if ev_endpoint ev = One \<and> stage = Processed \<and> ic_last_counted_slot counters < slot
          then (counters\<lparr>ic_last_counted_slot := slot\<rparr>, total_slots + 1)
          else (counters, total_slots)
      | Account_Payload _ _ _ _ _ _ \<Rightarrow> (counters\<lparr>ic_accounts := ic_accounts counters + 1\<rparr>, total_slots)
      | Transaction_Payload _ _ _ \<Rightarrow> (counters\<lparr>ic_transactions := ic_transactions counters + 1\<rparr>, total_slots)
      | Block_Payload _ _ _ _ _ \<Rightarrow> (counters\<lparr>ic_blocks := ic_blocks counters + 1\<rparr>, total_slots)
      | Entry_Payload _ _ _ _ \<Rightarrow> (counters\<lparr>ic_entries := ic_entries counters + 1\<rparr>, total_slots))"

definition dispatch_event ::
  "'d runtime \<Rightarrow> raw_env \<Rightarrow> event \<Rightarrow> string option \<Rightarrow> 'd shared \<Rightarrow> 'd endpoint_state \<Rightarrow> 'd shared \<times> 'd endpoint_state" where
  "dispatch_event R E ev raw_io shd ds =
     (let (counters, total) = count_event ev (ds_counters ds) (shd_total_slots shd)
      in (\<lparr>shd_matchers = dispatch R ev (shd_matchers shd),
           shd_raw_writer = map_option (rw_write E raw_io ev) (shd_raw_writer shd),
           shd_total_slots = total\<rparr>,
          \<lparr>ds_stability = st_observe R ev (ds_stability ds), ds_cross = cs_observe R ev (ds_cross ds),
           ds_counters = counters\<rparr>))"

section \<open>The loop\<close>

definition DRAIN_BUDGET_PER_RING :: nat where
  "DRAIN_BUDGET_PER_RING = 1024"

definition DISPATCHER_POST_SHUTDOWN_BUDGET :: nat where
  "DISPATCHER_POST_SHUTDOWN_BUDGET = 2000000000"

text \<open>For evaluation: unary numbers of this size are out of reach.\<close>

lemma post_shutdown_budget_code [code_unfold]:
  "(DISPATCHER_POST_SHUTDOWN_BUDGET \<le> n) = (2000000000 \<le> int n)"
  by (simp add: DISPATCHER_POST_SHUTDOWN_BUDGET_def)

datatype dispatch_stage =
    At_Ring
  | At_Received event
  | At_Matchers event
  | At_Log event
  | At_Counters event

record 'd dispatcher =
  dp_state :: "'d endpoint_state"
  dp_stage :: dispatch_stage
  dp_ring :: nat
  dp_drained :: nat
  dp_got_any :: bool
  dp_shutdown_observed_at :: "nat option"
  dp_done :: bool

definition dp_new :: "'d runtime \<Rightarrow> endpoint_role \<Rightarrow> 'd dispatcher" where
  "dp_new R e = \<lparr>dp_state = endpoint_state_new R e, dp_stage = At_Ring, dp_ring = 0, dp_drained = 0, dp_got_any = False,
     dp_shutdown_observed_at = None, dp_done = False\<rparr>"

definition bump_received :: "event ring \<Rightarrow> event ring" where
  "bump_received r = r\<lparr>rg_stats := (rg_stats r)\<lparr>rs_received := rs_received (rg_stats r) + 1\<rparr>\<rparr>"

text \<open>The next event this position of the loop takes, if the loop is still inside a pass.\<close>

definition dp_next :: "event ring list \<Rightarrow> 'd dispatcher \<Rightarrow> event option" where
  "dp_next rings dp =
     (if dp_drained dp < DRAIN_BUDGET_PER_RING
      then (case ring_try_recv (rings ! dp_ring dp) of (Inr ev, _) \<Rightarrow> Some ev | (Inl _, _) \<Rightarrow> None) else None)"

text \<open>One step: take the next event or go on to the next ring; count it as received; hand it to the matchers (the
  trackers are the thread's own, so their update belongs to the same step); log it; count it by kind.\<close>

definition dp_step ::
  "'d runtime \<Rightarrow> raw_env \<Rightarrow> string option \<Rightarrow> event ring list \<times> 'd shared \<times> 'd dispatcher
     \<Rightarrow> event ring list \<times> 'd shared \<times> 'd dispatcher" where
  "dp_step R E raw_io x =
     (let (rings, shd, dp) = x; ds = dp_state dp
      in case dp_stage dp of
        At_Ring \<Rightarrow>
          (case dp_next rings dp of
             None \<Rightarrow> (rings, shd, dp\<lparr>dp_ring := dp_ring dp + 1, dp_drained := 0\<rparr>)
           | Some ev \<Rightarrow>
               (rings[dp_ring dp := snd (ring_try_recv (rings ! dp_ring dp))], shd,
                dp\<lparr>dp_stage := At_Received ev, dp_drained := dp_drained dp + 1, dp_got_any := True\<rparr>))
      | At_Received ev \<Rightarrow>
          (rings[dp_ring dp := bump_received (rings ! dp_ring dp)], shd, dp\<lparr>dp_stage := At_Matchers ev\<rparr>)
      | At_Matchers ev \<Rightarrow>
          (rings, shd\<lparr>shd_matchers := dispatch R ev (shd_matchers shd)\<rparr>,
           dp\<lparr>dp_stage := At_Log ev, dp_state := ds\<lparr>ds_stability := st_observe R ev (ds_stability ds),
                ds_cross := cs_observe R ev (ds_cross ds)\<rparr>\<rparr>)
      | At_Log ev \<Rightarrow>
          (rings, shd\<lparr>shd_raw_writer := map_option (rw_write E raw_io ev) (shd_raw_writer shd)\<rparr>, dp\<lparr>dp_stage := At_Counters ev\<rparr>)
      | At_Counters ev \<Rightarrow>
          (let (counters, total) = count_event ev (ds_counters ds) (shd_total_slots shd)
           in (rings, shd\<lparr>shd_total_slots := total\<rparr>, dp\<lparr>dp_stage := At_Ring, dp_state := ds\<lparr>ds_counters := counters\<rparr>\<rparr>)))"

text \<open>Undisturbed, the five steps for an event are one call of \<open>dispatch_event\<close>.\<close>

lemma dp_steps_dispatch_event:
  assumes "dp_stage dp = At_Ring" and "dp_next rings dp = Some ev" and "dp_ring dp < length rings"
    and "(shd', ds') = dispatch_event R E ev io shd (dp_state dp)"
  shows "fold (dp_step R E) [io1, io2, io3, io, io4] (rings, shd, dp) =
    (rings[dp_ring dp := bump_received (snd (ring_try_recv (rings ! dp_ring dp)))], shd',
     dp\<lparr>dp_state := ds', dp_drained := dp_drained dp + 1, dp_got_any := True\<rparr>)"
  using assms by (auto simp: dp_step_def dispatch_event_def Let_def split: prod.splits)

text \<open>The end of a pass: \<open>now\<close> is the clock, read only when the flag is set.\<close>

definition dp_pass_end :: "bool \<Rightarrow> nat \<Rightarrow> 'd dispatcher \<Rightarrow> 'd dispatcher" where
  "dp_pass_end is_shutdown now dp =
     (let next_pass = dp\<lparr>dp_ring := 0, dp_drained := 0, dp_got_any := False\<rparr>
      in if is_shutdown
         then (let started = (case dp_shutdown_observed_at dp of None \<Rightarrow> now | Some t \<Rightarrow> t)
               in if \<not> dp_got_any dp \<or> DISPATCHER_POST_SHUTDOWN_BUDGET \<le> now - started
                  then dp\<lparr>dp_shutdown_observed_at := Some started, dp_done := True\<rparr>
                  else next_pass\<lparr>dp_shutdown_observed_at := Some started\<rparr>)
         else next_pass)"

section \<open>Capacities\<close>

definition capacity_ratio :: "subscription_role \<Rightarrow> nat \<times> nat" where
  "capacity_ratio role =
     (case role of Main _ _ Accounts \<Rightarrow> (4, 1) | Main _ _ Transactions \<Rightarrow> (1, 1) | Main _ _ Blocks \<Rightarrow> (1, 2)
      | Main _ _ Slots \<Rightarrow> (1, 8) | Entries _ \<Rightarrow> (1, 1))"

lemma unat_max_1: "unat (max (a :: usize) 1) = max (unat a) 1"
  by (simp add: max_def word_le_nat_alt)

text \<open>Creating a ring never panics: for every subscription role and every \<open>--ring-capacity\<close>, zero included,
  the computed capacity is positive, so the ring exists; it is the baseline times the ratio of the role's kind,
  saturated at the word size, rounded down, and at least one event.\<close>

theorem ring_capacities_valid:
  "(\<exists>r. ring_with_capacity (ring_capacity_for role baseline) = Some (r :: event ring))
   \<and> (let (num, den) = capacity_ratio role
      in unat (ring_capacity_for role baseline) = max (min (unat baseline * num) (2 ^ 64 - 1) div den) 1)"
proof -
  have b: "unat baseline < 2 ^ 64" using unsigned_less [of baseline, where 'a = nat] by simp
  have d: "max (2 :: usize) 1 = 2" "max (8 :: usize) 1 = 8" "unat (2 :: usize) = 2" "unat (8 :: usize) = 8" by simp_all
  have v: "let (num, den) = capacity_ratio role
      in unat (ring_capacity_for role baseline) = max (min (unat baseline * num) (2 ^ 64 - 1) div den) 1"
    using b by (auto simp: capacity_ratio_def ring_capacity_for_def Let_def unat_max_1 unat_saturating_mul
        unat_div d split: subscription_role.split main_stream.split)
  then have "1 \<le> unat (ring_capacity_for role baseline)" by (auto simp: Let_def split: prod.splits)
  then have "0 < ring_capacity_for role baseline" by (simp add: word_less_nat_alt)
  then show ?thesis using v by (simp add: ring_with_capacity_def)
qed

section \<open>Events in sequence\<close>

text \<open>The run as one stream: every event reaches the shared state and the state of its own endpoint.\<close>

definition process :: "'d runtime \<Rightarrow> raw_env \<Rightarrow> event \<times> string option \<Rightarrow>
    'd shared \<times> (endpoint_role \<Rightarrow> 'd endpoint_state) \<Rightarrow> 'd shared \<times> (endpoint_role \<Rightarrow> 'd endpoint_state)" where
  "process R E x s =
     (let (ev, io) = x; (shd', ds') = dispatch_event R E ev io (fst s) (snd s (ev_endpoint ev))
      in (shd', (snd s)(ev_endpoint ev := ds')))"

lemma process_fields:
  "shd_matchers (fst (process R E (ev, io) s)) = dispatch R ev (shd_matchers (fst s))"
  "shd_raw_writer (fst (process R E (ev, io) s)) = map_option (rw_write E io ev) (shd_raw_writer (fst s))"
  "ds_stability (snd (process R E (ev, io) s) e) =
     (if ev_endpoint ev = e then st_observe R ev (ds_stability (snd s e)) else ds_stability (snd s e))"
  "ds_cross (snd (process R E (ev, io) s) e) =
     (if ev_endpoint ev = e then cs_observe R ev (ds_cross (snd s e)) else ds_cross (snd s e))"
  "ds_counters (snd (process R E (ev, io) s) e) =
     (if ev_endpoint ev = e then fst (count_event ev (ds_counters (snd s e)) (shd_total_slots (fst s))) else ds_counters (snd s e))"
  "shd_total_slots (fst (process R E (ev, io) s)) =
     snd (count_event ev (ds_counters (snd s (ev_endpoint ev))) (shd_total_slots (fst s)))"
  by (auto simp: process_def dispatch_event_def Let_def split: prod.split)

lemma process_fold_matchers:
  "shd_matchers (fst (fold (process R E) xs s)) = fold (dispatch R) (map fst xs) (shd_matchers (fst s))"
  by (induction xs arbitrary: s) (auto simp: process_fields)

text \<open>A tracker sees exactly its own endpoint's events.\<close>

lemma process_fold_stability:
  "ds_stability (snd (fold (process R E) xs s) e) =
     fold (st_observe R) (filter (\<lambda>ev. ev_endpoint ev = e) (map fst xs)) (ds_stability (snd s e))"
  by (induction xs arbitrary: s) (auto simp: process_fields)

lemma process_fold_cross:
  "ds_cross (snd (fold (process R E) xs s) e) =
     fold (cs_observe R) (filter (\<lambda>ev. ev_endpoint ev = e) (map fst xs)) (ds_cross (snd s e))"
  by (induction xs arbitrary: s) (auto simp: process_fields)

text \<open>The slots endpoint 1 reported as processed, and the arrivals that exceed all earlier ones.\<close>

definition processed_slots :: "event list \<Rightarrow> u64 list" where
  "processed_slots evs = concat (map (\<lambda>ev. case ev_payload ev of
     Slot_Payload slot Processed \<Rightarrow> if ev_endpoint ev = One then [slot] else [] | _ \<Rightarrow> []) evs)"

fun new_maxima :: "'a::linorder \<Rightarrow> 'a list \<Rightarrow> 'a list" where
  "new_maxima m [] = []"
| "new_maxima m (x # xs) = (if m < x then x # new_maxima x xs else new_maxima m xs)"

lemma new_maxima_set: "set (new_maxima m xs) \<subseteq> {x \<in> set xs. m < x}"
proof (induction xs arbitrary: m)
  case (Cons x xs)
  show ?case using Cons.IH [of x] Cons.IH [of m] by auto
qed simp

lemma new_maxima_distinct: "distinct (new_maxima m xs)"
proof (induction xs arbitrary: m)
  case (Cons x xs)
  then show ?case using new_maxima_set [of x xs] by auto
qed simp

lemma new_maxima_sorted: "sorted xs \<Longrightarrow> set (new_maxima m xs) = {x \<in> set xs. m < x}"
proof (induction xs arbitrary: m)
  case (Cons x xs)
  then have s: "sorted xs" "\<forall>y \<in> set xs. x \<le> y" by simp_all
  show ?case
  proof (cases "m < x")
    case True
    have "{y \<in> set (x # xs). m < y} = insert x {y \<in> set xs. x < y}" using s(2) True by (auto simp: less_le)
    then show ?thesis using Cons.IH [OF s(1), of x] True by simp
  next
    case False
    then show ?thesis using Cons.IH [OF s(1), of m] by auto
  qed
qed simp

text \<open>The counters and the slot counter depend on the counted events alone.\<close>

definition tally :: "event \<Rightarrow> u64 \<times> (endpoint_role \<Rightarrow> ingest_counters_partial) \<Rightarrow> u64 \<times> (endpoint_role \<Rightarrow> ingest_counters_partial)" where
  "tally ev x = (let (k, n) = count_event ev (snd x (ev_endpoint ev)) (fst x) in (n, (snd x)(ev_endpoint ev := k)))"

definition tallied_state :: "'d shared \<times> (endpoint_role \<Rightarrow> 'd endpoint_state) \<Rightarrow> u64 \<times> (endpoint_role \<Rightarrow> ingest_counters_partial)" where
  "tallied_state s = (shd_total_slots (fst s), \<lambda>e. ds_counters (snd s e))"

lemma process_fold_tally: "tallied_state (fold (process R E) xs s) = fold tally (map fst xs) (tallied_state s)"
proof (induction xs arbitrary: s)
  case (Cons x xs)
  obtain ev io where x: "x = (ev, io)" by (cases x)
  have "tallied_state (process R E x s) = tally ev (tallied_state s)"
    by (auto simp: x tallied_state_def tally_def process_fields Let_def fun_eq_iff split: prod.split)
  then show ?case using Cons.IH [of "process R E x s"] by (simp add: x)
qed simp

lemma tally_total:
  "fst (fold tally evs (n, k)) = n + of_nat (length (new_maxima (ic_last_counted_slot (k One)) (processed_slots evs)))"
proof (induction evs arbitrary: n k)
  case (Cons ev evs)
  obtain n' k' where t: "tally ev (n, k) = (n', k')" by (cases "tally ev (n, k)")
  have cnt: "n' = n + of_nat (length (new_maxima (ic_last_counted_slot (k One)) (processed_slots [ev])))"
    "processed_slots [ev] = [] \<Longrightarrow> ic_last_counted_slot (k' One) = ic_last_counted_slot (k One)"
    "processed_slots [ev] = [v] \<Longrightarrow> ic_last_counted_slot (k' One) = max (ic_last_counted_slot (k One)) v" for v
    using t by (auto simp: tally_def processed_slots_def count_event_def max_def Let_def
        split: event_payload.splits slot_stage.splits if_splits prod.splits)
  have app: "processed_slots (ev # evs) = processed_slots [ev] @ processed_slots evs" by (simp add: processed_slots_def)
  have "processed_slots [ev] = [] \<or> (\<exists>v. processed_slots [ev] = [v])"
    by (simp add: processed_slots_def split: event_payload.split slot_stage.split)
  then consider "processed_slots [ev] = []" | v where "processed_slots [ev] = [v]" by blast
  then show ?case
  proof cases
    case 1
    then show ?thesis using Cons.IH [of n' k'] cnt(1) cnt(2) by (simp add: app t)
  next
    case 2
    then show ?thesis using Cons.IH [of n' k'] cnt(1) cnt(3) [OF 2] by (auto simp: app t max_def)
  qed
qed (simp add: processed_slots_def)

lemma process_fold_total:
  "shd_total_slots (fst (fold (process R E) xs s)) =
     shd_total_slots (fst s)
       + of_nat (length (new_maxima (ic_last_counted_slot (ds_counters (snd s One))) (processed_slots (map fst xs))))"
  using arg_cong [OF process_fold_tally [of R E xs s], of fst] by (simp add: tallied_state_def tally_total)

text \<open>An endpoint's counters only see its own events, the slot counter only those of endpoint 1.\<close>

definition of_endpoint :: "endpoint_role \<Rightarrow> event list \<Rightarrow> event list" where
  "of_endpoint e evs = filter (\<lambda>ev. ev_endpoint ev = e) evs"

lemma of_endpoint_simps [simp]:
  "of_endpoint e [] = []" "of_endpoint e (ev # evs) = (if ev_endpoint ev = e then ev # of_endpoint e evs else of_endpoint e evs)"
  "of_endpoint e (evs @ evs') = of_endpoint e evs @ of_endpoint e evs'"
  by (simp_all add: of_endpoint_def)

lemma processed_slots_of_endpoint: "processed_slots (of_endpoint One evs) = processed_slots evs"
  by (induction evs) (auto simp: processed_slots_def split: event_payload.split slot_stage.split)

lemma count_event_counters_indep: "fst (count_event ev k n) = fst (count_event ev k 0)"
  by (simp add: count_event_def split: event_payload.split)

lemma tally_counters:
  "snd (fold tally evs (n, k)) e = fold (\<lambda>ev k. fst (count_event ev k 0)) (of_endpoint e evs) (k e)"
proof (induction evs arbitrary: n k)
  case (Cons ev evs)
  obtain n' k' where t: "tally ev (n, k) = (n', k')" by (cases "tally ev (n, k)")
  have "k' e = (if ev_endpoint ev = e then fst (count_event ev (k e) 0) else k e)"
    using t count_event_counters_indep [of ev "k (ev_endpoint ev)" n] by (auto simp: tally_def Let_def split: prod.splits)
  then show ?case using Cons.IH [of n' k'] by (simp add: t)
qed simp

text \<open>So two orders that agree on each endpoint count the same.\<close>

lemma fold_tally_cong:
  assumes "\<And>e. of_endpoint e evs = of_endpoint e evs'"
  shows "fold tally evs x = fold tally evs' x"
proof -
  obtain n k where x: "x = (n, k)" by (cases x)
  have "fst (fold tally evs x) = fst (fold tally evs' x)"
    unfolding x tally_total using assms [of One] by (metis processed_slots_of_endpoint)
  moreover have "snd (fold tally evs x) = snd (fold tally evs' x)" unfolding x by (simp add: fun_eq_iff tally_counters assms)
  ultimately show ?thesis by (simp add: prod_eq_iff)
qed

definition shared_new :: "'d runtime \<Rightarrow> bool \<Rightarrow> (pubkey32, string) hmap \<Rightarrow> raw_writer option \<Rightarrow> 'd shared" where
  "shared_new R strict names raw =
     \<lparr>shd_matchers = sms_with_strict_account_key strict (sms_new R names), shd_raw_writer = raw, shd_total_slots = 0\<rparr>"

text \<open>C25. The slot counter behind \<open>--slots\<close> counts the processed slots of endpoint 1 that exceed every earlier one:
  modulo two to the 64 it is the number of those new maxima, which are distinct, non-zero slots of that stream,
  so it never exceeds the number of distinct slots, and it equals it when the slots arrive in order. A slot
  that arrives after a higher one is not counted.\<close>

theorem slots_counted:
  assumes "evs = map fst xs"
    and "shd = fst (fold (process R E) xs (shared_new R strict names raw, endpoint_state_new R))"
  shows "shd_total_slots shd = of_nat (length (new_maxima 0 (processed_slots evs)))
    \<and> length (new_maxima 0 (processed_slots evs)) \<le> card (set (processed_slots evs) - {0})
    \<and> (sorted (processed_slots evs) \<longrightarrow>
         shd_total_slots shd = of_nat (card (set (processed_slots evs) - {0})))"
proof -
  let ?ps = "processed_slots evs"
  have tot: "shd_total_slots shd = of_nat (length (new_maxima 0 ?ps))"
    by (simp add: assms process_fold_total shared_new_def endpoint_state_new_def ingest_counters_partial_default_def)
  have nz: "{x \<in> set ?ps. 0 < x} = set ?ps - {0}" by (auto simp: word_neq_0_conv)
  have len: "length (new_maxima 0 ?ps) = card (set (new_maxima 0 ?ps))" by (simp add: distinct_card new_maxima_distinct)
  have "set (new_maxima 0 ?ps) \<subseteq> set ?ps - {0}" using new_maxima_set [of 0 ?ps] unfolding nz .
  then have le: "length (new_maxima 0 ?ps) \<le> card (set ?ps - {0})" unfolding len by (intro card_mono) simp_all
  have "sorted ?ps \<Longrightarrow> length (new_maxima 0 ?ps) = card (set ?ps - {0})"
    unfolding len by (simp add: new_maxima_sorted nz)
  then show ?thesis using tot le by simp
qed

definition processed_arrival :: "u64 \<Rightarrow> event \<times> string option" where
  "processed_arrival slot = (\<lparr>ev_ts = \<lparr>mono_ns = 0, wall_ms = 0\<rparr>, ev_subscription = Main One Com_Processed Slots,
     ev_payload = Slot_Payload slot Processed\<rparr>, None)"

theorem slots_counted_witness:
  "shd_total_slots (fst (fold (process list_runtime toy_raw_env) (map processed_arrival [5, 7, 6, 7])
      (shared_new list_runtime False [] None, endpoint_state_new list_runtime))) = 2
   \<and> shd_total_slots (fst (fold (process list_runtime toy_raw_env) (map processed_arrival [5, 6, 7])
      (shared_new list_runtime False [] None, endpoint_state_new list_runtime))) = 3"
proof -
  have p: "processed_slots (map fst (map processed_arrival [5, 7, 6, 7])) = [5, 7, 6, 7]"
    "processed_slots (map fst (map processed_arrival [5, 6, 7])) = [5, 6, 7]"
    by (simp_all add: processed_slots_def processed_arrival_def)
  have n: "new_maxima 0 [5, 7, 6, 7 :: u64] = [5, 7]" "new_maxima 0 [5, 6, 7 :: u64] = [5, 6, 7]" by simp_all
  show ?thesis
    using slots_counted [OF refl refl, of list_runtime toy_raw_env "map processed_arrival [5, 7, 6, 7]" False "[]" None]
      slots_counted [OF refl refl, of list_runtime toy_raw_env "map processed_arrival [5, 6, 7]" False "[]" None]
    unfolding p n by simp
qed

end
