(* ===== verification/Subscribe.thy ===== *)
theory Subscribe
  imports Config Digest
begin

text \<open>
  The subscription plan and the request bodies (\<open>src/subscribe/mod.rs\<close>). Requests carry the fields of the
  generated \<open>SubscribeRequest\<close>; the filter maps are hash maps with string keys. \<open>programs.program_ids()\<close> is the
  argument \<open>ids\<close>.
\<close>

definition KNOWN_HEAVY_PROGRAMS :: "string list" where
  "KNOWN_HEAVY_PROGRAMS =
     [''11111111111111111111111111111111'', ''TokenkegQfeZyiNwAJbNbGKPFXCWuBvf9Ss623VQ5DA'',
      ''TokenzQdBNbLqP5VEhdkAS6EPFLC1PHnBqCXEpPxuEb'']"

definition is_known_heavy_program :: "string \<Rightarrow> bool" where
  "is_known_heavy_program p \<longleftrightarrow> p \<in> set KNOWN_HEAVY_PROGRAMS"

section \<open>Requests\<close>

definition SLOTS_FILTER :: string where "SLOTS_FILTER = ''slots-all''"
definition ACCOUNTS_FILTER :: string where "ACCOUNTS_FILTER = ''all-programs''"
definition TRANSACTIONS_FILTER :: string where "TRANSACTIONS_FILTER = ''all-programs-tx''"
definition BLOCKS_FILTER :: string where "BLOCKS_FILTER = ''all-blocks''"
definition ENTRIES_FILTER :: string where "ENTRIES_FILTER = ''all-entries''"

record accounts_filter =
  fa_account :: "string list"
  fa_owner :: "string list"
  fa_filters :: "unit list"
  fa_nonempty_txn_signature :: "bool option"

record slots_filter =
  fs_filter_by_commitment :: "bool option"
  fs_interslot_updates :: "bool option"

record transactions_filter =
  ft_vote :: "bool option"
  ft_failed :: "bool option"
  ft_signature :: "string option"
  ft_account_include :: "string list"
  ft_account_exclude :: "string list"
  ft_account_required :: "string list"

record blocks_filter =
  fb_account_include :: "string list"
  fb_include_transactions :: "bool option"
  fb_include_accounts :: "bool option"
  fb_include_entries :: "bool option"

text \<open>The protocol's own enumeration, which the requests carry.\<close>

datatype ys_commitment = Ys_Processed | Ys_Confirmed | Ys_Finalized

definition to_ys_commitment :: "commitment \<Rightarrow> ys_commitment" where
  "to_ys_commitment c =
     (case c of Com_Processed \<Rightarrow> Ys_Processed | Com_Confirmed \<Rightarrow> Ys_Confirmed | Com_Finalized \<Rightarrow> Ys_Finalized)"

record subscribe_request =
  sr_accounts :: "(string, accounts_filter) hmap"
  sr_slots :: "(string, slots_filter) hmap"
  sr_transactions :: "(string, transactions_filter) hmap"
  sr_transactions_status :: "(string, transactions_filter) hmap"
  sr_blocks :: "(string, blocks_filter) hmap"
  sr_blocks_meta :: "(string, unit) hmap"
  sr_entry :: "(string, unit) hmap"
  sr_commitment :: "ys_commitment option"
  sr_accounts_data_slice :: "unit list"
  sr_ping :: "unit option"
  sr_from_slot :: "u64 option"

definition empty_request :: subscribe_request where
  "empty_request = \<lparr>sr_accounts = [], sr_slots = [], sr_transactions = [], sr_transactions_status = [], sr_blocks = [],
     sr_blocks_meta = [], sr_entry = [], sr_commitment = None, sr_accounts_data_slice = [], sr_ping = None,
     sr_from_slot = None\<rparr>"

definition build_slot_request :: subscribe_request where
  "build_slot_request = empty_request
     \<lparr>sr_slots := [(SLOTS_FILTER, \<lparr>fs_filter_by_commitment = Some False, fs_interslot_updates = Some True\<rparr>)]\<rparr>"

definition build_main_request_for :: "commitment \<Rightarrow> string list \<Rightarrow> main_stream \<Rightarrow> subscribe_request" where
  "build_main_request_for c ids stream =
     (let base = empty_request\<lparr>sr_commitment := Some (to_ys_commitment c)\<rparr>
      in case stream of
           Slots \<Rightarrow> base\<lparr>sr_slots := [(SLOTS_FILTER, \<lparr>fs_filter_by_commitment = Some False, fs_interslot_updates = Some True\<rparr>)]\<rparr>
         | Accounts \<Rightarrow> base\<lparr>sr_accounts := [(ACCOUNTS_FILTER, \<lparr>fa_account = [], fa_owner = ids, fa_filters = [], fa_nonempty_txn_signature = None\<rparr>)]\<rparr>
         | Transactions \<Rightarrow> base\<lparr>sr_transactions := [(TRANSACTIONS_FILTER,
             \<lparr>ft_vote = Some False, ft_failed = Some False, ft_signature = None, ft_account_include = ids,
              ft_account_exclude = [], ft_account_required = []\<rparr>)]\<rparr>
         | Blocks \<Rightarrow> base\<lparr>sr_blocks := [(BLOCKS_FILTER, \<lparr>fb_account_include = [], fb_include_transactions = Some True,
             fb_include_accounts = Some False, fb_include_entries = Some False\<rparr>)]\<rparr>)"

definition build_entries_request :: "commitment \<Rightarrow> subscribe_request" where
  "build_entries_request c = empty_request
     \<lparr>sr_slots := [(SLOTS_FILTER, \<lparr>fs_filter_by_commitment = Some False, fs_interslot_updates = Some False\<rparr>)],
      sr_entry := [(ENTRIES_FILTER, ())], sr_commitment := Some (to_ys_commitment c)\<rparr>"

section \<open>The plan\<close>

record subscription_spec =
  sp_role :: subscription_role
  sp_endpoint :: endpoint_spec
  sp_request :: subscribe_request

definition first_commitment :: "config \<Rightarrow> commitment" where
  "first_commitment c = (case cf_commitments c of [] \<Rightarrow> Com_Processed | x # _ \<Rightarrow> x)"

text \<open>The solo loop keeps the first occurrence of each stream.\<close>

fun dedup_streams :: "main_stream list \<Rightarrow> main_stream list \<Rightarrow> main_stream list" where
  "dedup_streams seen [] = []"
| "dedup_streams seen (s # ss) = (if s \<in> set seen then dedup_streams seen ss else s # dedup_streams (s # seen) ss)"

definition solo_specs :: "config \<Rightarrow> string list \<Rightarrow> subscription_spec list" where
  "solo_specs c ids =
     (let com = first_commitment c
      in map (\<lambda>s. \<lparr>sp_role = Main One com s, sp_endpoint = cf_endpoint1 c, sp_request = build_main_request_for com ids s\<rparr>)
           (dedup_streams [] (cf_solo_streams c)))"

definition accounts_groups :: "nat \<Rightarrow> string list \<Rightarrow> string list list" where
  "accounts_groups chunk_size ids =
     map (\<lambda>p. [p]) (filter is_known_heavy_program ids) @ chunks chunk_size (filter (\<lambda>p. \<not> is_known_heavy_program p) ids)"

definition other_streams :: "config \<Rightarrow> main_stream list" where
  "other_streams c = (if cf_with_transactions c then [Transactions] else []) @ (if cf_with_blocks c then [Blocks] else [])"

definition commitment_specs :: "config \<Rightarrow> string list \<Rightarrow> endpoint_role \<Rightarrow> endpoint_spec \<Rightarrow> commitment \<Rightarrow> subscription_spec list" where
  "commitment_specs c ids e ep com =
     (let chunk_size = max (unat (cf_accounts_programs_per_filter c)) 1
      in map (\<lambda>g. \<lparr>sp_role = Main e com Accounts, sp_endpoint = ep, sp_request = build_main_request_for com g Accounts\<rparr>)
           (accounts_groups chunk_size ids)
       @ map (\<lambda>s. \<lparr>sp_role = Main e com s, sp_endpoint = ep, sp_request = build_main_request_for com ids s\<rparr>) (other_streams c))"

definition endpoint_specs :: "config \<Rightarrow> string list \<Rightarrow> endpoint_role \<Rightarrow> subscription_spec list" where
  "endpoint_specs c ids e =
     (case (case e of One \<Rightarrow> Some (cf_endpoint1 c) | Two \<Rightarrow> cf_endpoint2 c) of
        None \<Rightarrow> []
      | Some ep \<Rightarrow>
          \<lparr>sp_role = Main e (first_commitment c) Slots, sp_endpoint = ep, sp_request = build_slot_request\<rparr>
          # concat (map (commitment_specs c ids e ep) (cf_commitments c)))"

definition entries_specs :: "config \<Rightarrow> subscription_spec list" where
  "entries_specs c =
     concat (map (\<lambda>(e, spec). case spec of
         None \<Rightarrow> []
       | Some ep \<Rightarrow> [\<lparr>sp_role = Entries e, sp_endpoint = ep, sp_request = build_entries_request (first_commitment c)\<rparr>])
       [(One, cf_entries_endpoint1 c), (Two, cf_entries_endpoint2 c)])"

definition plan_from_run_config :: "config \<Rightarrow> string list \<Rightarrow> subscription_spec list" where
  "plan_from_run_config c ids =
     (if cf_solo c then solo_specs c ids
      else endpoint_specs c ids One @ endpoint_specs c ids Two @ entries_specs c)"

section \<open>What a plan asks for\<close>

text \<open>The number of filters a request occupies on a server that caps them.\<close>

definition filter_count :: "subscribe_request \<Rightarrow> nat" where
  "filter_count r = length (sr_accounts r) + length (sr_slots r) + length (sr_transactions r)
     + length (sr_transactions_status r) + length (sr_blocks r) + length (sr_blocks_meta r) + length (sr_entry r)"

definition requested_owners :: "subscription_spec \<Rightarrow> string list" where
  "requested_owners s = concat (map (\<lambda>(_, f). fa_owner f) (sr_accounts (sp_request s)))"

definition accounts_specs :: "endpoint_role \<Rightarrow> commitment \<Rightarrow> subscription_spec list \<Rightarrow> subscription_spec list" where
  "accounts_specs e com specs = filter (\<lambda>s. sp_role s = Main e com Accounts) specs"

lemma filter_count_requests:
  "filter_count build_slot_request = 1" "filter_count (build_main_request_for c ids s) = 1"
  "filter_count (build_entries_request c) = 2"
  by (cases s; simp add: filter_count_def build_slot_request_def build_main_request_for_def build_entries_request_def empty_request_def)+

lemma commitment_specs_roles:
  "s \<in> set (commitment_specs c ids e ep com) \<Longrightarrow> \<exists>st. sp_role s = Main e com st \<and> st \<noteq> Slots"
  by (auto simp: commitment_specs_def other_streams_def Let_def split: if_splits)

lemma endpoint_specs_cases:
  assumes "s \<in> set (endpoint_specs c ids e)"
  obtains ep where "s = \<lparr>sp_role = Main e (first_commitment c) Slots, sp_endpoint = ep, sp_request = build_slot_request\<rparr>"
    | ep com where "com \<in> set (cf_commitments c)" and "s \<in> set (commitment_specs c ids e ep com)"
  using assms by (auto simp: endpoint_specs_def split: endpoint_role.splits option.splits)

lemma accounts_of_commitment:
  "accounts_specs e com (commitment_specs c ids e ep com) =
     map (\<lambda>g. \<lparr>sp_role = Main e com Accounts, sp_endpoint = ep, sp_request = build_main_request_for com g Accounts\<rparr>)
       (accounts_groups (max (unat (cf_accounts_programs_per_filter c)) 1) ids)"
  by (auto simp: accounts_specs_def commitment_specs_def other_streams_def Let_def filter_map comp_def)

lemma accounts_of_other:
  assumes "(e', com') \<noteq> (e, com)"
  shows "accounts_specs e com (commitment_specs c ids e' ep com') = []"
  using assms by (auto simp: accounts_specs_def filter_empty_conv dest: commitment_specs_roles)

lemma accounts_of_endpoint:
  assumes "distinct coms" and "com \<in> set coms"
  shows "accounts_specs e com (concat (map (commitment_specs c ids e ep) coms)) = accounts_specs e com (commitment_specs c ids e ep com)"
  using assms
proof (induction coms)
  case (Cons x coms)
  have none: "accounts_specs e com (concat (map (commitment_specs c ids e ep) ys)) = []" if "com \<notin> set ys" for ys
    using that
  proof (induction ys)
    case (Cons y ys)
    then have "(e, y) \<noteq> (e, com)" by auto
    then show ?case using Cons accounts_of_other [of e y e com c ids ep] by (simp add: accounts_specs_def)
  qed (simp add: accounts_specs_def)
  show ?case
  proof (cases "x = com")
    case True
    then show ?thesis using Cons.prems none [of coms] by (simp add: accounts_specs_def)
  next
    case False
    then show ?thesis
      using Cons accounts_of_other [of e x e com c ids ep] by (simp add: accounts_specs_def)
  qed
qed simp

lemma accounts_foreign:
  "e' \<noteq> e \<Longrightarrow> accounts_specs e com (endpoint_specs c ids e') = []"
  "accounts_specs e com (entries_specs c) = []"
  unfolding accounts_specs_def filter_empty_conv
  by (auto elim!: endpoint_specs_cases dest!: commitment_specs_roles simp: entries_specs_def split: option.splits)

lemma mset_accounts_groups: "0 < n \<Longrightarrow> mset (concat (accounts_groups n ids)) = mset ids"
proof -
  assume "0 < n"
  have "concat (map (\<lambda>p. [p]) xs) = xs" for xs :: "string list" by (induction xs) simp_all
  then have "mset (concat (accounts_groups n ids)) =
      mset (filter is_known_heavy_program ids) + mset (filter (\<lambda>p. \<not> is_known_heavy_program p) ids)"
    using \<open>0 < n\<close> by (simp add: accounts_groups_def concat_chunks)
  then show ?thesis by (metis mset_filter multiset_partition)
qed

lemma accounts_groups_bound:
  assumes "0 < n" and "g \<in> set (accounts_groups n ids)"
  shows "g \<noteq> [] \<and> length g \<le> n \<and> ((\<exists>p \<in> set g. is_known_heavy_program p) \<longrightarrow> length g = 1)"
proof -
  consider p where "g = [p]" | "g \<in> set (chunks n (filter (\<lambda>p. \<not> is_known_heavy_program p) ids))"
    using assms(2) by (auto simp: accounts_groups_def)
  then show ?thesis
  proof cases
    case 1
    then show ?thesis using assms(1) by simp
  next
    case 2
    have "set g \<subseteq> set (concat (chunks n (filter (\<lambda>p. \<not> is_known_heavy_program p) ids)))" using 2 by auto
    then have "\<forall>p \<in> set g. \<not> is_known_heavy_program p" using assms(1) by (auto simp: concat_chunks)
    then show ?thesis using chunks_lengths [OF 2] by auto
  qed
qed

text \<open>C28. Every program is subscribed exactly once. In a comparative plan, for either endpoint and every configured
  commitment, the owner lists of the accounts subscriptions together contain each program id exactly as often
  as the program set does; each list is non-empty and within the configured size, and a known-heavy program is
  always alone in its filter.\<close>

theorem plan_covers_programs:
  assumes "config_ok c" and "\<not> cf_solo c" and "com \<in> set (cf_commitments c)"
  shows "let specs = accounts_specs e com (plan_from_run_config c ids)
         in mset (concat (map requested_owners specs)) = mset ids
          \<and> (\<forall>s \<in> set specs. requested_owners s \<noteq> []
               \<and> length (requested_owners s) \<le> unat (cf_accounts_programs_per_filter c)
               \<and> ((\<exists>p \<in> set (requested_owners s). is_known_heavy_program p) \<longrightarrow> length (requested_owners s) = 1))"
proof -
  let ?n = "max (unat (cf_accounts_programs_per_filter c)) 1"
  have n: "?n = unat (cf_accounts_programs_per_filter c)" "0 < ?n" using assms(1) by (simp_all add: config_ok_def)
  obtain ep where ep: "(case e of One \<Rightarrow> Some (cf_endpoint1 c) | Two \<Rightarrow> cf_endpoint2 c) = Some ep"
    using assms(1,2) by (cases e) (auto simp: config_ok_def)
  have own: "accounts_specs e com (endpoint_specs c ids e) = accounts_specs e com (commitment_specs c ids e ep com)"
    using accounts_of_endpoint [of "cf_commitments c" com e c ids ep] assms
    by (simp add: endpoint_specs_def ep accounts_specs_def config_ok_def)
  have specs: "accounts_specs e com (plan_from_run_config c ids) = accounts_specs e com (endpoint_specs c ids e)"
    using assms(2) accounts_foreign(1) [of One e com c ids] accounts_foreign(1) [of Two e com c ids] accounts_foreign(2) [of e com c]
    by (cases e) (simp_all add: plan_from_run_config_def accounts_specs_def)
  have ow: "requested_owners \<lparr>sp_role = r, sp_endpoint = ep', sp_request = build_main_request_for com g Accounts\<rparr> = g" for r ep' g
    by (simp add: requested_owners_def build_main_request_for_def Let_def)
  have "map requested_owners (accounts_specs e com (plan_from_run_config c ids)) = accounts_groups ?n ids"
    unfolding specs own accounts_of_commitment by (simp add: comp_def ow)
  moreover have "\<forall>s \<in> set (accounts_specs e com (plan_from_run_config c ids)). requested_owners s \<in> set (accounts_groups ?n ids)"
    using calculation by (metis image_eqI list.set_map)
  ultimately show ?thesis
    using mset_accounts_groups [OF n(2), of ids] accounts_groups_bound [OF n(2), of _ ids] n(1)
    by (simp add: Let_def)
qed

definition mirror_role :: "subscription_role \<Rightarrow> subscription_role" where
  "mirror_role r = (case r of Main e com s \<Rightarrow> Main (other_role e) com s | Entries e \<Rightarrow> Entries (other_role e))"

lemma commitment_specs_mirror:
  "map (\<lambda>s. (sp_role s, sp_request s)) (commitment_specs c ids Two ep2 com)
     = map (\<lambda>s. (mirror_role (sp_role s), sp_request s)) (commitment_specs c ids One ep1 com)"
  by (simp add: commitment_specs_def Let_def mirror_role_def comp_def)

lemma endpoint_specs_mirror:
  assumes "cf_endpoint2 c = Some ep2"
  shows "map (\<lambda>s. (sp_role s, sp_request s)) (endpoint_specs c ids Two)
     = map (\<lambda>s. (mirror_role (sp_role s), sp_request s)) (endpoint_specs c ids One)"
proof -
  have "map (\<lambda>s. (sp_role s, sp_request s)) (concat (map (commitment_specs c ids Two ep2) coms))
     = map (\<lambda>s. (mirror_role (sp_role s), sp_request s)) (concat (map (commitment_specs c ids One (cf_endpoint1 c)) coms))" for coms
    by (induction coms) (simp_all add: commitment_specs_mirror [of c ids ep2 _ "cf_endpoint1 c"])
  then show ?thesis by (simp add: endpoint_specs_def assms mirror_role_def)
qed

definition main_specs :: "endpoint_role \<Rightarrow> subscription_spec list \<Rightarrow> subscription_spec list" where
  "main_specs e specs = filter (\<lambda>s. \<not> is_entries (sp_role s) \<and> role_endpoint (sp_role s) = e) specs"

definition slot_specs :: "endpoint_role \<Rightarrow> subscription_spec list \<Rightarrow> subscription_spec list" where
  "slot_specs e specs = filter (\<lambda>s. \<exists>com. sp_role s = Main e com Slots) specs"

lemma endpoint_specs_main:
  "main_specs e (endpoint_specs c ids e') = (if e' = e then endpoint_specs c ids e else [])"
  unfolding main_specs_def
  by (auto simp: filter_empty_conv filter_id_conv elim!: endpoint_specs_cases dest!: commitment_specs_roles)

lemma entries_specs_roles: "s \<in> set (entries_specs c) \<Longrightarrow> is_entries (sp_role s)"
  by (auto simp: entries_specs_def split: option.splits)

lemma main_specs_plan: "\<not> cf_solo c \<Longrightarrow> main_specs e (plan_from_run_config c ids) = endpoint_specs c ids e"
proof -
  assume "\<not> cf_solo c"
  then have "main_specs e (plan_from_run_config c ids)
      = main_specs e (endpoint_specs c ids One) @ main_specs e (endpoint_specs c ids Two) @ main_specs e (entries_specs c)"
    by (simp add: plan_from_run_config_def main_specs_def)
  moreover have "main_specs e (entries_specs c) = []"
    by (auto simp: main_specs_def filter_empty_conv dest: entries_specs_roles)
  ultimately show ?thesis by (cases e) (simp_all add: endpoint_specs_main)
qed

lemma slot_specs_main: "slot_specs e specs = slot_specs e (main_specs e specs)"
  by (auto simp: slot_specs_def main_specs_def intro!: filter_cong)

lemma slot_specs_endpoint:
  assumes "(case e of One \<Rightarrow> Some (cf_endpoint1 c) | Two \<Rightarrow> cf_endpoint2 c) = Some ep"
  shows "slot_specs e (endpoint_specs c ids e) =
    [\<lparr>sp_role = Main e (first_commitment c) Slots, sp_endpoint = ep, sp_request = build_slot_request\<rparr>]"
proof -
  have "filter (\<lambda>s. \<exists>com. sp_role s = Main e com Slots) (concat (map (commitment_specs c ids e ep) coms)) = []" for coms
    by (auto simp: filter_empty_conv dest!: commitment_specs_roles)
  then show ?thesis by (simp add: slot_specs_def endpoint_specs_def assms)
qed


text \<open>Slot messages come from slot subscriptions, all labelled with one commitment, or from entries subscriptions.\<close>

lemma plan_slot_label:
  "s \<in> set (plan_from_run_config c ids) \<Longrightarrow> sp_role s = Main e com Slots \<Longrightarrow> com = first_commitment c"
  by (auto simp: plan_from_run_config_def solo_specs_def Let_def entries_specs_def split: if_splits option.splits
      elim!: endpoint_specs_cases dest!: commitment_specs_roles)

lemma commitment_specs_no_slots: "s \<in> set (commitment_specs c ids e ep com) \<Longrightarrow> sr_slots (sp_request s) = []"
  by (auto simp: commitment_specs_def other_streams_def Let_def build_main_request_for_def empty_request_def split: if_splits)

lemma plan_slots_filter:
  assumes "s \<in> set (plan_from_run_config c ids)" and "sr_slots (sp_request s) \<noteq> []" and "sp_role s = Main e com st"
  shows "com = first_commitment c"
  using assms
  by (auto simp: plan_from_run_config_def solo_specs_def Let_def entries_specs_def split: if_splits option.splits
      elim!: endpoint_specs_cases dest!: commitment_specs_no_slots)

definition sample_config :: config where
  "sample_config = \<lparr>cf_endpoint1 = \<lparr>es_url = ''a'', es_x_token = ''t'', es_tls_forced = False\<rparr>,
     cf_endpoint2 = Some \<lparr>es_url = ''b'', es_x_token = ''u'', es_tls_forced = False\<rparr>, cf_entries_endpoint1 = None,
     cf_entries_endpoint2 = None, cf_programs_path = ''p'', cf_stop = Stop_Slots 5, cf_commitments = [Com_Processed, Com_Confirmed],
     cf_with_blocks = True, cf_with_transactions = False, cf_strict_account_key = False, cf_accounts_programs_per_filter = 2,
     cf_reconnect_test_secs = None, cf_output = ''o'', cf_raw_records = None, cf_cpu_affinity = affinity_spec_default,
     cf_realtime = False, cf_allocator = System, cf_log_level = ''info'', cf_solo = False, cf_solo_streams = [Slots],
     cf_max_decode_mb = 256, cf_ring_capacity = 65536\<rparr>"

lemma sample_config_ok: "config_ok sample_config" "\<not> cf_solo sample_config" "Com_Confirmed \<in> set (cf_commitments sample_config)"
  by (simp_all add: config_ok_def sample_config_def)

theorem plan_covers_programs_witness:
  "mset (concat (map requested_owners (accounts_specs Two Com_Confirmed (plan_from_run_config sample_config
      [''x'', ''11111111111111111111111111111111'', ''y'', ''z'']))))
     = mset [''x'', ''11111111111111111111111111111111'', ''y'', ''z'']"
  using plan_covers_programs [OF sample_config_ok, of Two "[''x'', ''11111111111111111111111111111111'', ''y'', ''z'']"]
  unfolding Let_def by blast


end
