(* ===== verification/Run_System.thy ===== *)
theory Run_System
  imports Receiver Dispatcher Subscribe "HOL-Library.Sublist"
begin

text \<open>
  The running program (\<open>execute\<close> in \<open>src/run.rs\<close>): the receiver threads of the plan, one dispatcher per
  endpoint, the coordinator and the interrupt handler, as one labelled step function. A step is one atomic
  action of one thread, and the labels carry what comes from outside (answers of servers, clocks, outcomes of
  file writes), so a label list is a schedule. \<open>run_trace\<close> is the reachability relation, with the effects of the
  dispatchers as a history. The shutdown flag is read with its current value.
\<close>

section \<open>State\<close>

record 'd lane =
  ln_receivers :: "receiver list"
  ln_rings :: "event ring list"
  ln_dispatcher :: "'d dispatcher"

record 'd run_state =
  rn_shutdown :: bool
  rn_rt_applied :: u64
  rn_shared :: "'d shared"
  rn_lane :: "endpoint_role \<Rightarrow> 'd lane"

definition lane_specs :: "subscription_spec list \<Rightarrow> endpoint_role \<Rightarrow> subscription_spec list" where
  "lane_specs specs e = filter (\<lambda>s. role_endpoint (sp_role s) = e) specs"

text \<open>The cores of the receivers: the index counts the receivers of the same endpoint.\<close>

definition assign_cores :: "affinity_plan \<Rightarrow> subscription_spec list \<Rightarrow> u32 option list" where
  "assign_cores plan specs =
     fst (foldl (\<lambda>(out, idx) s.
        (let e = role_endpoint (sp_role s); i = (case hm_get idx e of Some c \<Rightarrow> c + 1 | None \<Rightarrow> 0)
         in (out @ [core_for_subscription plan (sp_role s) i], hm_insert e i idx))) ([], []) specs)"

text \<open>The receiver threads of an endpoint, in the order they are spawned.\<close>

definition receivers_new :: "config \<Rightarrow> subscription_spec list \<Rightarrow> endpoint_role \<Rightarrow> receiver list" where
  "receivers_new c specs e =
     map (\<lambda>(core, s). rx_start core (cf_realtime c) (sp_role s))
       (filter (\<lambda>(_, s). role_endpoint (sp_role s) = e) (zip (assign_cores (plan_from_spec (cf_cpu_affinity c)) specs) specs))"

text \<open>A ring that cannot be created panics, the value \<open>None\<close>.\<close>

definition lane_new :: "config \<Rightarrow> 'd runtime \<Rightarrow> subscription_spec list \<Rightarrow> endpoint_role \<Rightarrow> 'd lane option" where
  "lane_new c R specs e =
     (case those (map (\<lambda>s. ring_with_capacity (ring_capacity_for (sp_role s) (cf_ring_capacity c))) (lane_specs specs e)) of
        None \<Rightarrow> None
      | Some rings \<Rightarrow> Some \<lparr>ln_receivers = receivers_new c specs e, ln_rings = rings,
          ln_dispatcher = dp_new R e\<rparr>)"

definition run_start ::
  "config \<Rightarrow> 'd runtime \<Rightarrow> subscription_spec list \<Rightarrow> (pubkey32, string) hmap \<Rightarrow> raw_writer option \<Rightarrow> 'd run_state option" where
  "run_start c R specs names raw =
     (if specs = [] then None
      else case (lane_new c R specs One, lane_new c R specs Two) of
        (Some l1, Some l2) \<Rightarrow>
          Some \<lparr>rn_shutdown = False, rn_rt_applied = 0, rn_shared = shared_new R (cf_strict_account_key c) names raw,
                rn_lane = (\<lambda>e. case e of One \<Rightarrow> l1 | Two \<Rightarrow> l2)\<rparr>
      | _ \<Rightarrow> None)"

section \<open>Steps\<close>

datatype 'm run_label =
    Receiver_Step endpoint_role nat "'m rx_input"
  | Dispatcher_Step endpoint_role "string option"
  | Dispatcher_Pass_End endpoint_role nat
  | Coordinator_Tick nat
  | Interrupt

definition set_lane :: "endpoint_role \<Rightarrow> 'd lane \<Rightarrow> 'd run_state \<Rightarrow> 'd run_state" where
  "set_lane e la s = s\<lparr>rn_lane := (rn_lane s)(e := la)\<rparr>"

text \<open>Every thread that got real-time priority is counted once.\<close>

definition note_realtime :: "bool \<Rightarrow> 'd run_state \<Rightarrow> 'd run_state" where
  "note_realtime applied s = (if applied then s\<lparr>rn_rt_applied := rn_rt_applied s + 1\<rparr> else s)"

lemma note_realtime_simps [simp]:
  "rn_lane (note_realtime b s) = rn_lane s" "rn_shared (note_realtime b s) = rn_shared s"
  "rn_shutdown (note_realtime b s) = rn_shutdown s"
  by (simp_all add: note_realtime_def)

text \<open>A dispatcher that returns drops its rings: their queues are gone and later sends find no receiver.\<close>

definition ring_close :: "event ring \<Rightarrow> event ring" where
  "ring_close r = r\<lparr>rg_receiver_alive := False, rg_queue := []\<rparr>"

definition input_matches :: "bool \<Rightarrow> 'm rx_input \<Rightarrow> bool" where
  "input_matches shutdown i = (case i of Check_Shutdown b \<Rightarrow> b = shutdown | _ \<Rightarrow> True)"

definition receivers_finished :: "'d lane \<Rightarrow> bool" where
  "receivers_finished la = list_all (\<lambda>rx. rx_phase rx = Rx_Done) (ln_receivers la)"

text \<open>One round of the coordinator, and the signal task.\<close>

definition coordinator_tick :: "config \<Rightarrow> nat \<Rightarrow> 'd run_state \<Rightarrow> 'd run_state" where
  "coordinator_tick c elapsed s =
     s\<lparr>rn_shutdown := should_stop c elapsed (shd_total_slots (rn_shared s))
             \<or> (receivers_finished (rn_lane s One) \<and> receivers_finished (rn_lane s Two))\<rparr>"

definition interrupt :: "'d run_state \<Rightarrow> 'd run_state" where
  "interrupt s = s\<lparr>rn_shutdown := True\<rparr>"

lemma flag_step_simps [simp]:
  "rn_lane (coordinator_tick c elapsed s) = rn_lane s" "rn_shared (coordinator_tick c elapsed s) = rn_shared s"
  "rn_rt_applied (coordinator_tick c elapsed s) = rn_rt_applied s"
  "rn_lane (interrupt s) = rn_lane s" "rn_shared (interrupt s) = rn_shared s" "rn_rt_applied (interrupt s) = rn_rt_applied s"
  "rn_shutdown (interrupt s)"
  by (simp_all add: coordinator_tick_def interrupt_def)

fun run_step :: "config \<Rightarrow> 'd runtime \<Rightarrow> 'm decode_env \<Rightarrow> raw_env \<Rightarrow> 'm run_label \<Rightarrow> 'd run_state \<Rightarrow> 'd run_state option" where
  "run_step c R D E (Receiver_Step e i inp) s =
     (let la = rn_lane s e
      in if i < length (ln_receivers la) \<and> input_matches (rn_shutdown s) inp
         then (case rx_step D inp (ln_receivers la ! i, ln_rings la ! i) of
                 None \<Rightarrow> None
               | Some (rx, ring) \<Rightarrow>
                   Some (set_lane e (la\<lparr>ln_receivers := (ln_receivers la)[i := rx], ln_rings := (ln_rings la)[i := ring]\<rparr>)
                     (note_realtime (applies_realtime inp) s)))
         else None)"
| "run_step c R D E (Dispatcher_Step e io) s =
     (let la = rn_lane s e; dp = ln_dispatcher la
      in if \<not> dp_done dp \<and> dp_ring dp < length (ln_rings la)
         then (case dp_step R E io (ln_rings la, rn_shared s, dp) of
                 (rings, shd, dp') \<Rightarrow> Some (set_lane e (la\<lparr>ln_rings := rings, ln_dispatcher := dp'\<rparr>) (s\<lparr>rn_shared := shd\<rparr>)))
         else None)"
| "run_step c R D E (Dispatcher_Pass_End e now) s =
     (let la = rn_lane s e; dp = ln_dispatcher la
      in if \<not> dp_done dp \<and> dp_stage dp = At_Ring \<and> length (ln_rings la) \<le> dp_ring dp
         then (let dp' = dp_pass_end (rn_shutdown s) now dp
               in Some (set_lane e (la\<lparr>ln_rings := (if dp_done dp' then map ring_close (ln_rings la) else ln_rings la),
                    ln_dispatcher := dp'\<rparr>) s))
         else None)"
| "run_step c R D E (Coordinator_Tick elapsed) s =
     (if rn_shutdown s then None else Some (coordinator_tick c elapsed s))"
| "run_step c R D E Interrupt s = Some (interrupt s)"

text \<open>What a step of a dispatcher does outside its thread.\<close>

datatype effect =
    Took nat event
  | Received
  | Matched event
  | Logged event "string option"
  | Tallied event

type_synonym history = "(endpoint_role \<times> effect) list"

definition effect_of :: "string option \<Rightarrow> event ring list \<Rightarrow> 'd dispatcher \<Rightarrow> effect list" where
  "effect_of io rings dp =
     (case dp_stage dp of
        At_Ring \<Rightarrow> (case dp_next rings dp of None \<Rightarrow> [] | Some ev \<Rightarrow> [Took (dp_ring dp) ev])
      | At_Received _ \<Rightarrow> [Received]
      | At_Matchers ev \<Rightarrow> [Matched ev]
      | At_Log ev \<Rightarrow> [Logged ev io]
      | At_Counters ev \<Rightarrow> [Tallied ev])"

definition effects_by :: "'m run_label \<Rightarrow> 'd run_state \<Rightarrow> history" where
  "effects_by l s =
     (case l of
        Dispatcher_Step e io \<Rightarrow> map (Pair e) (effect_of io (ln_rings (rn_lane s e)) (ln_dispatcher (rn_lane s e)))
      | _ \<Rightarrow> [])"

inductive run_trace ::
  "config \<Rightarrow> 'd runtime \<Rightarrow> 'm decode_env \<Rightarrow> raw_env \<Rightarrow> 'd run_state \<Rightarrow> 'm run_label list \<Rightarrow> history \<Rightarrow> 'd run_state \<Rightarrow> bool"
  for c R D E s0 where
  run_trace_start: "run_trace c R D E s0 [] [] s0"
| run_trace_step: "run_trace c R D E s0 ls hs s \<Longrightarrow> run_step c R D E l s = Some s' \<Longrightarrow>
    run_trace c R D E s0 (ls @ [l]) (hs @ effects_by l s) s'"

text \<open>The same as a function of the schedule.\<close>

fun run_exec ::
  "config \<Rightarrow> 'd runtime \<Rightarrow> 'm decode_env \<Rightarrow> raw_env \<Rightarrow> 'm run_label list \<Rightarrow> history \<times> 'd run_state \<Rightarrow> (history \<times> 'd run_state) option" where
  "run_exec c R D E [] x = Some x"
| "run_exec c R D E (l # ls) (hs, s) =
     (case run_step c R D E l s of None \<Rightarrow> None | Some s' \<Rightarrow> run_exec c R D E ls (hs @ effects_by l s, s'))"

lemma run_exec_trace:
  assumes "run_trace c R D E s0 ks gs s" and "run_exec c R D E ls (gs, s) = Some (hs, s')"
  shows "run_trace c R D E s0 (ks @ ls) hs s'"
  using assms
proof (induction ls arbitrary: ks gs s)
  case (Cons l ls)
  obtain s1 where s1: "run_step c R D E l s = Some s1" using Cons.prems(2) by (cases "run_step c R D E l s") auto
  have "run_exec c R D E ls (gs @ effects_by l s, s1) = Some (hs, s')" using Cons.prems(2) by (simp add: s1)
  from Cons.IH [OF run_trace_step [OF Cons.prems(1) s1] this] show ?case by simp
qed simp

section \<open>The invariant of one ring\<close>

text \<open>\<open>n\<close> is the number of events taken but not yet counted, at most the one the dispatcher holds.\<close>

definition ring_acc :: "subscription_role \<Rightarrow> event list \<Rightarrow> event list \<Rightarrow> nat \<Rightarrow> event ring \<Rightarrow> bool" where
  "ring_acc role deliv taken n r \<longleftrightarrow>
     length (rg_queue r) \<le> unat (rg_capacity r)
   \<and> subseq (taken @ rg_queue r) deliv
   \<and> rs_received (rg_stats r) + of_nat n = of_nat (length taken)
   \<and> (rg_receiver_alive r \<longrightarrow>
        rs_dropped (rg_stats r) + of_nat (length taken) + of_nat (length (rg_queue r)) = of_nat (length deliv))
   \<and> (\<not> rg_receiver_alive r \<longrightarrow> rg_queue r = [])
   \<and> (\<forall>ev \<in> set deliv. ev_subscription ev = role)"

lemma subseq_snoc_right: "subseq xs ys \<Longrightarrow> subseq xs (ys @ [y])"
  by (rule list_emb_prefix)

lemma ring_acc_send:
  assumes "ring_acc role deliv taken n r" and "ev_subscription ev = role"
  shows "ring_acc role (deliv @ [ev]) taken n (snd (ring_try_send ev r))"
proof (cases "rg_receiver_alive r \<and> length (rg_queue r) < unat (rg_capacity r)")
  case True
  have "subseq ((taken @ rg_queue r) @ [ev]) (deliv @ [ev])"
    using assms(1) by (intro list_emb_append_mono) (simp_all add: ring_acc_def)
  then show ?thesis using True assms by (auto simp: ring_acc_def ring_try_send_def algebra_simps)
next
  case False
  then show ?thesis
    using assms subseq_snoc_right [of "taken @ rg_queue r" deliv ev]
    by (auto simp: ring_acc_def ring_try_send_def algebra_simps)
qed

lemma ring_acc_bumps:
  "ring_acc role deliv taken n (bump_decode_errors r) \<longleftrightarrow> ring_acc role deliv taken n r"
  "ring_acc role deliv taken n (bump_disconnects r) \<longleftrightarrow> ring_acc role deliv taken n r"
  by (simp_all add: ring_acc_def bump_decode_errors_def bump_disconnects_def)

lemma subseq_prefix_append: "subseq xs (xs @ ys)"
  by (rule list_emb_prefix) simp

lemma ring_acc_close: "ring_acc role deliv taken n r \<Longrightarrow> ring_acc role deliv taken n (ring_close r)"
  using subseq_order.trans [OF subseq_prefix_append [of taken "rg_queue r"], of deliv]
  by (auto simp: ring_acc_def ring_close_def)

lemma ring_acc_recv:
  assumes "ring_acc role deliv taken 0 r" and "ring_try_recv r = (Inr ev, r')"
  shows "ring_acc role deliv (taken @ [ev]) 1 r' \<and> ev \<in> set deliv \<and> rg_receiver_alive r'"
proof -
  obtain q where q: "rg_queue r = ev # q" "r' = r\<lparr>rg_queue := q\<rparr>"
    using assms(2) by (auto simp: ring_try_recv_def split: list.splits)
  have alive: "rg_receiver_alive r" using assms(1) q(1) by (auto simp: ring_acc_def)
  have "subseq (taken @ ev # q) deliv" using assms(1) q(1) by (simp add: ring_acc_def)
  then have "set (taken @ ev # q) \<subseteq> set deliv" by (rule list_emb_set [THEN subsetI]) auto
  then show ?thesis using assms(1) q alive by (simp add: ring_acc_def algebra_simps)
qed

lemma ring_acc_received: "ring_acc role deliv taken 1 r \<Longrightarrow> ring_acc role deliv taken 0 (bump_received r)"
  by (simp add: ring_acc_def bump_received_def algebra_simps)

lemma delivered_role: "delivered D role inp = Some ev \<Longrightarrow> ev_subscription ev = role"
  by (auto simp: delivered_def decode_def split: rx_input.splits poll.splits sum.splits option.splits
      elim!: result_bind.elims dest!: sym [of "Some ev"])

text \<open>A receiver's step delivers at most one event to its ring.\<close>

lemma rx_step_ring:
  assumes "rx_step D inp (rx, r) = Some (rx', r')" and "ring_acc (rx_role rx) deliv taken n r"
  shows "ring_acc (rx_role rx) (deliv @ (case delivered D (rx_role rx) inp of None \<Rightarrow> [] | Some ev \<Rightarrow> [ev])) taken n r'"
proof (cases "delivered D (rx_role rx) inp")
  case None
  then have "r' \<in> {r, bump_decode_errors r, bump_disconnects r}"
    using assms(1) by (cases inp) (auto simp: rx_thread_start_def rx_poll_def delivered_def split: rx_phase.splits if_splits poll.splits sum.splits option.splits)
  then show ?thesis using assms(2) None by (auto simp: ring_acc_bumps)
next
  case (Some ev)
  then have "r' = snd (ring_try_send ev r)"
    using assms(1) by (cases inp) (auto simp: rx_thread_start_def rx_poll_def delivered_def split: rx_phase.splits if_splits poll.splits sum.splits option.splits)
  then show ?thesis using ring_acc_send [OF assms(2) delivered_role [OF Some]] Some by simp
qed

section \<open>The invariant of a run\<close>

text \<open>What a schedule delivers to a ring, and what the history took from it.\<close>

definition delivered_by :: "'m decode_env \<Rightarrow> (endpoint_role \<Rightarrow> subscription_role list) \<Rightarrow> endpoint_role \<Rightarrow> nat \<Rightarrow> 'm run_label \<Rightarrow> event list" where
  "delivered_by D roles e i l =
     (case l of
        Receiver_Step e' i' inp \<Rightarrow>
          if e' = e \<and> i' = i then (case delivered D (roles e ! i) inp of None \<Rightarrow> [] | Some ev \<Rightarrow> [ev]) else []
      | _ \<Rightarrow> [])"

definition delivered_to :: "'m decode_env \<Rightarrow> (endpoint_role \<Rightarrow> subscription_role list) \<Rightarrow> endpoint_role \<Rightarrow> nat \<Rightarrow> 'm run_label list \<Rightarrow> event list" where
  "delivered_to D roles e i ls = concat (map (delivered_by D roles e i) ls)"

definition taken_from :: "endpoint_role \<Rightarrow> nat \<Rightarrow> history \<Rightarrow> event list" where
  "taken_from e i hs = concat (map (\<lambda>(e', x). case x of Took i' ev \<Rightarrow> if e' = e \<and> i' = i then [ev] else [] | _ \<Rightarrow> []) hs)"

definition taken_by :: "endpoint_role \<Rightarrow> history \<Rightarrow> event list" where
  "taken_by e hs = concat (map (\<lambda>(e', x). case x of Took _ ev \<Rightarrow> if e' = e then [ev] else [] | _ \<Rightarrow> []) hs)"

text \<open>The events in the order the matchers, the log and the counters saw them.\<close>

definition matched_events :: "history \<Rightarrow> event list" where
  "matched_events hs = concat (map (\<lambda>(_, x). case x of Matched ev \<Rightarrow> [ev] | _ \<Rightarrow> []) hs)"

definition logged_events :: "history \<Rightarrow> (event \<times> string option) list" where
  "logged_events hs = concat (map (\<lambda>(_, x). case x of Logged ev io \<Rightarrow> [(ev, io)] | _ \<Rightarrow> []) hs)"

definition tallied_events :: "history \<Rightarrow> event list" where
  "tallied_events hs = concat (map (\<lambda>(_, x). case x of Tallied ev \<Rightarrow> [ev] | _ \<Rightarrow> []) hs)"

text \<open>Taken by the dispatcher, but not yet seen by the matchers, the log, the counters.\<close>

fun to_match :: "dispatch_stage \<Rightarrow> event list" where
  "to_match (At_Received ev) = [ev]"
| "to_match (At_Matchers ev) = [ev]"
| "to_match _ = []"

fun to_log :: "dispatch_stage \<Rightarrow> event list" where
  "to_log (At_Log ev) = [ev]"
| "to_log st = to_match st"

fun to_tally :: "dispatch_stage \<Rightarrow> event list" where
  "to_tally (At_Counters ev) = [ev]"
| "to_tally st = to_log st"

text \<open>The events taken from ring \<open>i\<close> but not yet counted as received.\<close>

definition uncounted :: "'d dispatcher \<Rightarrow> nat \<Rightarrow> nat" where
  "uncounted dp i = (case dp_stage dp of At_Received _ \<Rightarrow> if dp_ring dp = i then 1 else 0 | _ \<Rightarrow> 0)"

definition lane_inv ::
  "'m decode_env \<Rightarrow> (endpoint_role \<Rightarrow> subscription_role list) \<Rightarrow> 'm run_label list \<Rightarrow> history \<Rightarrow> endpoint_role \<Rightarrow> 'd lane \<Rightarrow> bool" where
  "lane_inv D roles ls hs e la \<longleftrightarrow>
     map rx_role (ln_receivers la) = roles e \<and> length (ln_rings la) = length (roles e)
   \<and> (\<forall>i < length (roles e).
        ring_acc (roles e ! i) (delivered_to D roles e i ls) (taken_from e i hs) (uncounted (ln_dispatcher la) i) (ln_rings la ! i)
      \<and> (\<not> dp_done (ln_dispatcher la) \<longrightarrow> rg_receiver_alive (ln_rings la ! i)))
   \<and> (dp_done (ln_dispatcher la) \<longrightarrow> dp_stage (ln_dispatcher la) = At_Ring)
   \<and> (dp_stage (ln_dispatcher la) \<noteq> At_Ring \<longrightarrow> dp_ring (ln_dispatcher la) < length (roles e))"

lemma delivered_to_snoc: "delivered_to D roles e i (ls @ [l]) = delivered_to D roles e i ls @ delivered_by D roles e i l"
  by (simp add: delivered_to_def)

named_theorems history

lemma history_append [history]:
  "taken_from e i (hs @ gs) = taken_from e i hs @ taken_from e i gs"
  "taken_by e (hs @ gs) = taken_by e hs @ taken_by e gs"
  "matched_events (hs @ gs) = matched_events hs @ matched_events gs"
  "logged_events (hs @ gs) = logged_events hs @ logged_events gs"
  "tallied_events (hs @ gs) = tallied_events hs @ tallied_events gs"
  by (simp_all add: taken_from_def taken_by_def matched_events_def logged_events_def tallied_events_def)

lemma history_Nil [simp]:
  "taken_from e i [] = []" "taken_by e [] = []" "matched_events [] = []" "logged_events [] = []" "tallied_events [] = []"
  by (simp_all add: taken_from_def taken_by_def matched_events_def logged_events_def tallied_events_def)

lemma history_one [history]:
  "taken_from e i [(e', x)] = (case x of Took i' ev \<Rightarrow> if e' = e \<and> i' = i then [ev] else [] | _ \<Rightarrow> [])"
  "taken_by e [(e', x)] = (case x of Took _ ev \<Rightarrow> if e' = e then [ev] else [] | _ \<Rightarrow> [])"
  "matched_events [(e', x)] = (case x of Matched ev \<Rightarrow> [ev] | _ \<Rightarrow> [])"
  "logged_events [(e', x)] = (case x of Logged ev io \<Rightarrow> [(ev, io)] | _ \<Rightarrow> [])"
  "tallied_events [(e', x)] = (case x of Tallied ev \<Rightarrow> [ev] | _ \<Rightarrow> [])"
  by (simp_all add: taken_from_def taken_by_def matched_events_def logged_events_def tallied_events_def)

text \<open>A lane only notices labels and effects of its own.\<close>

lemma lane_inv_quiet:
  assumes "lane_inv D roles ls hs e la" and "\<And>i. delivered_by D roles e i l = []" and "\<And>i. taken_from e i gs = []"
  shows "lane_inv D roles (ls @ [l]) (hs @ gs) e la"
  using assms by (simp add: lane_inv_def delivered_to_snoc history)

lemma lane_inv_receive:
  assumes inv: "lane_inv D roles ls hs e la" and i: "i < length (ln_receivers la)"
    and step: "rx_step D inp (ln_receivers la ! i, ln_rings la ! i) = Some (rx, ring)"
  shows "lane_inv D roles (ls @ [Receiver_Step e i inp]) hs e
     (la\<lparr>ln_receivers := (ln_receivers la)[i := rx], ln_rings := (ln_rings la)[i := ring]\<rparr>)"
proof -
  have roles: "map rx_role (ln_receivers la) = roles e" using inv by (simp add: lane_inv_def)
  then have n: "length (ln_receivers la) = length (roles e)" by (metis length_map)
  have role: "rx_role (ln_receivers la ! i) = roles e ! i" using roles i by (metis nth_map)
  have same: "map rx_role ((ln_receivers la)[i := rx]) = roles e"
    using rx_step_role [OF step] role roles i n by (simp add: map_update list_update_same_conv)
  have acc: "ring_acc (roles e ! i) (delivered_to D roles e i ls) (taken_from e i hs) (uncounted (ln_dispatcher la) i) (ln_rings la ! i)"
    using inv i n by (simp add: lane_inv_def)
  have "ring_acc (roles e ! i) (delivered_to D roles e i (ls @ [Receiver_Step e i inp])) (taken_from e i hs)
      (uncounted (ln_dispatcher la) i) ring"
    using rx_step_ring [OF step, unfolded role, OF acc] by (simp add: delivered_to_snoc delivered_by_def)
  moreover have "delivered_by D roles e j (Receiver_Step e i inp) = []" if "j \<noteq> i" for j
    using that by (simp add: delivered_by_def)
  moreover have "rg_receiver_alive ring = rg_receiver_alive (ln_rings la ! i)"
    using step by (cases inp) (auto simp: rx_thread_start_def rx_poll_def ring_try_send_def bump_decode_errors_def bump_disconnects_def
        split: rx_phase.splits if_splits poll.splits sum.splits option.splits)
  ultimately show ?thesis
    using inv same i n by (auto simp: lane_inv_def nth_list_update delivered_to_snoc)
qed

text \<open>A step of the dispatcher: it takes an event, counts one as received, or leaves the rings alone.\<close>

lemma dp_step_rings:
  assumes "dp_step R E io (rings, shd, dp) = (rings', shd', dp')"
  obtains (advance) "dp_stage dp = At_Ring" "dp_next rings dp = None" "rings' = rings" "shd' = shd"
      "dp' = dp\<lparr>dp_ring := dp_ring dp + 1, dp_drained := 0\<rparr>" "effect_of io rings dp = []"
  | (take_event) ev ring where "dp_stage dp = At_Ring" "ring_try_recv (rings ! dp_ring dp) = (Inr ev, ring)"
      "dp_drained dp < DRAIN_BUDGET_PER_RING" "rings' = rings[dp_ring dp := ring]" "shd' = shd"
      "dp' = dp\<lparr>dp_stage := At_Received ev, dp_drained := dp_drained dp + 1, dp_got_any := True\<rparr>"
      "effect_of io rings dp = [Took (dp_ring dp) ev]"
  | (receive) ev where "dp_stage dp = At_Received ev" "rings' = rings[dp_ring dp := bump_received (rings ! dp_ring dp)]"
      "shd' = shd" "dp' = dp\<lparr>dp_stage := At_Matchers ev\<rparr>" "effect_of io rings dp = [Received]"
  | (match) ev where "dp_stage dp = At_Matchers ev" "rings' = rings" "shd' = shd\<lparr>shd_matchers := dispatch R ev (shd_matchers shd)\<rparr>"
      "dp' = dp\<lparr>dp_stage := At_Log ev, dp_state := (dp_state dp)\<lparr>ds_stability := st_observe R ev (ds_stability (dp_state dp)),
         ds_cross := cs_observe R ev (ds_cross (dp_state dp))\<rparr>\<rparr>" "effect_of io rings dp = [Matched ev]"
  | (log) ev where "dp_stage dp = At_Log ev" "rings' = rings"
      "shd' = shd\<lparr>shd_raw_writer := map_option (rw_write E io ev) (shd_raw_writer shd)\<rparr>" "dp' = dp\<lparr>dp_stage := At_Counters ev\<rparr>"
      "effect_of io rings dp = [Logged ev io]"
  | (count) ev k n where "dp_stage dp = At_Counters ev" "count_event ev (ds_counters (dp_state dp)) (shd_total_slots shd) = (k, n)"
      "rings' = rings" "shd' = shd\<lparr>shd_total_slots := n\<rparr>"
      "dp' = dp\<lparr>dp_stage := At_Ring, dp_state := (dp_state dp)\<lparr>ds_counters := k\<rparr>\<rparr>" "effect_of io rings dp = [Tallied ev]"
proof (cases "dp_stage dp")
  case At_Ring
  show thesis
  proof (cases "dp_next rings dp")
    case None
    show thesis by (rule advance) (use assms At_Ring None in \<open>auto simp: dp_step_def effect_of_def\<close>)
  next
    case (Some ev)
    obtain ring where r: "ring_try_recv (rings ! dp_ring dp) = (Inr ev, ring)" "dp_drained dp < DRAIN_BUDGET_PER_RING"
      using Some by (auto simp: dp_next_def split: if_splits prod.splits sum.splits)
    show thesis by (rule take_event [OF At_Ring r]) (use assms At_Ring Some r in \<open>auto simp: dp_step_def effect_of_def\<close>)
  qed
next
  case (At_Received ev)
  show thesis by (rule receive [OF At_Received]) (use assms At_Received in \<open>auto simp: dp_step_def effect_of_def Let_def\<close>)
next
  case (At_Matchers ev)
  show thesis by (rule match [OF At_Matchers]) (use assms At_Matchers in \<open>auto simp: dp_step_def effect_of_def Let_def\<close>)
next
  case (At_Log ev)
  show thesis by (rule log [OF At_Log]) (use assms At_Log in \<open>auto simp: dp_step_def effect_of_def Let_def\<close>)
next
  case (At_Counters ev)
  obtain k n where kn: "count_event ev (ds_counters (dp_state dp)) (shd_total_slots shd) = (k, n)" by (cases "count_event ev (ds_counters (dp_state dp)) (shd_total_slots shd)")
  show thesis by (rule count [OF At_Counters kn]) (use assms At_Counters kn in \<open>auto simp: dp_step_def effect_of_def Let_def\<close>)
qed

lemma dp_step_frame:
  assumes "dp_step R E io (rings, shd, dp) = (rings', shd', dp')"
  shows "length rings' = length rings \<and> dp_done dp' = dp_done dp \<and> dp_shutdown_observed_at dp' = dp_shutdown_observed_at dp"
  using assms by (elim dp_step_rings) simp_all

lemma lane_inv_dispatcher:
  assumes inv: "lane_inv D roles ls hs e la" and live: "dp_ring (ln_dispatcher la) < length (ln_rings la)"
    and step: "dp_step R E io (ln_rings la, shd, ln_dispatcher la) = (rings, shd', dp')"
    and s: "rn_lane s e = la" and nd: "\<not> dp_done (ln_dispatcher la)"
  shows "lane_inv D roles (ls @ [Dispatcher_Step e io]) (hs @ effects_by (Dispatcher_Step e io) s) e
     (la\<lparr>ln_rings := rings, ln_dispatcher := dp'\<rparr>)"
proof -
  let ?dp = "ln_dispatcher la" and ?i = "dp_ring (ln_dispatcher la)"
  have quiet: "delivered_by D roles e j (Dispatcher_Step e io) = []" for j by (simp add: delivered_by_def)
  have acc: "ring_acc (roles e ! ?i) (delivered_to D roles e ?i ls) (taken_from e ?i hs) (uncounted ?dp ?i) (ln_rings la ! ?i)"
    using inv live by (simp add: lane_inv_def)
  show ?thesis using step
  proof (cases rule: dp_step_rings)
    case (take_event ev ring)
    have "ring_acc (roles e ! ?i) (delivered_to D roles e ?i ls) (taken_from e ?i hs @ [ev]) 1 ring \<and> rg_receiver_alive ring"
      using ring_acc_recv [OF _ take_event(2)] acc by (simp add: uncounted_def take_event(1))
    then show ?thesis
      using inv live nd by (auto simp: lane_inv_def take_event effects_by_def s uncounted_def history delivered_to_snoc quiet nth_list_update)
  next
    case (receive ev)
    have "ring_acc (roles e ! ?i) (delivered_to D roles e ?i ls) (taken_from e ?i hs) 0 (bump_received (ln_rings la ! ?i))"
      using ring_acc_received acc by (simp add: uncounted_def receive(1))
    then show ?thesis
      using inv live nd
      by (auto simp: lane_inv_def receive effects_by_def s uncounted_def history delivered_to_snoc quiet nth_list_update bump_received_def)
  qed (use inv nd in \<open>auto simp: lane_inv_def effects_by_def s uncounted_def history delivered_to_snoc quiet\<close>)
qed

definition lane_roles :: "subscription_spec list \<Rightarrow> endpoint_role \<Rightarrow> subscription_role list" where
  "lane_roles specs e = map sp_role (lane_specs specs e)"

lemma lane_roles_endpoint: "i < length (lane_roles specs e) \<Longrightarrow> role_endpoint (lane_roles specs e ! i) = e"
  using nth_mem [of i "lane_roles specs e"] by (auto simp: lane_roles_def lane_specs_def)

definition dispatcher_states :: "'d run_state \<Rightarrow> endpoint_role \<Rightarrow> 'd endpoint_state" where
  "dispatcher_states s e = dp_state (ln_dispatcher (rn_lane s e))"

text \<open>A dispatcher's own state: its trackers saw what it handed to the matchers, and what it took is what each of the
  three places saw of it, up to the event it holds.\<close>

definition dispatcher_inv :: "'d runtime \<Rightarrow> history \<Rightarrow> endpoint_role \<Rightarrow> 'd dispatcher \<Rightarrow> bool" where
  "dispatcher_inv R hs e dp \<longleftrightarrow>
     ds_stability (dp_state dp) = fold (st_observe R) (of_endpoint e (matched_events hs)) (st_new R e)
   \<and> ds_cross (dp_state dp) = fold (cs_observe R) (of_endpoint e (matched_events hs)) (cs_new R e)
   \<and> of_endpoint e (matched_events hs) @ to_match (dp_stage dp) = taken_by e hs
   \<and> of_endpoint e (map fst (logged_events hs)) @ to_log (dp_stage dp) = taken_by e hs
   \<and> of_endpoint e (tallied_events hs) @ to_tally (dp_stage dp) = taken_by e hs
   \<and> (\<forall>ev \<in> set (taken_by e hs). ev_endpoint ev = e)"

definition write_all :: "raw_env \<Rightarrow> (event \<times> string option) list \<Rightarrow> raw_writer option \<Rightarrow> raw_writer option" where
  "write_all E xs raw = map_option (fold (\<lambda>(ev, io). rw_write E io ev) xs) raw"

definition shared_inv :: "config \<Rightarrow> 'd runtime \<Rightarrow> raw_env \<Rightarrow> (pubkey32, string) hmap \<Rightarrow> raw_writer option \<Rightarrow> history \<Rightarrow> 'd run_state \<Rightarrow> bool" where
  "shared_inv c R E names raw hs s \<longleftrightarrow>
     shd_matchers (rn_shared s) = fold (dispatch R) (matched_events hs) (sms_with_strict_account_key (cf_strict_account_key c) (sms_new R names))
   \<and> shd_raw_writer (rn_shared s) = write_all E (logged_events hs) raw
   \<and> (shd_total_slots (rn_shared s), \<lambda>e. ds_counters (dispatcher_states s e)) =
        fold tally (tallied_events hs) (0, \<lambda>_. ingest_counters_partial_default)"

definition origin_inv ::
  "'m decode_env \<Rightarrow> (endpoint_role \<Rightarrow> subscription_role list) \<Rightarrow> 'm run_label list \<Rightarrow> history \<Rightarrow> bool" where
  "origin_inv D roles ls hs \<longleftrightarrow>
     (\<forall>e i ev. (e, Took i ev) \<in> set hs \<longrightarrow>
        i < length (roles e) \<and> ev \<in> set (delivered_to D roles e i ls) \<and> ev_subscription ev = roles e ! i)"

definition run_inv ::
  "config \<Rightarrow> 'd runtime \<Rightarrow> 'm decode_env \<Rightarrow> raw_env \<Rightarrow> subscription_spec list \<Rightarrow> (pubkey32, string) hmap \<Rightarrow> raw_writer option
     \<Rightarrow> 'm run_label list \<Rightarrow> history \<Rightarrow> 'd run_state \<Rightarrow> bool" where
  "run_inv c R D E specs names raw ls hs s \<longleftrightarrow>
     (\<forall>e. lane_inv D (lane_roles specs) ls hs e (rn_lane s e))
   \<and> shared_inv c R E names raw hs s
   \<and> (\<forall>e. dispatcher_inv R hs e (ln_dispatcher (rn_lane s e)))
   \<and> (\<forall>e. dp_done (ln_dispatcher (rn_lane s e)) \<longrightarrow> rn_shutdown s)
   \<and> origin_inv D (lane_roles specs) ls hs"

lemma ring_acc_new: "ring_with_capacity cap = Some r \<Longrightarrow> ring_acc role [] [] 0 r \<and> rg_receiver_alive r"
  by (auto simp: ring_with_capacity_def ring_acc_def receiver_stats_new_def split: if_splits)

lemma those_eq_Some: "those xs = Some ys \<Longrightarrow> xs = map Some ys"
  by (induction xs arbitrary: ys) (auto split: option.splits)

text \<open>The cores as the plan gives them to the receivers of an endpoint, counted from \<open>n\<close>.\<close>

fun cores_from :: "affinity_plan \<Rightarrow> (endpoint_role \<Rightarrow> nat) \<Rightarrow> subscription_spec list \<Rightarrow> u32 option list" where
  "cores_from plan n [] = []"
| "cores_from plan n (s # specs) =
     (let e = role_endpoint (sp_role s)
      in core_for_subscription plan (sp_role s) (n e) # cores_from plan (n(e := n e + 1)) specs)"

lemma assign_cores_from: "assign_cores plan specs = cores_from plan (\<lambda>_. 0) specs"
proof -
  let ?step = "\<lambda>(out, idx) s. let e = role_endpoint (sp_role s); i = (case hm_get idx e of Some c \<Rightarrow> c + 1 | None \<Rightarrow> 0)
      in (out @ [core_for_subscription plan (sp_role s) i], hm_insert e i idx)"
  have "fst (foldl ?step (out, idx) specs) =
      out @ cores_from plan (\<lambda>e. case hm_get idx e of Some c \<Rightarrow> c + 1 | None \<Rightarrow> 0) specs" for out idx
  proof (induction specs arbitrary: out idx)
    case (Cons s specs)
    let ?e = "role_endpoint (sp_role s)" and ?n = "\<lambda>idx e. (case hm_get idx e of Some c \<Rightarrow> c + 1 | None \<Rightarrow> 0) :: nat"
    have "?n (hm_insert ?e (?n idx ?e) idx) = (?n idx)(?e := ?n idx ?e + 1)" by (auto simp: fun_eq_iff hm_get_insert)
    then show ?case using Cons.IH by (simp add: Let_def)
  qed simp
  from this [of "[]" "[]"] show ?thesis by (simp add: assign_cores_def)
qed

lemma cores_from_lane:
  "map (\<lambda>(core, s). (core, sp_role s)) (filter (\<lambda>(_, s). role_endpoint (sp_role s) = e) (zip (cores_from plan n specs) specs)) =
   map (\<lambda>(i, s). (core_for_subscription plan (sp_role s) i, sp_role s)) (enumerate (n e) (lane_specs specs e))"
  by (induction specs arbitrary: n) (simp_all add: lane_specs_def Let_def)

text \<open>Each receiver of an endpoint gets the core of its position among that endpoint's receivers.\<close>

lemma receivers_new_enumerate:
  "receivers_new c specs e =
     map (\<lambda>(i, s). rx_start (core_for_subscription (plan_from_spec (cf_cpu_affinity c)) (sp_role s) i) (cf_realtime c) (sp_role s))
       (enumerate 0 (lane_specs specs e))"
proof -
  let ?plan = "plan_from_spec (cf_cpu_affinity c)"
  have "receivers_new c specs e = map (\<lambda>(core, role). rx_start core (cf_realtime c) role)
      (map (\<lambda>(core, s). (core, sp_role s))
        (filter (\<lambda>(_, s). role_endpoint (sp_role s) = e) (zip (cores_from ?plan (\<lambda>_. 0) specs) specs)))"
    by (simp add: receivers_new_def assign_cores_from comp_def case_prod_unfold)
  then show ?thesis unfolding cores_from_lane by (simp add: comp_def case_prod_unfold)
qed

lemma receivers_new_roles: "map rx_role (receivers_new c specs e) = lane_roles specs e"
  by (rule nth_equalityI) (simp_all add: receivers_new_enumerate lane_roles_def nth_enumerate_eq rx_start_def)

lemma lane_new_inv:
  assumes "lane_new c R specs e = Some la"
  shows "lane_inv D (lane_roles specs) [] [] e la \<and> ln_dispatcher la = dp_new R e"
proof -
  obtain rings where rings: "map (\<lambda>s. ring_with_capacity (ring_capacity_for (sp_role s) (cf_ring_capacity c))) (lane_specs specs e)
      = map Some rings" and la: "la = \<lparr>ln_receivers = receivers_new c specs e, ln_rings = rings,
          ln_dispatcher = dp_new R e\<rparr>"
    using assms by (auto simp: lane_new_def dest: those_eq_Some split: option.splits)
  have len: "length rings = length (lane_roles specs e)" using arg_cong [OF rings, of length] by (simp add: lane_roles_def)
  have "ring_acc role [] [] 0 (rings ! i) \<and> rg_receiver_alive (rings ! i)" if "i < length rings" for i role
  proof -
    have "ring_with_capacity (ring_capacity_for (sp_role (lane_specs specs e ! i)) (cf_ring_capacity c)) = Some (rings ! i)"
      using arg_cong [OF rings, of "\<lambda>xs. xs ! i"] that len by (simp add: lane_roles_def)
    then show ?thesis by (rule ring_acc_new)
  qed
  then show ?thesis
    using len by (simp add: lane_inv_def la delivered_to_def dp_new_def uncounted_def receivers_new_roles)
qed

lemma run_inv_start:
  assumes "run_start c R specs names raw = Some s0"
  shows "run_inv c R D E specs names raw [] [] s0"
proof -
  obtain l1 l2 where l: "lane_new c R specs One = Some l1" "lane_new c R specs Two = Some l2"
    and s0: "s0 = \<lparr>rn_shutdown = False, rn_rt_applied = 0, rn_shared = shared_new R (cf_strict_account_key c) names raw,
                rn_lane = (\<lambda>e. case e of One \<Rightarrow> l1 | Two \<Rightarrow> l2)\<rparr>"
    using assms by (auto simp: run_start_def split: if_splits option.splits)
  note i = lane_new_inv [OF l(1), of D] lane_new_inv [OF l(2), of D]
  have "lane_inv D (lane_roles specs) [] [] e (rn_lane s0 e)" for e
    using i by (cases e) (simp_all add: s0)
  moreover have new: "ln_dispatcher (rn_lane s0 e) = dp_new R e" for e
    using i by (cases e) (simp_all add: s0)
  moreover have "dispatcher_inv R [] e (dp_new R e)" for e
    by (simp add: dispatcher_inv_def dp_new_def endpoint_state_new_def)
  moreover have "shared_inv c R E names raw [] s0"
    unfolding shared_inv_def dispatcher_states_def new
    by (simp add: s0 dp_new_def endpoint_state_new_def shared_new_def write_all_def option.map_id0 id_def option.map_ident)
  ultimately show ?thesis by (simp add: run_inv_def origin_inv_def dp_new_def)
qed

lemma run_inv_quiet:
  assumes inv: "run_inv c R D E specs names raw ls hs s" and l: "\<And>e io. l \<noteq> Dispatcher_Step e io"
    and lanes: "\<And>e. lane_inv D (lane_roles specs) (ls @ [l]) hs e (rn_lane s' e)"
    and sh: "rn_shared s' = rn_shared s"
    and dp: "\<And>e. dp_state (ln_dispatcher (rn_lane s' e)) = dp_state (ln_dispatcher (rn_lane s e))
      \<and> dp_stage (ln_dispatcher (rn_lane s' e)) = dp_stage (ln_dispatcher (rn_lane s e))"
    and d: "\<And>e. dp_done (ln_dispatcher (rn_lane s' e)) \<Longrightarrow> rn_shutdown s'"
  shows "run_inv c R D E specs names raw (ls @ [l]) (hs @ effects_by l s) s'"
proof -
  have e: "effects_by l s = []" using l by (auto simp: effects_by_def split: run_label.split)
  have "dispatcher_inv R hs e (ln_dispatcher (rn_lane s' e)) = dispatcher_inv R hs e (ln_dispatcher (rn_lane s e))" for e
    by (simp add: dispatcher_inv_def dp)
  moreover have "shared_inv c R E names raw hs s' = shared_inv c R E names raw hs s"
    by (simp add: shared_inv_def dispatcher_states_def sh dp)
  moreover have "origin_inv D (lane_roles specs) (ls @ [l]) hs" using inv by (auto simp: run_inv_def origin_inv_def delivered_to_snoc)
  ultimately show ?thesis using inv lanes d by (simp add: run_inv_def e)
qed

lemma lane_inv_other:
  assumes "lane_inv D roles ls hs e la" and "\<And>i. delivered_by D roles e i l = []"
  shows "lane_inv D roles (ls @ [l]) hs e la"
  using lane_inv_quiet [OF assms, of "[]"] by simp

lemma set_lane_simps [simp]:
  "rn_lane (set_lane e la s) e' = (if e' = e then la else rn_lane s e')" "rn_shared (set_lane e la s) = rn_shared s"
  "rn_shutdown (set_lane e la s) = rn_shutdown s"
  by (simp_all add: set_lane_def)

lemma run_inv_receive:
  assumes inv: "run_inv c R D E specs names raw ls hs s"
    and step: "run_step c R D E (Receiver_Step e i inp) s = Some s'"
  shows "run_inv c R D E specs names raw (ls @ [Receiver_Step e i inp]) (hs @ effects_by (Receiver_Step e i inp) s) s'"
proof -
  obtain rx ring where i: "i < length (ln_receivers (rn_lane s e))"
    and rx: "rx_step D inp (ln_receivers (rn_lane s e) ! i, ln_rings (rn_lane s e) ! i) = Some (rx, ring)"
    and s': "s' = set_lane e ((rn_lane s e)\<lparr>ln_receivers := (ln_receivers (rn_lane s e))[i := rx],
         ln_rings := (ln_rings (rn_lane s e))[i := ring]\<rparr>) (note_realtime (applies_realtime inp) s)"
    using step by (auto simp: Let_def split: if_splits option.splits)
  have lane: "lane_inv D (lane_roles specs) ls hs e' (rn_lane s e')" for e' using inv by (simp add: run_inv_def)
  have other: "delivered_by D (lane_roles specs) e' j (Receiver_Step e i inp) = []" if "e' \<noteq> e" for e' j
    using that by (simp add: delivered_by_def)
  have "lane_inv D (lane_roles specs) (ls @ [Receiver_Step e i inp]) hs e' (rn_lane s' e')" for e'
    using lane_inv_receive [OF lane i rx] lane_inv_other [OF lane other] by (simp add: s')
  then show ?thesis
    by (rule run_inv_quiet [OF inv, rotated]) (use inv in \<open>auto simp: s' run_inv_def split: if_splits\<close>)
qed

lemma run_inv_pass_end:
  fixes D :: "'m decode_env"
  assumes l: "l = Dispatcher_Pass_End e now"
    and inv: "run_inv c R D E specs names raw ls hs s"
    and step: "run_step c R D E (Dispatcher_Pass_End e now) s = Some s'"
  shows "run_inv c R D E specs names raw (ls @ [l]) (hs @ effects_by l s) s'"
proof -
  define la where "la = rn_lane s e"
  define dp' where "dp' = dp_pass_end (rn_shutdown s) now (ln_dispatcher la)"
  have nd: "\<not> dp_done (ln_dispatcher la)" and s': "s' = set_lane e (la\<lparr>ln_rings := (if dp_done dp' then map ring_close (ln_rings la) else ln_rings la),
      ln_dispatcher := dp'\<rparr>) s"
    using step by (auto simp: Let_def la_def dp'_def split: if_splits)
  have ring: "dp_stage (ln_dispatcher la) = At_Ring" using step by (auto simp: Let_def la_def split: if_splits)
  have dp': "dp_state dp' = dp_state (ln_dispatcher la)" "dp_stage dp' = dp_stage (ln_dispatcher la)" "dp_done dp' \<Longrightarrow> rn_shutdown s"
    using nd by (auto simp: dp'_def dp_pass_end_def Let_def split: if_splits)
  have quiet: "delivered_by D (lane_roles specs) e' j l = []" for e' j by (simp add: l delivered_by_def)
  have lane: "lane_inv D (lane_roles specs) (ls @ [l]) hs e' (rn_lane s e')" for e'
    using inv by (intro lane_inv_other quiet) (simp add: run_inv_def)
  have "lane_inv D (lane_roles specs) (ls @ [l]) hs e (rn_lane s' e)"
    using lane [of e] nd ring dp'(2) by (auto simp: s' la_def [symmetric] lane_inv_def ring_acc_close uncounted_def)
  then have "lane_inv D (lane_roles specs) (ls @ [l]) hs e' (rn_lane s' e')" for e'
    using lane [of e'] by (cases "e' = e") (simp_all add: s')
  moreover have "rn_shutdown s'" if "dp_done (ln_dispatcher (rn_lane s' e'))" for e'
    using that dp'(3) inv by (auto simp: s' run_inv_def split: if_splits)
  ultimately show ?thesis using dp'(1,2) by (intro run_inv_quiet [OF inv]) (simp_all add: s' l la_def)
qed

lemma run_inv_dispatcher:
  fixes D :: "'m decode_env"
  assumes l: "l = Dispatcher_Step e io"
    and inv: "run_inv c R D E specs names raw ls hs s"
    and step: "run_step c R D E (Dispatcher_Step e io) s = Some s'"
  shows "run_inv c R D E specs names raw (ls @ [l]) (hs @ effects_by l s) s'"
proof -
  define la where "la = rn_lane s e"
  define dp where "dp = ln_dispatcher la"
  let ?gs = "effects_by l s"
  obtain rings shd dp' where nd: "\<not> dp_done dp" and ring: "dp_ring dp < length (ln_rings la)"
    and dstep: "dp_step R E io (ln_rings la, rn_shared s, dp) = (rings, shd, dp')"
    and s': "s' = set_lane e (la\<lparr>ln_rings := rings, ln_dispatcher := dp'\<rparr>) (s\<lparr>rn_shared := shd\<rparr>)"
    using step by (auto simp: Let_def la_def dp_def split: if_splits prod.splits)
  have gs: "?gs = map (Pair e) (effect_of io (ln_rings la) dp)" by (simp add: l effects_by_def la_def dp_def)
  have lane: "lane_inv D (lane_roles specs) ls hs e' (rn_lane s e')" for e' using inv by (simp add: run_inv_def)
  have quiet: "delivered_by D (lane_roles specs) e' j l = []" for e' j by (simp add: l delivered_by_def)
  have foreign: "taken_from e' j ?gs = []" if "e' \<noteq> e" for e' j
    using that dstep by (elim dp_step_rings) (simp_all add: gs history)
  have own: "lane_inv D (lane_roles specs) (ls @ [l]) (hs @ ?gs) e (la\<lparr>ln_rings := rings, ln_dispatcher := dp'\<rparr>)"
    using lane_inv_dispatcher [OF lane [of e, folded la_def] ring [unfolded dp_def] dstep [unfolded dp_def] la_def [symmetric] nd [unfolded dp_def]]
    unfolding l .
  have lanes: "lane_inv D (lane_roles specs) (ls @ [l]) (hs @ ?gs) e' (rn_lane s' e')" for e'
    using own lane_inv_quiet [OF lane quiet foreign] by (simp add: s')
  have n: "length (ln_rings la) = length (lane_roles specs e)" using lane [of e] by (simp add: lane_inv_def la_def)
  have dinv: "dispatcher_inv R hs e' (ln_dispatcher (rn_lane s e'))" for e' using inv by (simp add: run_inv_def)
  have here: "dispatcher_inv R hs e dp" using dinv [of e] by (simp add: dp_def la_def)
  have held: "ev_endpoint ev = e" if "ev \<in> set (to_tally (dp_stage dp))" for ev
  proof -
    have t: "of_endpoint e (tallied_events hs) @ to_tally (dp_stage dp) = taken_by e hs"
      and "\<forall>ev \<in> set (taken_by e hs). ev_endpoint ev = e"
      using here unfolding dispatcher_inv_def by blast+
    moreover have "ev \<in> set (taken_by e hs)" unfolding t [symmetric] using that by simp
    ultimately show ?thesis by blast
  qed
  have origin: "origin_inv D (lane_roles specs) (ls @ [l]) (hs @ ?gs)
      \<and> (\<forall>i ev. (e, Took i ev) \<in> set ?gs \<longrightarrow> ev_endpoint ev = e)"
  proof -
    have old: "origin_inv D (lane_roles specs) ls hs" using inv by (simp add: run_inv_def)
    have new: "i < length (lane_roles specs e) \<and> ev \<in> set (delivered_to D (lane_roles specs) e i ls) \<and> ev_subscription ev = lane_roles specs e ! i"
      if t: "(e, Took i ev) \<in> set ?gs" for i ev using dstep
    proof (cases rule: dp_step_rings)
      case (take_event ev' r)
      then have iev: "i = dp_ring dp" "ev' = ev" using t by (auto simp: gs)
      have acc: "ring_acc (lane_roles specs e ! i) (delivered_to D (lane_roles specs) e i ls) (taken_from e i hs) 0 (ln_rings la ! i)"
        using lane [of e] ring n take_event(1) by (simp add: lane_inv_def la_def iev dp_def uncounted_def)
      have "ring_try_recv (ln_rings la ! i) = (Inr ev, r)" using take_event(2) iev by simp
      from ring_acc_recv [OF acc this] have "ev \<in> set (delivered_to D (lane_roles specs) e i ls)" by blast
      moreover have "\<forall>ev \<in> set (delivered_to D (lane_roles specs) e i ls). ev_subscription ev = lane_roles specs e ! i"
        using acc unfolding ring_acc_def by blast
      ultimately show ?thesis using ring n iev(1) by simp
    qed (use t in \<open>auto simp: gs\<close>)
    have "ev_endpoint ev = e" if "(e, Took i ev) \<in> set ?gs" for i ev
      using new [OF that] lane_roles_endpoint [of i specs e] by simp
    moreover have "origin_inv D (lane_roles specs) (ls @ [l]) (hs @ ?gs)"
      unfolding origin_inv_def delivered_to_snoc quiet append_Nil2 set_append
    proof (intro allI impI, elim UnE)
      fix e' i ev
      assume "(e', Took i ev) \<in> set hs"
      then show "i < length (lane_roles specs e') \<and> ev \<in> set (delivered_to D (lane_roles specs) e' i ls)
          \<and> ev_subscription ev = lane_roles specs e' ! i"
        using old unfolding origin_inv_def by blast
    next
      fix e' i ev
      assume a: "(e', Took i ev) \<in> set ?gs"
      then have "e' = e" by (auto simp: gs)
      then show "i < length (lane_roles specs e') \<and> ev \<in> set (delivered_to D (lane_roles specs) e' i ls)
          \<and> ev_subscription ev = lane_roles specs e' ! i"
        using new a by blast
    qed
    ultimately show ?thesis by blast
  qed
  have dispatchers: "dispatcher_inv R (hs @ ?gs) e' (ln_dispatcher (rn_lane s' e'))" for e'
  proof (cases "e' = e")
    case True
    have took: "ev_endpoint ev = e" if "effect_of io (ln_rings la) dp = [Took i ev]" for i ev
      using origin that by (auto simp: gs)
    have "dispatcher_inv R (hs @ ?gs) e dp'" using dstep
    proof (cases rule: dp_step_rings)
      case (match ev)
      have t: "of_endpoint e (matched_events hs) @ [ev] = taken_by e hs" using here match(1) by (simp add: dispatcher_inv_def)
      have "fold (st_observe R) (taken_by e hs) x = st_observe R ev (fold (st_observe R) (of_endpoint e (matched_events hs)) x)"
        "fold (cs_observe R) (taken_by e hs) y = cs_observe R ev (fold (cs_observe R) (of_endpoint e (matched_events hs)) y)" for x y
        unfolding t [symmetric] by simp_all
      then show ?thesis using here held match by (simp add: dispatcher_inv_def gs history)
    qed (use here held took in \<open>simp_all add: dispatcher_inv_def gs history\<close>)
    then show ?thesis by (simp add: s' True)
  next
    case False
    have "dispatcher_inv R (hs @ ?gs) e' (ln_dispatcher (rn_lane s e'))" using dstep
      by (cases rule: dp_step_rings)
        (use dinv [of e'] held False in \<open>simp_all add: dispatcher_inv_def gs history\<close>)
    then show ?thesis using False by (simp add: s')
  qed
  have st: "dispatcher_states s' = (dispatcher_states s)(e := dp_state dp')" by (auto simp: dispatcher_states_def s' fun_eq_iff)
  have ste: "dispatcher_states s e = dp_state dp" by (simp add: dispatcher_states_def dp_def la_def)
  have sinv: "shared_inv c R E names raw hs s" using inv by (simp add: run_inv_def)
  have sh: "rn_shared s' = shd" by (simp add: s')
  have ctr: "(\<lambda>e'. ds_counters (dispatcher_states s' e')) = (\<lambda>e'. ds_counters (dispatcher_states s e'))"
    if "ds_counters (dp_state dp') = ds_counters (dp_state dp)"
    using that by (simp add: st ste fun_eq_iff)
  have shared: "shared_inv c R E names raw (hs @ ?gs) s'" using dstep
  proof (cases rule: dp_step_rings)
    case (count ev k n)
    have ev: "ev_endpoint ev = e" using held count(1) by simp
    have T: "fold tally (tallied_events hs) (0, \<lambda>_. ingest_counters_partial_default) =
        (shd_total_slots (rn_shared s), \<lambda>e. ds_counters (dispatcher_states s e))"
      using sinv by (simp add: shared_inv_def)
    have "(n, \<lambda>e'. ds_counters (dispatcher_states s' e')) = tally ev (shd_total_slots (rn_shared s), \<lambda>e. ds_counters (dispatcher_states s e))"
      by (auto simp: tally_def ev ste st count fun_eq_iff)
    then show ?thesis using sinv by (simp add: shared_inv_def gs count history sh T)
  qed (use sinv in \<open>simp_all add: shared_inv_def gs history ctr sh write_all_def option.map_comp comp_def\<close>)
  have "dp_done dp' = dp_done dp" using dp_step_frame [OF dstep] by simp
  then have "rn_shutdown s'" if "dp_done (ln_dispatcher (rn_lane s' e'))" for e'
    using that nd inv by (cases "e' = e") (auto simp: s' run_inv_def)
  then show ?thesis using lanes shared dispatchers origin by (simp add: run_inv_def)
qed

lemma run_inv_flag:
  assumes inv: "run_inv c R D E specs names raw ls hs s" and l: "l = Interrupt \<or> (\<exists>t. l = Coordinator_Tick t)"
    and step: "run_step c R D E l s = Some s'"
  shows "run_inv c R D E specs names raw (ls @ [l]) (hs @ effects_by l s) s'"
proof (intro run_inv_quiet [OF inv])
  have f: "rn_lane s' = rn_lane s" "rn_shared s' = rn_shared s" "rn_shutdown s \<Longrightarrow> rn_shutdown s'"
    using l step by (auto split: if_splits)
  show "lane_inv D (lane_roles specs) (ls @ [l]) hs e (rn_lane s' e)" for e
    using inv l by (intro lane_inv_other) (auto simp: run_inv_def f delivered_by_def)
  show "rn_shared s' = rn_shared s" by (rule f)
  show "dp_state (ln_dispatcher (rn_lane s' e)) = dp_state (ln_dispatcher (rn_lane s e))
      \<and> dp_stage (ln_dispatcher (rn_lane s' e)) = dp_stage (ln_dispatcher (rn_lane s e))" for e by (simp add: f)
  show "rn_shutdown s'" if "dp_done (ln_dispatcher (rn_lane s' e))" for e
    using that inv f(3) unfolding run_inv_def f(1) by blast
  show "l \<noteq> Dispatcher_Step e io" for e io using l by auto
qed

lemma run_inv_trace:
  assumes "run_trace c R D E s0 ls hs s" and "run_start c R specs names raw = Some s0"
  shows "run_inv c R D E specs names raw ls hs s"
  using assms
proof (induction rule: run_trace.induct)
  case run_trace_start
  then show ?case by (rule run_inv_start)
next
  case (run_trace_step ls hs s l s')
  note inv = run_trace_step.IH [OF run_trace_step.prems] and step = run_trace_step.hyps(2)
  show ?case
  proof (cases l)
    case (Receiver_Step e i inp)
    show ?thesis using run_inv_receive [OF inv step [unfolded Receiver_Step]] unfolding Receiver_Step .
  next
    case (Dispatcher_Step e io)
    show ?thesis by (rule run_inv_dispatcher [OF Dispatcher_Step inv step [unfolded Dispatcher_Step]])
  next
    case (Dispatcher_Pass_End e now)
    show ?thesis by (rule run_inv_pass_end [OF Dispatcher_Pass_End inv step [unfolded Dispatcher_Pass_End]])
  next
    case (Coordinator_Tick t)
    then show ?thesis by (intro run_inv_flag [OF inv _ step]) simp
  next
    case Interrupt
    then show ?thesis by (intro run_inv_flag [OF inv _ step]) simp
  qed
qed

section \<open>Properties of every run\<close>

lemma taken_by_mem: "ev \<in> set (taken_by e hs) \<Longrightarrow> \<exists>i. (e, Took i ev) \<in> set hs"
  unfolding taken_by_def by (induction hs) (auto split: effect.splits if_splits)

lemma run_taken_endpoint:
  assumes "run_inv c R D E specs names raw ls hs s" and "ev \<in> set (taken_by e hs)"
  shows "ev_endpoint ev = e"
  using assms unfolding run_inv_def dispatcher_inv_def by blast

text \<open>A dispatcher's three orders are one: what it took, up to the event it holds.\<close>

lemma run_orders:
  assumes "run_inv c R D E specs names raw ls hs s"
  shows "of_endpoint e (matched_events hs) @ to_match (dp_stage (ln_dispatcher (rn_lane s e))) = taken_by e hs"
    and "of_endpoint e (map fst (logged_events hs)) @ to_log (dp_stage (ln_dispatcher (rn_lane s e))) = taken_by e hs"
    and "of_endpoint e (tallied_events hs) @ to_tally (dp_stage (ln_dispatcher (rn_lane s e))) = taken_by e hs"
  using assms unfolding run_inv_def dispatcher_inv_def by blast+

lemma run_done_stage:
  assumes "run_inv c R D E specs names raw ls hs s" and "dp_done (ln_dispatcher (rn_lane s e))"
  shows "dp_stage (ln_dispatcher (rn_lane s e)) = At_Ring" and "uncounted (ln_dispatcher (rn_lane s e)) i = 0"
proof -
  have "lane_inv D (lane_roles specs) ls hs e (rn_lane s e)" using assms(1) by (simp add: run_inv_def)
  then show "dp_stage (ln_dispatcher (rn_lane s e)) = At_Ring" using assms(2) unfolding lane_inv_def by blast
  then show "uncounted (ln_dispatcher (rn_lane s e)) i = 0" by (simp add: uncounted_def)
qed

text \<open>Every event handed to the matchers was delivered on a subscription of the plan.\<close>

lemma matched_event_origin:
  assumes inv: "run_inv c R D E specs names raw ls hs s" and ev: "ev \<in> set (matched_events hs)"
  obtains e i where "i < length (lane_specs specs e)" and "ev \<in> set (delivered_to D (lane_roles specs) e i ls)"
    and "ev_subscription ev = sp_role (lane_specs specs e ! i)" and "lane_specs specs e ! i \<in> set specs"
proof -
  let ?e = "ev_endpoint ev"
  have "ev \<in> set (taken_by ?e hs)"
    unfolding run_orders(1) [OF inv, of ?e, symmetric] using ev by (simp add: of_endpoint_def)
  then obtain i where "(?e, Took i ev) \<in> set hs" using taken_by_mem by blast
  moreover have "origin_inv D (lane_roles specs) ls hs" using inv by (simp add: run_inv_def)
  ultimately have h: "i < length (lane_roles specs ?e)" "ev \<in> set (delivered_to D (lane_roles specs) ?e i ls)"
    "ev_subscription ev = lane_roles specs ?e ! i"
    unfolding origin_inv_def by blast+
  have "lane_specs specs ?e ! i \<in> set (lane_specs specs ?e)" using h(1) by (simp add: lane_roles_def)
  then show ?thesis using that [of i ?e] h by (simp add: lane_roles_def lane_specs_def)
qed

text \<open>C1. No event is lost unnoticed, whatever the interleaving: in every reachable state, for every subscription of
  the plan, the events its ring handed to the dispatcher followed by those still queued are a subsequence, in
  order, of the events the receiver decoded; the received counter is the number handed over, less the one event
  the dispatcher may hold and is about to count; the queue is within the capacity; and as long as the dispatcher
  runs, received, held, dropped and queued events add up to the decoded ones (counters modulo two to the 64).\<close>

theorem run_accounts_for_every_event:
  assumes "run_start c R specs names raw = Some s0" and "run_trace c R D E s0 ls hs s" and "i < length (lane_roles specs e)"
  shows "let ring = ln_rings (rn_lane s e) ! i;
             held = uncounted (ln_dispatcher (rn_lane s e)) i;
             decoded = delivered_to D (lane_roles specs) e i ls;
             taken = taken_from e i hs
         in subseq (taken @ rg_queue ring) decoded
          \<and> rs_received (rg_stats ring) + of_nat held = of_nat (length taken) \<and> held \<le> 1
          \<and> ring_pending ring \<le> unat (rg_capacity ring)
          \<and> (dp_done (ln_dispatcher (rn_lane s e)) \<or>
               rs_received (rg_stats ring) + of_nat held + rs_dropped (rg_stats ring) + of_nat (ring_pending ring)
                 = of_nat (length decoded))"
proof -
  let ?n = "uncounted (ln_dispatcher (rn_lane s e)) i"
  have "lane_inv D (lane_roles specs) ls hs e (rn_lane s e)"
    using run_inv_trace [OF assms(2,1)] by (simp add: run_inv_def)
  then have acc: "ring_acc (lane_roles specs e ! i) (delivered_to D (lane_roles specs) e i ls) (taken_from e i hs) ?n (ln_rings (rn_lane s e) ! i)"
    and alive: "\<not> dp_done (ln_dispatcher (rn_lane s e)) \<longrightarrow> rg_receiver_alive (ln_rings (rn_lane s e) ! i)"
    using assms(3) unfolding lane_inv_def by blast+
  have "?n \<le> 1" by (simp add: uncounted_def split: dispatch_stage.split)
  then show ?thesis
    using acc alive by (auto simp: ring_acc_def Let_def ring_pending_def add.commute)
qed

lemma run_stability:
  assumes "run_inv c R D E specs names raw ls hs s"
  shows "ds_stability (dispatcher_states s e) = fold (st_observe R) (matched_events hs) (st_new R e)"
proof -
  have "st_endpoint (st_new R e) = e" by (simp add: st_new_def)
  moreover have "ds_stability (dispatcher_states s e) = fold (st_observe R) (of_endpoint e (matched_events hs)) (st_new R e)"
    using assms by (simp add: run_inv_def dispatcher_inv_def dispatcher_states_def)
  ultimately show ?thesis
    using st_track.fold_own_events [of R "matched_events hs" "st_new R e"] by (simp add: of_endpoint_def)
qed

lemma run_cross:
  assumes "run_inv c R D E specs names raw ls hs s"
  shows "ds_cross (dispatcher_states s e) = fold (cs_observe R) (matched_events hs) (cs_new R e)"
proof -
  have "cs_endpoint (cs_new R e) = e" by (simp add: cs_new_def)
  moreover have "ds_cross (dispatcher_states s e) = fold (cs_observe R) (of_endpoint e (matched_events hs)) (cs_new R e)"
    using assms by (simp add: run_inv_def dispatcher_inv_def dispatcher_states_def)
  ultimately show ?thesis
    using cs_track.fold_own_events [of R "matched_events hs" "cs_new R e"] by (simp add: of_endpoint_def)
qed

lemma run_counters:
  assumes "run_inv c R D E specs names raw ls hs s"
  shows "(shd_total_slots (rn_shared s), \<lambda>e. ds_counters (dispatcher_states s e)) =
     fold tally (tallied_events hs) (0, \<lambda>_. ingest_counters_partial_default)"
  using assms by (simp add: run_inv_def shared_inv_def)

text \<open>Between two events of both dispatchers, the state is that of a sequential run.\<close>

definition sequential :: "config \<Rightarrow> 'd runtime \<Rightarrow> raw_env \<Rightarrow> (pubkey32, string) hmap \<Rightarrow> event list \<Rightarrow> 'd shared \<times> (endpoint_role \<Rightarrow> 'd endpoint_state)" where
  "sequential c R E names evs =
     fold (process R E) (map (\<lambda>ev. (ev, None)) evs) (shared_new R (cf_strict_account_key c) names None, endpoint_state_new R)"

lemma run_between_events:
  assumes inv: "run_inv c R D E specs names raw ls hs s" and ring: "\<And>e. dp_stage (ln_dispatcher (rn_lane s e)) = At_Ring"
  shows "dispatcher_states s = snd (sequential c R E names (matched_events hs))"
    and "shd_total_slots (rn_shared s) = shd_total_slots (fst (sequential c R E names (matched_events hs)))"
    and "shd_matchers (rn_shared s) = shd_matchers (fst (sequential c R E names (matched_events hs)))"
proof -
  let ?evs = "matched_events hs" and ?p = "sequential c R E names (matched_events hs)"
  have mf: "map fst (map (\<lambda>ev. (ev, None)) ?evs) = ?evs" by (simp add: comp_def)
  have "of_endpoint e (tallied_events hs) = of_endpoint e ?evs" for e
    using run_orders(1,3) [OF inv, of e] by (simp add: ring)
  then have "fold tally (tallied_events hs) (0, \<lambda>_. ingest_counters_partial_default) = fold tally ?evs (0, \<lambda>_. ingest_counters_partial_default)"
    by (rule fold_tally_cong)
  also have "\<dots> = tallied_state ?p"
    unfolding sequential_def process_fold_tally mf
    by (simp add: tallied_state_def shared_new_def endpoint_state_new_def)
  finally have t: "(shd_total_slots (rn_shared s), \<lambda>e. ds_counters (dispatcher_states s e)) = tallied_state ?p"
    unfolding run_counters [OF inv] .
  then show tot: "shd_total_slots (rn_shared s) = shd_total_slots (fst ?p)" by (simp add: tallied_state_def)
  have "ds_counters (dispatcher_states s e) = ds_counters (snd ?p e)" for e
    using t by (simp add: tallied_state_def fun_eq_iff)
  moreover have "ds_stability (dispatcher_states s e) = ds_stability (snd ?p e)" for e
    using inv unfolding sequential_def process_fold_stability mf
    by (simp add: run_inv_def dispatcher_inv_def dispatcher_states_def endpoint_state_new_def of_endpoint_def)
  moreover have "ds_cross (dispatcher_states s e) = ds_cross (snd ?p e)" for e
    using inv unfolding sequential_def process_fold_cross mf
    by (simp add: run_inv_def dispatcher_inv_def dispatcher_states_def endpoint_state_new_def of_endpoint_def)
  ultimately show "dispatcher_states s = snd ?p" by (intro ext) (rule endpoint_state.equality, simp_all)
  show "shd_matchers (rn_shared s) = shd_matchers (fst ?p)"
    using inv unfolding sequential_def process_fold_matchers mf by (simp add: run_inv_def shared_inv_def shared_new_def)
qed

text \<open>C2. The concurrent run computes what a sequential one does. In every reachable state the matchers are the
  result of dispatching the events one after another in the order the two dispatchers reached them, each
  endpoint's trackers are those of that sequence, and the log file is the records of the logged events; each
  dispatcher matches and logs the events in the order it took them, except the one it holds (the two may
  interleave differently at the matchers and at the log); whenever neither dispatcher holds an event, the states
  of the dispatchers and the slot counter are those of processing the sequence one event at a time; and every
  event was decoded from a subscription of the plan that belongs to its endpoint.\<close>

theorem run_is_sequential:
  assumes "run_start c R specs names raw = Some s0" and "run_trace c R D E s0 ls hs s"
  shows "let evs = matched_events hs; stage = (\<lambda>e. dp_stage (ln_dispatcher (rn_lane s e)))
         in shd_matchers (rn_shared s) = fold (dispatch R) evs (sms_with_strict_account_key (cf_strict_account_key c) (sms_new R names))
          \<and> ds_stability (dispatcher_states s e) = fold (st_observe R) evs (st_new R e)
          \<and> ds_cross (dispatcher_states s e) = fold (cs_observe R) evs (cs_new R e)
          \<and> shd_raw_writer (rn_shared s) = write_all E (logged_events hs) raw
          \<and> of_endpoint e evs @ to_match (stage e) = taken_by e hs
          \<and> of_endpoint e (map fst (logged_events hs)) @ to_log (stage e) = taken_by e hs
          \<and> (stage One = At_Ring \<and> stage Two = At_Ring \<longrightarrow>
               dispatcher_states s = snd (sequential c R E names evs)
               \<and> shd_total_slots (rn_shared s) = shd_total_slots (fst (sequential c R E names evs)))
          \<and> ev_subscription ` set evs \<subseteq> sp_role ` set specs"
proof -
  have inv: "run_inv c R D E specs names raw ls hs s" by (rule run_inv_trace [OF assms(2,1)])
  have "ev_subscription ev \<in> sp_role ` set specs" if "ev \<in> set (matched_events hs)" for ev
    by (rule matched_event_origin [OF inv that]) simp
  then have roles: "ev_subscription ` set (matched_events hs) \<subseteq> sp_role ` set specs" by blast
  have sh: "shared_inv c R E names raw hs s" using inv by (simp add: run_inv_def)
  have quiet: "dp_stage (ln_dispatcher (rn_lane s One)) = At_Ring \<and> dp_stage (ln_dispatcher (rn_lane s Two)) = At_Ring \<longrightarrow>
      dispatcher_states s = snd (sequential c R E names (matched_events hs))
      \<and> shd_total_slots (rn_shared s) = shd_total_slots (fst (sequential c R E names (matched_events hs)))"
  proof
    assume a: "dp_stage (ln_dispatcher (rn_lane s One)) = At_Ring \<and> dp_stage (ln_dispatcher (rn_lane s Two)) = At_Ring"
    have "dp_stage (ln_dispatcher (rn_lane s e)) = At_Ring" for e using a by (cases e) simp_all
    then show "dispatcher_states s = snd (sequential c R E names (matched_events hs))
      \<and> shd_total_slots (rn_shared s) = shd_total_slots (fst (sequential c R E names (matched_events hs)))"
      using run_between_events [OF inv] by blast
  qed
  show ?thesis
    using sh run_stability [OF inv, of e] run_cross [OF inv, of e] run_orders(1,2) [OF inv, of e] quiet roles
    unfolding Let_def shared_inv_def by blast
qed

section \<open>A pass ends\<close>

text \<open>The steps a pass can still take.\<close>

fun stage_left :: "dispatch_stage \<Rightarrow> nat" where
  "stage_left At_Ring = 0"
| "stage_left (At_Received _) = 4"
| "stage_left (At_Matchers _) = 3"
| "stage_left (At_Log _) = 2"
| "stage_left (At_Counters _) = 1"

definition pass_left :: "'d lane \<Rightarrow> nat" where
  "pass_left la = (length (ln_rings la) - dp_ring (ln_dispatcher la)) * (5 * DRAIN_BUDGET_PER_RING + 1)
     + stage_left (dp_stage (ln_dispatcher la)) - 5 * dp_drained (ln_dispatcher la)"

fun is_dispatcher_step :: "endpoint_role \<Rightarrow> 'm run_label \<Rightarrow> bool" where
  "is_dispatcher_step e (Dispatcher_Step e' _) = (e' = e)"
| "is_dispatcher_step e _ = False"

fun is_pass_end_of :: "endpoint_role \<Rightarrow> 'm run_label \<Rightarrow> bool" where
  "is_pass_end_of e (Dispatcher_Pass_End e' _) = (e' = e)"
| "is_pass_end_of e _ = False"

lemma dispatcher_progress:
  assumes step: "dp_step R E io (rings, shd, dp) = (rings', shd', dp')" and dp: "dp_ring dp < length rings" "dp_drained dp \<le> B"
    and B: "B = DRAIN_BUDGET_PER_RING"
  shows "length rings' = length rings \<and> dp_drained dp' \<le> B
    \<and> (length rings - dp_ring dp') * (5 * B + 1) + stage_left (dp_stage dp') - 5 * dp_drained dp'
      < (length rings - dp_ring dp) * (5 * B + 1) + stage_left (dp_stage dp) - 5 * dp_drained dp"
proof -
  obtain k where k: "length rings = dp_ring dp + Suc k" using less_imp_Suc_add [OF dp(1)] by auto
  have here: "length rings - dp_ring dp = Suc k" and next_ring: "length rings - (dp_ring dp + 1) = k" unfolding k by simp_all
  have room: "5 * dp_drained dp < (Suc k) * (5 * B + 1)"
    using dp(2) unfolding mult_Suc by (meson less_add_one add_lessD1 le_less_trans mult_le_mono2 trans_less_add1)
  show ?thesis using step
  proof (cases rule: dp_step_rings)
    case advance
    have "k * (5 * B + 1) < (Suc k) * (5 * B + 1) - 5 * dp_drained dp" using dp(2) unfolding mult_Suc by linarith
    then show ?thesis
      unfolding advance(3,5) by (simp add: advance(1) next_ring [unfolded add.commute [of _ 1] plus_1_eq_Suc] here del: mult_Suc)
  next
    case (take_event ev ring)
    have "(Suc k) * (5 * B + 1) + 4 - 5 * (dp_drained dp + 1) < (Suc k) * (5 * B + 1) - 5 * dp_drained dp"
      using room by (simp del: mult_Suc)
    then show ?thesis using take_event(3) unfolding take_event(1) by (simp add: take_event(4,6) here B del: mult_Suc)
  qed (use dp room in \<open>simp_all add: here del: mult_Suc\<close>)
qed

lemma step_pass_left:
  assumes step: "run_step c R D E l s = Some s'" and l: "\<not> is_pass_end_of e l"
    and d: "dp_drained (ln_dispatcher (rn_lane s e)) \<le> DRAIN_BUDGET_PER_RING"
  shows "dp_drained (ln_dispatcher (rn_lane s' e)) \<le> DRAIN_BUDGET_PER_RING
    \<and> pass_left (rn_lane s' e) + (if is_dispatcher_step e l then 1 else 0) \<le> pass_left (rn_lane s e)"
proof (cases l)
  case (Dispatcher_Step e' io)
  show ?thesis
  proof (cases "e' = e")
    case True
    then obtain rings shd dp' where live: "dp_ring (ln_dispatcher (rn_lane s e)) < length (ln_rings (rn_lane s e))"
      and own: "dp_step R E io (ln_rings (rn_lane s e), rn_shared s, ln_dispatcher (rn_lane s e)) = (rings, shd, dp')"
      and s': "s' = set_lane e ((rn_lane s e)\<lparr>ln_rings := rings, ln_dispatcher := dp'\<rparr>) (s\<lparr>rn_shared := shd\<rparr>)"
      using step Dispatcher_Step by (auto simp: Let_def split: if_splits prod.splits)
    show ?thesis using dispatcher_progress [OF own live d refl] True by (simp add: Dispatcher_Step s' pass_left_def)
  next
    case False
    then have "rn_lane s' e = rn_lane s e" using step Dispatcher_Step by (auto simp: Let_def split: if_splits prod.splits)
    then show ?thesis using d False by (simp add: Dispatcher_Step)
  qed
next
  case (Receiver_Step e' i inp)
  then obtain rx ring where "s' = set_lane e' ((rn_lane s e')\<lparr>ln_receivers := (ln_receivers (rn_lane s e'))[i := rx],
      ln_rings := (ln_rings (rn_lane s e'))[i := ring]\<rparr>) (note_realtime (applies_realtime inp) s)"
    using step by (auto simp: Let_def split: if_splits option.splits)
  then have "ln_dispatcher (rn_lane s' e) = ln_dispatcher (rn_lane s e)"
    "length (ln_rings (rn_lane s' e)) = length (ln_rings (rn_lane s e))" by simp_all
  then show ?thesis using d by (simp add: pass_left_def Receiver_Step)
next
  case (Dispatcher_Pass_End e' now)
  then have "rn_lane s' e = rn_lane s e" using step l by (auto simp: Let_def split: if_splits)
  then show ?thesis using d by (simp add: Dispatcher_Pass_End)
next
  case (Coordinator_Tick t)
  then have "rn_lane s' = rn_lane s" using step by (auto split: if_splits)
  then show ?thesis using d by (simp add: Coordinator_Tick)
next
  case Interrupt
  then have "rn_lane s' = rn_lane s" using step by auto
  then show ?thesis using d by (simp add: Interrupt)
qed

lemma exec_pass_left:
  assumes "run_exec c R D E ls (hs, s) = Some (hs', s')" and "list_all (\<lambda>l. \<not> is_pass_end_of e l) ls"
    and "dp_drained (ln_dispatcher (rn_lane s e)) \<le> DRAIN_BUDGET_PER_RING"
  shows "length (filter (is_dispatcher_step e) ls) \<le> pass_left (rn_lane s e)"
  using assms
proof (induction ls arbitrary: hs s)
  case (Cons l ls)
  obtain s1 where s1: "run_step c R D E l s = Some s1" using Cons.prems(1) by (cases "run_step c R D E l s") auto
  have ex: "run_exec c R D E ls (hs @ effects_by l s, s1) = Some (hs', s')" using Cons.prems(1) s1 by simp
  have "\<not> is_pass_end_of e l" "list_all (\<lambda>l. \<not> is_pass_end_of e l) ls" using Cons.prems(2) by simp_all
  note st = step_pass_left [OF s1 this(1) Cons.prems(3)] and IH = Cons.IH [OF ex this(2)]
  show ?case using st IH by (cases "is_dispatcher_step e l") auto
qed simp

text \<open>C26. No receiver can hold a dispatcher in a pass: in any schedule, however fast the receivers refill the rings,
  between two ends of its passes a dispatcher takes at most 5121 steps per ring (1024 events of five steps and one
  step to the next ring) besides those for an event it already holds, so the stop condition, the other rings and
  the shutdown flag are looked at again.\<close>

theorem dispatcher_pass_bounded:
  assumes "run_exec c R D E ls (hs, s) = Some (hs', s')" and "list_all (\<lambda>l. \<not> is_pass_end_of e l) ls"
    and "dp_drained (ln_dispatcher (rn_lane s e)) \<le> DRAIN_BUDGET_PER_RING"
  shows "length (filter (is_dispatcher_step e) ls)
    \<le> length (ln_rings (rn_lane s e)) * 5121 + stage_left (dp_stage (ln_dispatcher (rn_lane s e)))"
proof -
  have "pass_left (rn_lane s e) \<le> (length (ln_rings (rn_lane s e)) - dp_ring (ln_dispatcher (rn_lane s e))) * 5121
      + stage_left (dp_stage (ln_dispatcher (rn_lane s e)))"
    by (simp add: pass_left_def DRAIN_BUDGET_PER_RING_def)
  also have "\<dots> \<le> length (ln_rings (rn_lane s e)) * 5121 + stage_left (dp_stage (ln_dispatcher (rn_lane s e)))" by simp
  finally show ?thesis using exec_pass_left [OF assms] by simp
qed

text \<open>And it is never stuck: until it is done, one of its two steps is possible.\<close>

lemma dispatcher_enabled:
  assumes "run_inv c R D E' specs names raw ls hs s" and "\<not> dp_done (ln_dispatcher (rn_lane s e))"
  shows "run_step c R D E (Dispatcher_Step e io) s \<noteq> None \<or> run_step c R D E (Dispatcher_Pass_End e now) s \<noteq> None"
proof -
  have "lane_inv D (lane_roles specs) ls hs e (rn_lane s e)" using assms(1) by (simp add: run_inv_def)
  then show ?thesis using assms(2) by (auto simp: lane_inv_def Let_def split: prod.split)
qed

text \<open>One slots subscription with a ring of one event: the second of two events is dropped.\<close>

definition slots_env :: "unit decode_env" where
  "slots_env = \<lparr>slot_status_try_from = (\<lambda>_. Some SlotProcessed), bs58_decode = (\<lambda>_. Inl []), encoded_len = (\<lambda>_. 0)\<rparr>"

definition slots_config :: config where
  "slots_config = sample_config\<lparr>cf_ring_capacity := 1, cf_solo := True, cf_endpoint2 := None\<rparr>"

definition slots_plan :: "subscription_spec list" where
  "slots_plan = plan_from_run_config slots_config []"

definition slot_answer :: "u64 \<Rightarrow> unit run_label" where
  "slot_answer n = Receiver_Step One 0 (Polled (Poll_Item \<lparr>tm_ts = \<lparr>mono_ns = n, wall_ms = n\<rparr>,
     tm_update = Some (Upd_Slot \<lparr>su_slot = n, su_status = 0\<rparr>)\<rparr>))"

definition slots_schedule :: "unit run_label list" where
  "slots_schedule = map (Receiver_Step One 0) [Thread_Started None None True, Check_Shutdown False, Connect_Ok, Open_Ok, Check_Shutdown False]
     @ [slot_answer 5, Receiver_Step One 0 (Check_Shutdown False), slot_answer 6] @ replicate 5 (Dispatcher_Step One None)"

definition slots_run :: "history \<times> rat list run_state" where
  "slots_run = the (run_exec slots_config list_runtime slots_env toy_raw_env slots_schedule
     ([], the (run_start slots_config list_runtime slots_plan [] None)))"

lemma slots_start:
  "run_start slots_config list_runtime slots_plan [] None =
     Some (the (run_start slots_config list_runtime slots_plan [] None))"
proof -
  have "(case run_start slots_config list_runtime slots_plan [] None of None \<Rightarrow> False | Some _ \<Rightarrow> True)"
    by code_simp
  then show ?thesis by (auto split: option.splits)
qed

lemma slots_trace:
  "run_trace slots_config list_runtime slots_env toy_raw_env
     (the (run_start slots_config list_runtime slots_plan [] None))
     slots_schedule (fst slots_run) (snd slots_run)"
proof -
  let ?s0 = "the (run_start slots_config list_runtime slots_plan [] None)"
  let ?run = "run_exec slots_config list_runtime slots_env toy_raw_env slots_schedule ([], ?s0)"
  have "(case ?run of None \<Rightarrow> False | Some _ \<Rightarrow> True)" by code_simp
  then have "?run = Some (fst slots_run, snd slots_run)" by (auto simp: slots_run_def split: option.splits)
  from run_exec_trace [OF run_trace_start this] show ?thesis by simp
qed

theorem run_accounts_for_every_event_witness:
  "map ev_payload (taken_from One 0 (fst slots_run)) = [Slot_Payload 5 Processed]
   \<and> (let ring = ln_rings (rn_lane (snd slots_run) One) ! 0
      in rs_received (rg_stats ring) + rs_dropped (rg_stats ring) + of_nat (ring_pending ring) = 2)"
proof -
  have taken: "map ev_payload (taken_from One 0 (fst slots_run)) = [Slot_Payload 5 Processed]" by code_simp
  have nd: "\<not> dp_done (ln_dispatcher (rn_lane (snd slots_run) One))" by code_simp
  have held: "uncounted (ln_dispatcher (rn_lane (snd slots_run) One)) 0 = 0" by code_simp
  have "0 < length (lane_roles slots_plan One)" by code_simp
  then have "let ring = ln_rings (rn_lane (snd slots_run) One) ! 0
      in rs_received (rg_stats ring) + rs_dropped (rg_stats ring) + of_nat (ring_pending ring)
        = of_nat (length (delivered_to slots_env (lane_roles slots_plan) One 0 slots_schedule))"
    using run_accounts_for_every_event [OF slots_start slots_trace, of 0 One] nd
    unfolding Let_def held semiring_1_class.of_nat_0 add_0_right by blast
  moreover have "length (delivered_to slots_env (lane_roles slots_plan) One 0 slots_schedule) = 2" by code_simp
  ultimately show ?thesis using taken by (simp only: of_nat_numeral)
qed

theorem run_is_sequential_witness:
  "dispatcher_states (snd slots_run) =
     snd (sequential slots_config list_runtime toy_raw_env [] (matched_events (fst slots_run)))
   \<and> map ev_payload (matched_events (fst slots_run)) = [Slot_Payload 5 Processed]"
proof -
  have "map ev_payload (matched_events (fst slots_run)) = [Slot_Payload 5 Processed]" by code_simp
  moreover have "dp_stage (ln_dispatcher (rn_lane (snd slots_run) One)) = At_Ring
      \<and> dp_stage (ln_dispatcher (rn_lane (snd slots_run) Two)) = At_Ring" by code_simp
  ultimately show ?thesis using run_is_sequential [OF slots_start slots_trace, of One] unfolding Let_def by blast
qed

theorem dispatcher_pass_bounded_witness:
  "length (filter (is_dispatcher_step One) slots_schedule) \<le> 5121
   \<and> length (filter (is_dispatcher_step One) slots_schedule) = 5"
proof -
  let ?s0 = "the (run_start slots_config list_runtime slots_plan [] None)"
  let ?run = "run_exec slots_config list_runtime slots_env toy_raw_env slots_schedule ([], ?s0)"
  have "(case ?run of None \<Rightarrow> False | Some _ \<Rightarrow> True)" by code_simp
  then have run: "?run = Some (fst slots_run, snd slots_run)" by (auto simp: slots_run_def split: option.splits)
  have "list_all (\<lambda>l. \<not> is_pass_end_of One l) slots_schedule" by code_simp
  moreover have "dp_drained (ln_dispatcher (rn_lane ?s0 One)) \<le> DRAIN_BUDGET_PER_RING" by code_simp
  moreover have "length (ln_rings (rn_lane ?s0 One)) = 1" by code_simp
  moreover have "stage_left (dp_stage (ln_dispatcher (rn_lane ?s0 One))) = 0" by code_simp
  moreover have "length (filter (is_dispatcher_step One) slots_schedule) = 5" by code_simp
  ultimately show ?thesis using dispatcher_pass_bounded [OF run, of One] by simp
qed

end
