(* ===== verification/Realtime.thy ===== *)
theory Realtime
  imports Run_System
begin

text \<open>
  Real-time priority (\<open>--realtime\<close>): how \<open>execute\<close> in \<open>src/run.rs\<close> decides whether the host metadata may say that it
  was in force, from the counter the receiver threads and the coordinator increment.
\<close>

section \<open>Expected and applied\<close>

definition rt_expected_count :: "config \<Rightarrow> subscription_spec list \<Rightarrow> u64" where
  "rt_expected_count c specs = (if cf_realtime c then u64_from_or (- 1) (length specs + 1) else 0)"

text \<open>The receivers that got the priority have counted themselves; the coordinator adds its own outcome.\<close>

definition rt_applied_count :: "config \<Rightarrow> sched_outcome \<Rightarrow> 'd run_state \<Rightarrow> u64" where
  "rt_applied_count c coordinator s =
     rn_rt_applied s + (if cf_realtime c \<and> coordinator = Sched_Applied then 1 else 0)"

definition rt_applied :: "config \<Rightarrow> subscription_spec list \<Rightarrow> sched_outcome \<Rightarrow> 'd run_state \<Rightarrow> bool" where
  "rt_applied c specs coordinator s \<longleftrightarrow>
     0 < rt_expected_count c specs \<and> rt_expected_count c specs \<le> rt_applied_count c coordinator s"

section \<open>The counter\<close>

text \<open>The counter is the number of receivers that run with the priority.\<close>

definition realtime_inv :: "config \<Rightarrow> 'd run_state \<Rightarrow> bool" where
  "realtime_inv c s \<longleftrightarrow>
     (\<forall>e. list_all (\<lambda>rx. rx_realtime rx = cf_realtime c \<and> (rx_phase rx = Rx_Start \<longrightarrow> \<not> rx_fifo rx)) (ln_receivers (rn_lane s e)))
   \<and> rn_rt_applied s = of_nat (\<Sum>e\<leftarrow>[One, Two]. length (filter rx_fifo (ln_receivers (rn_lane s e))))"

lemma count_update:
  assumes "i < length xs"
  shows "length (filter P (xs[i := y])) + (if P (xs ! i) then 1 else 0) = length (filter P xs) + (if P y then 1 else 0)"
proof -
  have "xs = take i xs @ xs ! i # drop (Suc i) xs" using assms by (rule id_take_nth_drop)
  then have "filter P xs = filter P (take i xs) @ filter P [xs ! i] @ filter P (drop (Suc i) xs)"
    by (metis filter_append append_Cons append_Nil)
  moreover have "filter P (xs[i := y]) = filter P (take i xs) @ filter P [y] @ filter P (drop (Suc i) xs)"
    using assms by (simp add: upd_conv_take_nth_drop)
  ultimately show ?thesis by simp
qed

lemma realtime_inv_start:
  assumes "run_start c R specs names raw = Some s0"
  shows "realtime_inv c s0"
proof -
  obtain l1 l2 where l: "lane_new c R specs One = Some l1" "lane_new c R specs Two = Some l2"
    and s0: "s0 = \<lparr>rn_shutdown = False, rn_rt_applied = 0, rn_shared = shared_new R (cf_strict_account_key c) names raw,
                rn_lane = (\<lambda>e. case e of One \<Rightarrow> l1 | Two \<Rightarrow> l2)\<rparr>"
    using assms by (auto simp: run_start_def split: if_splits option.splits)
  have rxs: "ln_receivers (rn_lane s0 e) = receivers_new c specs e" for e
    using l by (cases e) (auto simp: s0 lane_new_def split: option.splits)
  have new: "list_all (\<lambda>rx. rx_realtime rx = cf_realtime c \<and> \<not> rx_fifo rx) (receivers_new c specs e)" for e
    by (auto simp: receivers_new_def rx_start_def list_all_iff)
  then have "filter rx_fifo (receivers_new c specs e) = []" for e
    unfolding filter_empty_conv by (auto simp: list_all_iff)
  then show ?thesis using new unfolding realtime_inv_def rxs by (auto simp: s0 list_all_iff)
qed

lemma realtime_inv_step:
  assumes step: "run_step c R D E l s = Some s'" and inv: "realtime_inv c s"
  shows "realtime_inv c s'"
proof (cases l)
  case (Receiver_Step e i inp)
  define rxs where "rxs = ln_receivers (rn_lane s e)"
  obtain rx ring where i: "i < length rxs" and rx: "rx_step D inp (rxs ! i, ln_rings (rn_lane s e) ! i) = Some (rx, ring)"
    and s': "s' = set_lane e ((rn_lane s e)\<lparr>ln_receivers := rxs[i := rx], ln_rings := (ln_rings (rn_lane s e))[i := ring]\<rparr>)
      (note_realtime (applies_realtime inp) s)"
    using step by (auto simp: Receiver_Step rxs_def Let_def split: if_splits option.splits)
  have here: "rx_realtime (rxs ! i) = cf_realtime c" "rx_phase (rxs ! i) = Rx_Start \<Longrightarrow> \<not> rx_fifo (rxs ! i)"
    using inv i by (auto simp: realtime_inv_def rxs_def list_all_length)
  note f = rx_step_fifo [OF rx]
  have all: "list_all (\<lambda>rx. rx_realtime rx = cf_realtime c \<and> (rx_phase rx = Rx_Start \<longrightarrow> \<not> rx_fifo rx)) (ln_receivers (rn_lane s' e'))" for e'
  proof -
    let ?P = "\<lambda>rx. rx_realtime rx = cf_realtime c \<and> (rx_phase rx = Rx_Start \<longrightarrow> \<not> rx_fifo rx)"
    have old: "list_all ?P (ln_receivers (rn_lane s e'))" for e' using inv by (simp add: realtime_inv_def)
    have "?P rx" using f here by auto
    then have "list_all ?P (rxs[i := rx])"
      using old [of e, folded rxs_def] set_update_subset_insert [of rxs i rx] by (auto simp: list_all_iff)
    then show ?thesis using old [of e'] by (simp add: s')
  qed
  have "length (filter rx_fifo (rxs[i := rx])) = length (filter rx_fifo rxs) + (if applies_realtime inp then 1 else 0)"
    using count_update [OF i, of rx_fifo rx] f here(2) by (auto split: if_splits)
  then have "(\<Sum>e\<leftarrow>[One, Two]. length (filter rx_fifo (ln_receivers (rn_lane s' e)))) =
      (\<Sum>e\<leftarrow>[One, Two]. length (filter rx_fifo (ln_receivers (rn_lane s e)))) + (if applies_realtime inp then 1 else 0)"
    by (cases e) (simp_all add: s' rxs_def)
  moreover have "rn_rt_applied s' = rn_rt_applied s + (if applies_realtime inp then 1 else 0)"
    by (simp add: s' set_lane_def note_realtime_def)
  ultimately show ?thesis using inv all unfolding realtime_inv_def by simp
next
  case (Dispatcher_Step e io)
  then have "rn_rt_applied s' = rn_rt_applied s" "ln_receivers (rn_lane s' e') = ln_receivers (rn_lane s e')" for e'
    using step by (auto simp: set_lane_def Let_def split: if_splits prod.splits)
  then show ?thesis using inv by (simp add: realtime_inv_def)
next
  case (Dispatcher_Pass_End e now)
  then have "rn_rt_applied s' = rn_rt_applied s" "ln_receivers (rn_lane s' e') = ln_receivers (rn_lane s e')" for e'
    using step by (auto simp: set_lane_def Let_def split: if_splits)
  then show ?thesis using inv by (simp add: realtime_inv_def)
qed (use step inv in \<open>auto simp: realtime_inv_def split: if_splits\<close>)

lemma realtime_inv_trace:
  assumes "run_trace c R D E s0 ls hs s" and "run_start c R specs names raw = Some s0"
  shows "realtime_inv c s"
  using assms by (induction rule: run_trace.induct) (auto intro: realtime_inv_start realtime_inv_step)

lemma lanes_partition: "length (lane_roles specs One) + length (lane_roles specs Two) = length specs"
proof (induction specs)
  case (Cons s specs)
  then show ?case by (cases "role_endpoint (sp_role s)") (simp_all add: lane_roles_def lane_specs_def)
qed (simp add: lane_roles_def lane_specs_def)

section \<open>What the report says\<close>


definition realtime_config :: config where
  "realtime_config = slots_config\<lparr>cf_realtime := True\<rparr>"

definition realtime_start :: "sched_outcome \<Rightarrow> unit run_label list" where
  "realtime_start r = [Receiver_Step One 0 (Thread_Started None (Some r) True)]"


end
