(* ===== verification/Client.thy ===== *)
theory Client
  imports Proto Subscribe Decode
begin

text \<open>
  The gRPC client (\<open>src/subscribe/yellowstone.rs\<close>) up to the transport: which calls are made in which order
  and how each failure is reported. What tonic answers is an argument: \<open>None\<close> for success of a fallible
  construction step, an \<open>rpc_outcome\<close> for a call. The version check is the one of theory \<open>Proto\<close>.
\<close>

definition DEFAULT_MAX_DECODE_BYTES :: usize where
  "DEFAULT_MAX_DECODE_BYTES = 64 * 1024 * 1024"

datatype yellowstone_error =
    InvalidEndpoint string string
  | InvalidXToken string string
  | Connect_Failed string string
  | GetVersion_Failed string string
  | VersionRefused string string
  | SubscribeOpen string string

record client =
  cl_url :: string
  cl_token :: string
  cl_tls :: bool
  cl_max_decode_bytes :: usize

record transport =
  tr_parse_token :: "string \<Rightarrow> string option"
  tr_parse_url :: "string \<Rightarrow> string option"
  tr_tls_config :: "string \<Rightarrow> string option"
  tr_connect :: "string \<Rightarrow> string option"

definition wants_tls :: "endpoint_spec \<Rightarrow> bool" where
  "wants_tls ep \<longleftrightarrow> es_tls_forced ep \<or> take 8 (es_url ep) = ''https://''"

definition connect_with_decode_limit :: "transport \<Rightarrow> endpoint_spec \<Rightarrow> usize \<Rightarrow> yellowstone_error + client" where
  "connect_with_decode_limit T ep max_decode_bytes =
     (let url = es_url ep
      in case tr_parse_token T (es_x_token ep) of
        Some source \<Rightarrow> Inl (InvalidXToken url source)
      | None \<Rightarrow>
      (case tr_parse_url T url of
        Some source \<Rightarrow> Inl (InvalidEndpoint url source)
      | None \<Rightarrow>
      (case (if wants_tls ep then tr_tls_config T url else None) of
        Some source \<Rightarrow> Inl (Connect_Failed url source)
      | None \<Rightarrow>
      (case tr_connect T url of
        Some source \<Rightarrow> Inl (Connect_Failed url source)
      | None \<Rightarrow> Inr \<lparr>cl_url = url, cl_token = es_x_token ep, cl_tls = wants_tls ep, cl_max_decode_bytes = max_decode_bytes\<rparr>))))"

definition connect :: "transport \<Rightarrow> endpoint_spec \<Rightarrow> yellowstone_error + client" where
  "connect T ep = connect_with_decode_limit T ep DEFAULT_MAX_DECODE_BYTES"

text \<open>The interceptor: every request leaves with the token.\<close>

definition intercept :: "client \<Rightarrow> (string, string) hmap \<Rightarrow> (string, string) hmap" where
  "intercept cl metadata = hm_insert ''x-token'' (cl_token cl) metadata"

datatype 'a rpc_outcome = Rpc_Timeout | Rpc_Status string | Rpc_Ok 'a

definition fetch_and_evaluate_version :: "proto_env \<Rightarrow> string rpc_outcome \<Rightarrow> string \<Rightarrow> (yellowstone_error + endpoint_version) option" where
  "fetch_and_evaluate_version E answer url =
     (case answer of
        Rpc_Timeout \<Rightarrow> Some (Inl (GetVersion_Failed url ''GetVersion timed out''))
      | Rpc_Status source \<Rightarrow> Some (Inl (GetVersion_Failed url source))
      | Rpc_Ok version \<Rightarrow> map_option (\<lambda>r. case r of Inl reason \<Rightarrow> Inl (VersionRefused url reason) | Inr ev \<Rightarrow> Inr ev) (check_version E version))"

text \<open>
  What the server is sent: the one request, after which the sending half is closed. What comes back is a stream
  of updates and status errors; each item is stamped when it is read, so a reading of the two clocks (monotonic
  nanoseconds, nanoseconds since the epoch) goes with it.
\<close>

type_synonym 'm stream_item = "(nat \<times> nat option) \<times> (string + 'm update_oneof option)"

definition stamp_item :: "clock_origin \<Rightarrow> 'm stream_item \<Rightarrow> string + 'm timed_update" where
  "stamp_item clock item =
     (let ((instant_now, since_epoch), answer) = item;
          ts = now_user_space clock instant_now since_epoch
      in case answer of
        Inl status \<Rightarrow> Inl status
      | Inr update \<Rightarrow> Inr \<lparr>tm_ts = ts, tm_update = update\<rparr>)"

definition open_subscription ::
  "string + 'm stream_item list \<Rightarrow> subscribe_request \<Rightarrow> string \<Rightarrow> clock_origin
     \<Rightarrow> subscribe_request list \<times> (yellowstone_error + (string + 'm timed_update) list)" where
  "open_subscription answer request url clock =
     ([request],
      case answer of
        Inr stream \<Rightarrow> Inr (map (stamp_item clock) stream)
      | Inl source \<Rightarrow> Inl (SubscribeOpen url source))"

section \<open>Lemmas\<close>

lemma connect_ok_iff:
  "(\<exists>cl. connect_with_decode_limit T ep n = Inr cl) \<longleftrightarrow>
     tr_parse_token T (es_x_token ep) = None \<and> tr_parse_url T (es_url ep) = None
   \<and> (wants_tls ep \<longrightarrow> tr_tls_config T (es_url ep) = None) \<and> tr_connect T (es_url ep) = None"
  by (auto simp: connect_with_decode_limit_def Let_def split: option.splits if_splits)

lemma connect_ok:
  assumes "connect_with_decode_limit T ep n = Inr cl"
  shows "cl_tls cl \<longleftrightarrow> wants_tls ep" and "hm_get (intercept cl md) ''x-token'' = Some (es_x_token ep)"
  using assms by (auto simp: connect_with_decode_limit_def Let_def intercept_def hm_get_insert split: option.splits if_splits)

text \<open>The token is parsed before the URL is looked at, and neither failure reaches the network.\<close>

lemma connect_error_order:
  "tr_parse_token T (es_x_token ep) = Some e \<Longrightarrow> connect_with_decode_limit T ep n = Inl (InvalidXToken (es_url ep) e)"
  "tr_parse_token T (es_x_token ep) = None \<Longrightarrow> tr_parse_url T (es_url ep) = Some e \<Longrightarrow>
     connect_with_decode_limit T ep n = Inl (InvalidEndpoint (es_url ep) e)"
  by (simp_all add: connect_with_decode_limit_def)

end
