(* ===== verification/Ping.thy ===== *)
theory Ping
  imports Client Float64
begin

text \<open>
  The ping task of an endpoint (\<open>PingTracker\<close>, \<open>sleep_unless_shutdown\<close>, \<open>ping_task\<close> in \<open>src/run.rs\<close>). Time is
  in milliseconds; the shutdown flag is a function of time. The task is a state machine like the receiver's.
\<close>

record ping_tracker =
  pt_sum_us :: u64
  pt_count :: u64

definition ping_new :: ping_tracker where
  "ping_new = \<lparr>pt_sum_us = 0, pt_count = 0\<rparr>"

definition ping_record :: "u64 \<Rightarrow> ping_tracker \<Rightarrow> ping_tracker" where
  "ping_record duration_us t = \<lparr>pt_sum_us = pt_sum_us t + duration_us, pt_count = pt_count t + 1\<rparr>"

definition ping_average_ms :: "ping_tracker \<Rightarrow> f64" where
  "ping_average_ms t =
     (if pt_count t = 0 then NaN
      else Finite (f64_div (f64_div (f64_of_int (uint (pt_sum_us t))) (f64_of_int (uint (pt_count t)))) 1000))"

definition PING_INTERVAL :: nat where
  "PING_INTERVAL = 30000"

section \<open>Interruptible sleep\<close>

definition SLEEP_TICK :: nat where
  "SLEEP_TICK = 250"

text \<open>The result: whether shutdown was observed, and the time then.\<close>

function sleep_unless_shutdown :: "(nat \<Rightarrow> bool) \<Rightarrow> nat \<Rightarrow> nat \<Rightarrow> bool \<times> nat" where
  "sleep_unless_shutdown shutdown now remaining =
     (if remaining = 0 then (False, now)
      else if shutdown now then (True, now)
      else let s = min remaining SLEEP_TICK in sleep_unless_shutdown shutdown (now + s) (remaining - s))"
  by pat_completeness auto
termination
  by (relation "measure (\<lambda>(_, _, remaining). remaining)") (auto simp: SLEEP_TICK_def)

declare sleep_unless_shutdown.simps [simp del]

lemma sleep_set: "f now \<Longrightarrow> snd (sleep_unless_shutdown f now d) = now"
  by (simp add: sleep_unless_shutdown.simps [of f now d])

lemma sleep_end:
  "now \<le> snd (sleep_unless_shutdown f now dur) \<and> snd (sleep_unless_shutdown f now dur) \<le> now + dur
   \<and> (\<not> fst (sleep_unless_shutdown f now dur) \<longrightarrow> snd (sleep_unless_shutdown f now dur) = now + dur)
   \<and> (fst (sleep_unless_shutdown f now dur) \<longrightarrow> f (snd (sleep_unless_shutdown f now dur)))"
proof (induction f now dur rule: sleep_unless_shutdown.induct)
  case (1 f now dur)
  show ?case
  proof (cases "dur = 0 \<or> f now")
    case True
    then show ?thesis by (auto simp: sleep_unless_shutdown.simps [of f now dur])
  next
    case False
    let ?s = "min dur SLEEP_TICK"
    have "sleep_unless_shutdown f now dur = sleep_unless_shutdown f (now + ?s) (dur - ?s)"
      using False by (simp add: sleep_unless_shutdown.simps [of f now dur] Let_def)
    then show ?thesis using "1.IH" [OF _ _ refl] False by auto
  qed
qed

text \<open>Once the flag is set it is noticed within one tick.\<close>

lemma sleep_latency:
  assumes "\<And>t t'. t \<le> t' \<Longrightarrow> f t \<Longrightarrow> f t'" and "f T"
  shows "snd (sleep_unless_shutdown f now dur) \<le> max now T + SLEEP_TICK"
  using assms
proof (induction f now dur rule: sleep_unless_shutdown.induct)
  case (1 f now dur)
  show ?case
  proof (cases "dur = 0 \<or> f now")
    case True
    then show ?thesis by (auto simp: sleep_unless_shutdown.simps [of f now dur])
  next
    case False
    let ?s = "min dur SLEEP_TICK"
    have "now < T" using False "1.prems"(1) [of T now] "1.prems"(2) by (meson linorder_not_le)
    have step: "sleep_unless_shutdown f now dur = sleep_unless_shutdown f (now + ?s) (dur - ?s)"
      using False by (simp add: sleep_unless_shutdown.simps [of f now dur] Let_def)
    show ?thesis
    proof (cases "T \<le> now + ?s")
      case True
      then have "f (now + ?s)" using "1.prems" by blast
      then have "snd (sleep_unless_shutdown f (now + ?s) (dur - ?s)) = now + ?s"
        by (rule sleep_set)
      then show ?thesis using step \<open>now < T\<close> by simp
    next
      case far: False
      have "snd (sleep_unless_shutdown f (now + ?s) (dur - ?s)) \<le> max (now + ?s) T + SLEEP_TICK"
        by (rule "1.IH" [OF _ _ refl "1.prems"]) (use False in simp_all)
      then show ?thesis using step far \<open>now < T\<close> by simp
    qed
  qed
qed

section \<open>The task\<close>

datatype ping_phase = Pg_Outer | Pg_Connect | Pg_Outer_Sleep | Pg_Inner | Pg_Call | Pg_Inner_Sleep | Pg_Done

datatype ping_input =
    Pg_Check bool
  | Pg_Connected
  | Pg_Connect_Failed
  | Pg_Version nat "(yellowstone_error + endpoint_version) option"
  | Pg_Timeout
  | Pg_Slept bool

text \<open>\<open>Pg_Version n r\<close> is the end of a call within the timeout after \<open>n\<close> microseconds.\<close>

fun ping_step :: "ping_input \<Rightarrow> ping_phase \<times> ping_tracker \<Rightarrow> (ping_phase \<times> ping_tracker) option" where
  "ping_step (Pg_Check b) (Pg_Outer, t) = Some (if b then Pg_Done else Pg_Connect, t)"
| "ping_step Pg_Connected (Pg_Connect, t) = Some (Pg_Inner, t)"
| "ping_step Pg_Connect_Failed (Pg_Connect, t) = Some (Pg_Outer_Sleep, t)"
| "ping_step (Pg_Slept b) (Pg_Outer_Sleep, t) = Some (if b then Pg_Done else Pg_Outer, t)"
| "ping_step (Pg_Check b) (Pg_Inner, t) = Some (if b then Pg_Done else Pg_Call, t)"
| "ping_step (Pg_Version us (Some (Inr _))) (Pg_Call, t) = Some (Pg_Inner_Sleep, ping_record (u64_from_or (- 1) us) t)"
| "ping_step (Pg_Version _ (Some (Inl _))) (Pg_Call, t) = Some (Pg_Outer, t)"
| "ping_step Pg_Timeout (Pg_Call, t) = Some (Pg_Outer, t)"
| "ping_step (Pg_Slept b) (Pg_Inner_Sleep, t) = Some (if b then Pg_Done else Pg_Inner, t)"
| "ping_step _ _ = None"

fun ping_exec :: "ping_input list \<Rightarrow> ping_phase \<times> ping_tracker \<Rightarrow> (ping_phase \<times> ping_tracker) option" where
  "ping_exec [] s = Some s"
| "ping_exec (i # is) s = (case ping_step i s of None \<Rightarrow> None | Some s' \<Rightarrow> ping_exec is s')"

text \<open>The durations of the successful calls of a history.\<close>

definition ping_times :: "ping_input list \<Rightarrow> u64 list" where
  "ping_times is = concat (map (\<lambda>i. case i of Pg_Version us (Some (Inr _)) \<Rightarrow> [u64_from_or (- 1) us] | _ \<Rightarrow> []) is)"

lemma ping_step_tracker:
  assumes "ping_step i (p, t) = Some (p', t')"
  shows "t' = fold ping_record (ping_times [i]) t"
  using assms
  by (cases "(i, (p, t))" rule: ping_step.cases) (auto simp: ping_times_def split: ping_input.splits option.splits sum.splits)

lemma ping_exec_tracker:
  assumes "ping_exec is (p, t) = Some (p', t')"
  shows "t' = fold ping_record (ping_times is) t"
  using assms
proof (induction "is" arbitrary: p t)
  case (Cons i "is")
  obtain p1 t1 where s: "ping_step i (p, t) = Some (p1, t1)"
    using Cons.prems by (cases "ping_step i (p, t)") auto
  have "ping_times (i # is) = ping_times [i] @ ping_times is" by (simp add: ping_times_def)
  then show ?case using Cons.IH [of p1 t1] Cons.prems s ping_step_tracker [OF s] by simp
qed (simp add: ping_times_def)

lemma fold_ping_record:
  "fold ping_record xs t = \<lparr>pt_sum_us = pt_sum_us t + sum_list xs, pt_count = pt_count t + of_nat (length xs)\<rparr>"
  by (induction xs arbitrary: t) (simp_all add: ping_record_def algebra_simps)

text \<open>The tracker holds exactly the successful calls.\<close>

lemma ping_tracker_history:
  assumes "ping_exec is (Pg_Outer, ping_new) = Some (p, t)"
  shows "t = \<lparr>pt_sum_us = sum_list (ping_times is), pt_count = of_nat (length (ping_times is))\<rparr>"
  using ping_exec_tracker [OF assms] by (simp add: fold_ping_record ping_new_def)

end
