(* ===== verification/Host_Env.thy ===== *)
theory Host_Env
  imports Affinity Proto
begin

text \<open>
  Host metadata and the precision warnings (\<open>src/env.rs\<close>). Files and commands are outside: a \<open>host\<close> record
  holds what reading and running them yields. Every reader returns its value and the warnings it pushes.
\<close>

datatype file_result = File_Ok string | File_NotFound string | File_Error string

text \<open>The output of a command that could be started: whether it succeeded, and its standard output.\<close>

type_synonym command_result = "(bool \<times> string) option"

record host =
  ho_linux :: bool
  ho_os :: string
  ho_jemalloc_target :: bool
  ho_uname :: command_result
  ho_cpuinfo :: file_result
  ho_sysinfo_brand :: "string option"
  ho_sysctl_brand :: command_result
  ho_governor :: file_result
  ho_thp :: file_result
  ho_timedatectl :: command_result
  ho_chronyc :: command_result

record host_metadata =
  hmd_kernel :: string
  hmd_cpu_model :: string
  hmd_cpu_governor :: "string option"
  hmd_transparent_hugepage :: "string option"
  hmd_allocator :: string
  hmd_realtime_priority :: bool
  hmd_kernel_timestamps :: bool
  hmd_cpu_affinity :: "u32 list"
  hmd_cpu_affinity_plan :: affinity_spec
  hmd_ntp_synced :: "bool option"
  hmd_warnings :: "string list"

section \<open>Text\<close>

text \<open>\<open>str::lines\<close>: an empty last line is no line, and a line ends before its carriage return.\<close>

definition str_lines :: "string \<Rightarrow> string list" where
  "str_lines s =
     (let parts = str_split (CHR 0x0A) s; ls = (if last parts = [] then butlast parts else parts)
      in map (\<lambda>l. unwrap_or (strip_suffix [CHR 0x0D] l) l) ls)"

fun span_word :: "string \<Rightarrow> string \<times> string" where
  "span_word [] = ([], [])"
| "span_word (c # cs) =
     (if ws_len (c # cs) \<noteq> 0 then ([], c # cs) else (case span_word cs of (w, r) \<Rightarrow> (c # w, r)))"

lemma span_word_length: "length (snd (span_word s)) \<le> length s"
  by (induction s) (auto split: prod.split)

lemma str_trim_start_length: "length (str_trim_start s) \<le> length s"
  by (induction s rule: str_trim_start.induct) (subst str_trim_start.simps, auto)

text \<open>\<open>str::split_whitespace\<close>.\<close>

function split_whitespace :: "string \<Rightarrow> string list" where
  "split_whitespace s =
     (case str_trim_start s of [] \<Rightarrow> [] | c # cs \<Rightarrow> (c # fst (span_word cs)) # split_whitespace (snd (span_word cs)))"
  by pat_completeness auto
termination
proof (relation "measure length")
  fix s c cs
  assume "str_trim_start s = c # cs"
  then show "(snd (span_word cs), s) \<in> measure length"
    using str_trim_start_length [of s] span_word_length [of cs] by simp
qed simp

declare split_whitespace.simps [simp del]

fun find_map :: "('a \<Rightarrow> 'b option) \<Rightarrow> 'a list \<Rightarrow> 'b option" where
  "find_map f [] = None"
| "find_map f (x # xs) = (case f x of Some y \<Rightarrow> Some y | None \<Rightarrow> find_map f xs)"

text \<open>\<open>split(':').nth(1)\<close>.\<close>

definition after_colon :: "string \<Rightarrow> string option" where
  "after_colon s = (case str_split (CHR '':'') s of _ # v # _ \<Rightarrow> Some v | _ \<Rightarrow> None)"

definition stdout_of :: "command_result \<Rightarrow> string option" where
  "stdout_of r = (case r of Some (True, out) \<Rightarrow> Some out | _ \<Rightarrow> None)"

section \<open>Detectors\<close>

definition current_allocator_name :: "host \<Rightarrow> string" where
  "current_allocator_name H = (if ho_jemalloc_target H then ''jemalloc'' else ''system'')"

definition read_kernel :: "host \<Rightarrow> string" where
  "read_kernel H =
     (case stdout_of (ho_uname H) of
        Some out \<Rightarrow> str_trim out
      | None \<Rightarrow> if ho_linux H then ''unknown'' else ho_os H)"

definition read_cpu_model :: "host \<Rightarrow> string \<times> string list" where
  "read_cpu_model H =
     (if ho_linux H then
        (case ho_cpuinfo H of
           File_Ok s \<Rightarrow>
             (case find_map (\<lambda>l. Option.bind (strip_prefix ''model name'' l) after_colon) (str_lines s) of
                Some m \<Rightarrow> (str_trim m, []) | None \<Rightarrow> (''unknown'', []))
         | File_NotFound e \<Rightarrow> (''unknown'', [''failed to read /proc/cpuinfo: '' @ e])
         | File_Error e \<Rightarrow> (''unknown'', [''failed to read /proc/cpuinfo: '' @ e]))
      else
        (let brand = (case ho_sysinfo_brand H of Some b \<Rightarrow> str_trim b | None \<Rightarrow> [])
         in if brand \<noteq> [] then (brand, [])
            else (case stdout_of (ho_sysctl_brand H) of Some out \<Rightarrow> (str_trim out, []) | None \<Rightarrow> (''unknown'', []))))"

definition read_cpu_governor :: "host \<Rightarrow> string option \<times> string list" where
  "read_cpu_governor H =
     (if ho_linux H then
        (case ho_governor H of
           File_Ok s \<Rightarrow> (Some (str_trim s), [])
         | File_NotFound _ \<Rightarrow> (None, [])
         | File_Error e \<Rightarrow> (None, [''failed to read /sys/devices/system/cpu/cpu0/cpufreq/scaling_governor: '' @ e]))
      else (None, []))"

definition read_thp :: "host \<Rightarrow> string option \<times> string list" where
  "read_thp H =
     (if ho_linux H then
        (case ho_thp H of
           File_Ok s \<Rightarrow>
             (case find_map (\<lambda>tok. Option.bind (strip_prefix ''['' tok) (strip_suffix '']'')) (split_whitespace s) of
                Some active \<Rightarrow> (Some active, []) | None \<Rightarrow> (Some (str_trim s), []))
         | File_NotFound _ \<Rightarrow> (None, [])
         | File_Error e \<Rightarrow> (None, [''failed to read /sys/kernel/mm/transparent_hugepage/enabled: '' @ e]))
      else (None, []))"

definition read_ntp_synced :: "host \<Rightarrow> bool option \<times> string list" where
  "read_ntp_synced H =
     (if ho_linux H then
        (case Option.bind (stdout_of (ho_timedatectl H)) (\<lambda>s. find_map (strip_prefix ''NTPSynchronized='') (str_lines s)) of
           Some val \<Rightarrow> (Some (str_trim val = ''yes''), [])
         | None \<Rightarrow>
             (case stdout_of (ho_chronyc H) of
                Some s \<Rightarrow>
                  (Some (list_ex (\<lambda>l. strip_prefix ''Leap status'' l \<noteq> None
                       \<and> (case after_colon l of Some v \<Rightarrow> str_trim v = ''Normal'' | None \<Rightarrow> False)) (str_lines s)), [])
              | None \<Rightarrow> (None, [''could not query NTP sync state (timedatectl/chronyc not available); '' @
                    ''field reported as unknown in host_metadata''])))
      else (None, []))"

definition realtime_warning :: string where
  "realtime_warning = ''SCHED_FIFO requested via --realtime but the syscall was rejected; '' @
     ''continuing with default scheduling. Run as root or grant CAP_SYS_NICE for credible measurements.''"

text \<open>The em dash of the messages, in UTF-8.\<close>

definition em_dash :: string where
  "em_dash = [CHR 0xE2, CHR 0x80, CHR 0x94]"

definition timestamps_warning :: string where
  "timestamps_warning = ''SO_TIMESTAMPNS unavailable '' @ em_dash
     @ '' receive timestamps will be captured in user space after protobuf decode. Sub-10ms deltas will include scheduling jitter.''"

definition platform_warning :: "string \<Rightarrow> string" where
  "platform_warning os = ''running on '' @ os @ '' '' @ em_dash
     @ '' CPU pinning, SCHED_FIFO, jemalloc, and SO_TIMESTAMPNS are all Linux-only. Use Linux for production runs.''"

definition governor_warning :: string where
  "governor_warning = ''cpufreq governor is `powersave` '' @ em_dash
     @ '' clock frequency will fluctuate and inflate p99 tail. Switch to `performance` for credible measurements.''"

definition thp_warning :: string where
  "thp_warning = ''transparent_hugepage = `always` can introduce TLB-shootdown jitter; prefer `madvise` for benchmark hosts.''"

definition env_collect :: "host \<Rightarrow> bool \<Rightarrow> bool \<Rightarrow> bool \<Rightarrow> affinity_spec \<Rightarrow> host_metadata" where
  "env_collect H cli_realtime_requested realtime_applied kernel_timestamps_active cpu_affinity =
     (let (cpu_model, w1) = read_cpu_model H;
          (cpu_governor, w2) = read_cpu_governor H;
          (transparent_hugepage, w3) = read_thp H;
          (ntp_synced, w4) = read_ntp_synced H;
          w5 = (if cli_realtime_requested \<and> \<not> realtime_applied then [realtime_warning] else []);
          w6 = (if \<not> kernel_timestamps_active then [timestamps_warning] else []);
          w7 = (if \<not> ho_linux H then [platform_warning (ho_os H)] else []);
          w8 = (if cpu_governor = Some ''powersave'' then [governor_warning] else []);
          w9 = (if transparent_hugepage = Some ''always'' then [thp_warning] else [])
      in \<lparr>hmd_kernel = read_kernel H, hmd_cpu_model = cpu_model, hmd_cpu_governor = cpu_governor,
          hmd_transparent_hugepage = transparent_hugepage, hmd_allocator = current_allocator_name H,
          hmd_realtime_priority = realtime_applied, hmd_kernel_timestamps = kernel_timestamps_active,
          hmd_cpu_affinity = all_cores cpu_affinity, hmd_cpu_affinity_plan = cpu_affinity, hmd_ntp_synced = ntp_synced,
          hmd_warnings = w1 @ w2 @ w3 @ w4 @ w5 @ w6 @ w7 @ w8 @ w9\<rparr>)"

section \<open>What the warnings say\<close>

lemma env_realtime_warning:
  assumes "realtime_warning \<notin> set (snd (read_cpu_model H) @ snd (read_cpu_governor H) @ snd (read_thp H) @ snd (read_ntp_synced H))"
  shows "realtime_warning \<in> set (hmd_warnings (env_collect H req applied ts spec)) \<longleftrightarrow> req \<and> \<not> applied"
proof -
  have "realtime_warning \<noteq> timestamps_warning" "realtime_warning \<noteq> platform_warning os"
    "realtime_warning \<noteq> governor_warning" "realtime_warning \<noteq> thp_warning" for os
    by (simp_all add: realtime_warning_def timestamps_warning_def platform_warning_def governor_warning_def thp_warning_def)
  then show ?thesis
    using assms by (auto simp: env_collect_def Let_def split: prod.split)
qed

text \<open>The active transparent-hugepage policy is the bracketed one.\<close>

lemma thp_examples:
  "read_thp (H\<lparr>ho_linux := True, ho_thp := File_Ok ''always [madvise] never''\<rparr>) = (Some ''madvise'', [])"
  "read_thp (H\<lparr>ho_linux := True, ho_thp := File_Ok '' never ''\<rparr>) = (Some ''never'', [])"
proof -
  have "find_map (\<lambda>tok. Option.bind (strip_prefix ''['' tok) (strip_suffix '']'')) (split_whitespace ''always [madvise] never'') = Some ''madvise''"
    "find_map (\<lambda>tok. Option.bind (strip_prefix ''['' tok) (strip_suffix '']'')) (split_whitespace '' never '') = None"
    "str_trim '' never '' = ''never''"
    by code_simp+
  then show "read_thp (H\<lparr>ho_linux := True, ho_thp := File_Ok ''always [madvise] never''\<rparr>) = (Some ''madvise'', [])"
    "read_thp (H\<lparr>ho_linux := True, ho_thp := File_Ok '' never ''\<rparr>) = (Some ''never'', [])"
    by (simp_all add: read_thp_def)
qed

end
