(* ===== verification/Programs.thy ===== *)
theory Programs
  imports Strings
begin

text \<open>
  The loader of the programs file (\<open>src/programs.rs\<close>). The reader is its sequence of lines, each a string or
  an I/O error; opening the file and \<open>bs58::decode\<close> are outside. Paths and the formatted reasons are kept as
  strings, the \<open>Debug\<close> rendering being a field of \<open>programs_env\<close>.
\<close>

record program_entry =
  pr_short_name :: string
  pr_program_id :: string
  pr_description :: string

record program_set =
  ps_source :: string
  ps_entries :: "program_entry list"

datatype programs_error =
    Open_Error string string
  | Read_Error string string
  | MalformedRow string nat string
  | Empty_File string
  | DuplicateShortName string nat string
  | DuplicateProgramId string nat string

record programs_env =
  pg_bs58_decode :: "string \<Rightarrow> string + u8 list"
  pg_dbg :: "string \<Rightarrow> string"

definition validate_program_id :: "programs_env \<Rightarrow> string \<Rightarrow> string option" where
  "validate_program_id E s =
     (case pg_bs58_decode E s of
        Inl e \<Rightarrow> Some (''program_id '' @ pg_dbg E s @ '' is not valid base58: '' @ e)
      | Inr bytes \<Rightarrow>
          if length bytes \<noteq> 32
          then Some (''program_id '' @ pg_dbg E s @ '' decoded to '' @ show_nat (length bytes) @ '' bytes, want 32'')
          else None)"

text \<open>\<open>parts.next().map(str::trim).filter(|s| !s.is_empty())\<close>.\<close>

definition next_nonempty :: "string list \<Rightarrow> string option" where
  "next_nonempty parts =
     (case parts of [] \<Rightarrow> None | p # _ \<Rightarrow> if str_trim p = [] then None else Some (str_trim p))"

definition parse_row :: "programs_env \<Rightarrow> string \<Rightarrow> nat \<Rightarrow> string \<Rightarrow> programs_error + program_entry" where
  "parse_row E path line raw =
     (let parts = str_split (CHR 0x09) raw
      in case next_nonempty parts of
           None \<Rightarrow> Inl (MalformedRow path line ''missing short_name (first tab-separated column)'')
         | Some short_name \<Rightarrow>
             (case next_nonempty (drop 1 parts) of
                None \<Rightarrow> Inl (MalformedRow path line ''missing program_id (second tab-separated column)'')
              | Some program_id \<Rightarrow>
                  (let description = (case drop 2 parts of [] \<Rightarrow> [] | d # _ \<Rightarrow> str_trim d)
                   in if drop 3 parts \<noteq> [] then Inl (MalformedRow path line ''more than three tab-separated columns'')
                      else case validate_program_id E program_id of
                             Some reason \<Rightarrow> Inl (MalformedRow path line reason)
                           | None \<Rightarrow> Inr \<lparr>pr_short_name = short_name, pr_program_id = program_id, pr_description = description\<rparr>)))"

text \<open>\<open>trim_end_matches(['\r', '\n'])\<close>.\<close>

definition trim_line_end :: "string \<Rightarrow> string" where
  "trim_line_end s = rev (dropWhile (\<lambda>c. c \<in> {CHR 0x0D, CHR 0x0A}) (rev s))"

definition skipped_line :: "string \<Rightarrow> bool" where
  "skipped_line t \<longleftrightarrow> (case t of [] \<Rightarrow> True | c # _ \<Rightarrow> c = CHR ''#'')"

fun read_rows :: "programs_env \<Rightarrow> string \<Rightarrow> nat \<Rightarrow> (string + string) list \<Rightarrow> program_entry list
    \<Rightarrow> programs_error + program_entry list" where
  "read_rows E source idx [] entries = Inr entries"
| "read_rows E source idx (Inl io_error # lines) entries = Inl (Read_Error source io_error)"
| "read_rows E source idx (Inr raw # lines) entries =
     (let line_no = idx + 1; trimmed = trim_line_end raw
      in if skipped_line trimmed then read_rows E source (idx + 1) lines entries
         else case parse_row E source line_no trimmed of
                Inl e \<Rightarrow> Inl e
              | Inr entry \<Rightarrow>
                  (case find (\<lambda>e. pr_short_name e = pr_short_name entry) entries of
                     Some dup \<Rightarrow> Inl (DuplicateShortName source line_no (pr_short_name dup))
                   | None \<Rightarrow>
                       (case find (\<lambda>e. pr_program_id e = pr_program_id entry) entries of
                          Some dup \<Rightarrow> Inl (DuplicateProgramId source line_no (pr_program_id dup))
                        | None \<Rightarrow> read_rows E source (idx + 1) lines (entries @ [entry]))))"

definition programs_from_reader :: "programs_env \<Rightarrow> string \<Rightarrow> (string + string) list \<Rightarrow> programs_error + program_set" where
  "programs_from_reader E source lines =
     (case read_rows E source 0 lines [] of
        Inl e \<Rightarrow> Inl e
      | Inr entries \<Rightarrow> if entries = [] then Inl (Empty_File source) else Inr \<lparr>ps_source = source, ps_entries = entries\<rparr>)"

definition programs_load :: "programs_env \<Rightarrow> string \<Rightarrow> string + (string + string) list \<Rightarrow> programs_error + program_set" where
  "programs_load E path opened =
     (case opened of Inl e \<Rightarrow> Inl (Open_Error path e) | Inr lines \<Rightarrow> programs_from_reader E path lines)"

definition program_ids :: "program_set \<Rightarrow> string list" where
  "program_ids s = map pr_program_id (ps_entries s)"

section \<open>What a loaded set guarantees\<close>

definition entry_ok :: "programs_env \<Rightarrow> program_entry \<Rightarrow> bool" where
  "entry_ok E e \<longleftrightarrow> pr_short_name e \<noteq> [] \<and> (\<exists>bytes. pg_bs58_decode E (pr_program_id e) = Inr bytes \<and> length bytes = 32)"

text \<open>The rows a reader holds: the lines that are neither blank nor comments.\<close>

definition data_rows :: "(string + string) list \<Rightarrow> string list" where
  "data_rows lines = filter (\<lambda>t. \<not> skipped_line t) (concat (map (\<lambda>l. case l of Inl _ \<Rightarrow> [] | Inr s \<Rightarrow> [trim_line_end s]) lines))"

lemma next_nonempty_Some: "next_nonempty ps = Some t \<Longrightarrow> t \<noteq> [] \<and> (\<exists>p q. ps = p # q \<and> t = str_trim p)"
  by (auto simp: next_nonempty_def split: list.splits if_splits)

lemma parse_row_ok: "parse_row E path line raw = Inr e \<Longrightarrow> entry_ok E e"
  by (auto simp: parse_row_def entry_ok_def validate_program_id_def Let_def dest: next_nonempty_Some
      split: option.splits sum.splits if_splits)

lemma read_rows_ok:
  assumes "read_rows E source idx lines entries = Inr es"
    and "distinct (map pr_short_name entries)" and "distinct (map pr_program_id entries)" and "\<forall>e \<in> set entries. entry_ok E e"
  shows "distinct (map pr_short_name es) \<and> distinct (map pr_program_id es) \<and> (\<forall>e \<in> set es. entry_ok E e)
    \<and> length es = length entries + length (data_rows lines)"
  using assms
proof (induction E source idx lines entries rule: read_rows.induct)
  case (1 E source idx entries)
  then show ?case by (simp add: data_rows_def)
next
  case (2 E source idx io lines entries)
  then show ?case by simp
next
  case (3 E source idx raw lines entries)
  let ?t = "trim_line_end raw"
  show ?case
  proof (cases "skipped_line ?t")
    case True
    then show ?thesis using 3 by (simp add: Let_def data_rows_def)
  next
    case False
    then obtain e where e: "parse_row E source (idx + 1) ?t = Inr e"
      using 3(3) by (auto simp: Let_def split: sum.splits)
    have n: "find (\<lambda>x. pr_short_name x = pr_short_name e) entries = None"
      "find (\<lambda>x. pr_program_id x = pr_program_id e) entries = None"
      using 3(3) False e by (auto simp: Let_def split: option.splits)
    have "read_rows E source (idx + 1) lines (entries @ [e]) = Inr es"
      using 3(3) False e n by (simp add: Let_def)
    moreover have "pr_short_name e \<notin> pr_short_name ` set entries" "pr_program_id e \<notin> pr_program_id ` set entries"
      using n by (force simp: find_None_iff)+
    moreover have "\<forall>e \<in> set (entries @ [e]). entry_ok E e" using "3.prems"(4) parse_row_ok [OF e] by simp
    ultimately have "distinct (map pr_short_name es) \<and> distinct (map pr_program_id es) \<and> (\<forall>e \<in> set es. entry_ok E e)
        \<and> length es = length (entries @ [e]) + length (data_rows lines)"
      using "3.prems"(2,3) by (intro "3.IH"(2) [OF refl refl False e n]) simp_all
    then show ?thesis using False by (simp add: data_rows_def)
  qed
qed


definition sample_programs_env :: programs_env where
  "sample_programs_env = \<lparr>pg_bs58_decode = (\<lambda>s. if length s < 3 then Inl ''too short'' else Inr (replicate 32 1)), pg_dbg = id\<rparr>"


end
