(* ===== verification/Run_Output.thy ===== *)
theory Run_Output
  imports Realtime Ping Host_Env Programs
begin

text \<open>
  The two ends of a run (\<open>execute\<close>, \<open>connect_and_eval\<close>, \<open>assemble_output\<close> and the helpers between them in
  \<open>src/run.rs\<close>; \<open>src/summary.rs\<close>): the start-up checks in their order, and the assembly of the output from the
  final state. Serialization to JSON is outside, so the output is the record that is serialized; the formatter
  of wall-clock times and the crate version are fields of \<open>output_env\<close>.
\<close>

section \<open>Start-up\<close>

datatype startup_error =
    Load_Programs programs_error
  | Endpoint2_Not_Configured
  | Endpoint_Failed string yellowstone_error
  | Empty_Plan

text \<open>\<open>None\<close> is the panic of the version preview.\<close>

definition connect_and_eval ::
  "transport \<Rightarrow> proto_env \<Rightarrow> (endpoint_role \<Rightarrow> string rpc_outcome) \<Rightarrow> config \<Rightarrow> endpoint_role \<Rightarrow> (startup_error + endpoint_version) option" where
  "connect_and_eval T E answers c role =
     (case (case role of One \<Rightarrow> Some (cf_endpoint1 c) | Two \<Rightarrow> cf_endpoint2 c) of
        None \<Rightarrow> Some (Inl Endpoint2_Not_Configured)
      | Some endpoint \<Rightarrow>
          (case connect_with_decode_limit T endpoint (cf_max_decode_mb c * 1024 * 1024) of
             Inl e \<Rightarrow> Some (Inl (Endpoint_Failed (''connect '' @ es_url endpoint) e))
           | Inr _ \<Rightarrow>
               map_option (\<lambda>r. case r of
                   Inl e \<Rightarrow> Inl (Endpoint_Failed (''GetVersion '' @ es_url endpoint) e) | Inr v \<Rightarrow> Inr v)
                 (fetch_and_evaluate_version E (answers role) (es_url endpoint))))"

record startup_state =
  su_programs :: program_set
  su_ep1_version :: endpoint_version
  su_ep2_version :: "endpoint_version option"
  su_proto_metadata :: proto_metadata
  su_plan :: "subscription_spec list"

definition startup_plan :: "proto_env \<Rightarrow> config \<Rightarrow> program_set \<Rightarrow> endpoint_version \<Rightarrow> endpoint_version option \<Rightarrow> startup_error + startup_state" where
  "startup_plan E c programs v1 v2 =
     (let metadata = (case v2 of Some v \<Rightarrow> metadata_from_endpoints E v1 v | None \<Rightarrow> metadata_from_single_endpoint E v1);
          plan = plan_from_run_config c (program_ids programs)
      in if plan = [] then Inl Empty_Plan
         else Inr \<lparr>su_programs = programs, su_ep1_version = v1, su_ep2_version = v2, su_proto_metadata = metadata, su_plan = plan\<rparr>)"

definition startup ::
  "transport \<Rightarrow> proto_env \<Rightarrow> (endpoint_role \<Rightarrow> string rpc_outcome) \<Rightarrow> programs_error + program_set \<Rightarrow> config
     \<Rightarrow> (startup_error + startup_state) option" where
  "startup T E answers loaded c =
     (case loaded of
        Inl e \<Rightarrow> Some (Inl (Load_Programs e))
      | Inr programs \<Rightarrow>
          Option.bind (connect_and_eval T E answers c One) (\<lambda>r1. case r1 of
            Inl e \<Rightarrow> Some (Inl e)
          | Inr v1 \<Rightarrow>
              if cf_solo c then Some (startup_plan E c programs v1 None)
              else Option.bind (connect_and_eval T E answers c Two) (\<lambda>r2. case r2 of
                Inl e \<Rightarrow> Some (Inl e)
              | Inr v2 \<Rightarrow> Some (startup_plan E c programs v1 (Some v2)))))"

text \<open>The short names by decoded program id; a later entry replaces an earlier one.\<close>

definition program_names :: "(string \<Rightarrow> string + u8 list) \<Rightarrow> program_set \<Rightarrow> (pubkey32, string) hmap" where
  "program_names bs58 programs =
     foldl (\<lambda>m p. case bs58 (pr_program_id p) of
         Inr decoded \<Rightarrow> if length decoded = 32 then hm_insert decoded (pr_short_name p) m else m
       | Inl _ \<Rightarrow> m) [] (ps_entries programs)"

section \<open>Totals\<close>

definition compute_capture_totals :: "subscription_role list \<Rightarrow> receiver_stats list \<Rightarrow> capture_totals" where
  "compute_capture_totals roles stats =
     foldl (\<lambda>t (s, r). ct_add (role_endpoint r) (sn_received (stats_snapshot s)) t) \<lparr>ct_ep1 = 0, ct_ep2 = 0\<rparr> (zip stats roles)"

record dropped_totals =
  dr_ep1 :: u64
  dr_ep2 :: u64

definition compute_dropped_totals :: "subscription_role list \<Rightarrow> receiver_stats list \<Rightarrow> dropped_totals" where
  "compute_dropped_totals roles stats =
     foldl (\<lambda>t (s, r). case role_endpoint r of
         One \<Rightarrow> t\<lparr>dr_ep1 := saturating_add (dr_ep1 t) (sn_dropped (stats_snapshot s))\<rparr>
       | Two \<Rightarrow> t\<lparr>dr_ep2 := saturating_add (dr_ep2 t) (sn_dropped (stats_snapshot s))\<rparr>)
       \<lparr>dr_ep1 = 0, dr_ep2 = 0\<rparr> (zip stats roles)"

text \<open>The snapshot line: wrapping sums of the received counters.\<close>

definition log_snapshot :: "receiver_stats list \<Rightarrow> subscription_role list \<Rightarrow> u64 \<Rightarrow> u64 \<times> u64 \<times> u64" where
  "log_snapshot stats roles total_slots =
     (let (a, b) = foldl (\<lambda>(x, y) (s, r). case role_endpoint r of
            One \<Rightarrow> (x + sn_received (stats_snapshot s), y) | Two \<Rightarrow> (x, y + sn_received (stats_snapshot s))) (0, 0) (zip stats roles)
      in (a, b, total_slots))"

section \<open>The summary records\<close>

fun str_contains :: "string \<Rightarrow> string \<Rightarrow> bool" where
  "str_contains p [] = (p = [])"
| "str_contains p (c # s) = (take (length p) (c # s) = p \<or> str_contains p s)"

text \<open>For evaluation: comparing stops at the first difference.\<close>

lemma str_contains_code [code]:
  "str_contains p [] = (p = [])"
  "str_contains p (c # s) = (prefix p (c # s) \<or> str_contains p s)"
proof -
  have "(take (length p) t = p) = prefix p t" for t :: string by (metis append_eq_conv_conj prefix_def)
  then show "str_contains p [] = (p = [])" "str_contains p (c # s) = (prefix p (c # s) \<or> str_contains p s)" by simp_all
qed

datatype qn_role_hint = QN_Endpoint1 | QN_Endpoint2 | QN_Both

definition is_quicknode :: "string \<Rightarrow> bool" where
  "is_quicknode url =
     (let lower = to_ascii_lowercase url in str_contains ''quiknode'' lower \<or> str_contains ''quicknode'' lower)"

definition detect_qn_role :: "string \<Rightarrow> string option \<Rightarrow> qn_role_hint" where
  "detect_qn_role endpoint1_url endpoint2_url =
     (let ep1_qn = is_quicknode endpoint1_url;
          ep2_qn = (case endpoint2_url of Some u \<Rightarrow> is_quicknode u | None \<Rightarrow> False)
      in case (ep1_qn, ep2_qn) of (True, False) \<Rightarrow> QN_Endpoint1 | (True, True) \<Rightarrow> QN_Both | _ \<Rightarrow> QN_Endpoint2)"

record config_echo =
  ce_endpoint1 :: string
  ce_endpoint2 :: "string option"
  ce_entries_endpoint1 :: "string option"
  ce_entries_endpoint2 :: "string option"
  ce_stop :: stop_condition
  ce_commitments :: "commitment list"
  ce_with_blocks :: bool
  ce_with_transactions :: bool
  ce_reconnect_test_secs :: "u64 option"
  ce_cpu_affinity :: "u32 list"
  ce_cpu_affinity_plan :: affinity_spec
  ce_realtime :: bool
  ce_allocator :: allocator
  ce_qn_role :: qn_role_hint
  ce_solo :: bool

definition config_echo_from_config :: "config \<Rightarrow> config_echo" where
  "config_echo_from_config c =
     (let ep2_url = map_option es_url (cf_endpoint2 c)
      in \<lparr>ce_endpoint1 = es_url (cf_endpoint1 c), ce_endpoint2 = ep2_url,
          ce_entries_endpoint1 = map_option es_url (cf_entries_endpoint1 c),
          ce_entries_endpoint2 = map_option es_url (cf_entries_endpoint2 c),
          ce_stop = cf_stop c, ce_commitments = cf_commitments c, ce_with_blocks = cf_with_blocks c,
          ce_with_transactions = cf_with_transactions c, ce_reconnect_test_secs = cf_reconnect_test_secs c,
          ce_cpu_affinity = all_cores (cf_cpu_affinity c), ce_cpu_affinity_plan = cf_cpu_affinity c,
          ce_realtime = cf_realtime c, ce_allocator = cf_allocator c,
          ce_qn_role = detect_qn_role (es_url (cf_endpoint1 c)) ep2_url, ce_solo = cf_solo c\<rparr>)"

record run_metadata =
  rm_total_slots_collected :: u64
  rm_common_slots :: u64
  rm_duration_ms :: u64
  rm_total_account_updates :: "u64 \<times> u64"
  rm_total_transaction_updates :: "u64 \<times> u64"
  rm_total_block_updates :: "u64 \<times> u64"
  rm_total_entry_updates :: "u64 \<times> u64"
  rm_dropped_events_ep1 :: u64
  rm_dropped_events_ep2 :: u64

record endpoint_info =
  ei_endpoint :: string
  ei_role :: string
  ei_plugin_type :: string
  ei_plugin_version :: string
  ei_avg_ping_ms :: f64
  ei_total_updates :: u64
  ei_unique_slots :: u64

record comparative_summary =
  cmp_slot_status :: slot_status_summary
  cmp_account_delay :: latency_summary
  cmp_transaction_delay :: "latency_summary option"
  cmp_block_delay :: "latency_summary option"

record run_output =
  out_version :: string
  out_harness :: string
  out_run_started_wall_ms :: u64
  out_run_started_iso :: string
  out_host_metadata :: host_metadata
  out_proto_metadata :: proto_metadata
  out_config :: config_echo
  out_programs :: "program_entry list"
  out_metadata :: run_metadata
  out_endpoints :: "endpoint_info list"
  out_comparative :: comparative_summary
  out_per_program :: "(string, latency_summary) hmap"
  out_cross_stream :: "(string, cross_stream_summary) hmap"
  out_stability :: "(string, stability_summary) hmap"

record output_env =
  oe_pkg_version :: string
  oe_rfc3339 :: "int \<Rightarrow> string option"

text \<open>The argument of the formatter is the time in nanoseconds.\<close>

definition rfc3339_from_wall_ms :: "output_env \<Rightarrow> u64 \<Rightarrow> string" where
  "rfc3339_from_wall_ms OE wall = unwrap_or (oe_rfc3339 OE (uint wall * 1000000)) []"

definition role_label :: "endpoint_role \<Rightarrow> string" where
  "role_label role = (case role of One \<Rightarrow> ''comparison'' | Two \<Rightarrow> ''sut'')"

definition make_endpoint_info :: "string \<Rightarrow> endpoint_role \<Rightarrow> endpoint_version \<Rightarrow> u64 \<Rightarrow> ping_tracker \<Rightarrow> endpoint_info" where
  "make_endpoint_info url role version total_updates ping =
     \<lparr>ei_endpoint = url, ei_role = role_label role, ei_plugin_type = unwrap_or (ev_package version) ''yellowstone'',
      ei_plugin_version = unwrap_or (ev_plugin_version version) ''unknown'', ei_avg_ping_ms = ping_average_ms ping,
      ei_total_updates = total_updates, ei_unique_slots = 0\<rparr>"

text \<open>A ping task runs for every configured endpoint; the tracker of the other stays empty. \<open>None\<close>: not answers to it.\<close>

definition ping_trackers :: "config \<Rightarrow> (endpoint_role \<Rightarrow> ping_input list) \<Rightarrow> (ping_tracker \<times> ping_tracker) option" where
  "ping_trackers c answers =
     (let task = (\<lambda>e. map_option snd (ping_exec (answers e) (Pg_Outer, ping_new)))
      in case (task One, case cf_endpoint2 c of None \<Rightarrow> Some ping_new | Some _ \<Rightarrow> task Two) of
           (Some t1, Some t2) \<Rightarrow> Some (t1, t2)
         | _ \<Rightarrow> None)"

section \<open>The output\<close>

record ingest_counters =
  tc_total_slots_collected :: u64
  tc_accounts :: "u64 \<times> u64"
  tc_transactions :: "u64 \<times> u64"
  tc_blocks :: "u64 \<times> u64"
  tc_entries :: "u64 \<times> u64"

definition merge_counters :: "u64 \<Rightarrow> ingest_counters_partial \<Rightarrow> ingest_counters_partial \<Rightarrow> ingest_counters" where
  "merge_counters total_slots c1 c2 =
     \<lparr>tc_total_slots_collected = total_slots, tc_accounts = (ic_accounts c1, ic_accounts c2),
      tc_transactions = (ic_transactions c1, ic_transactions c2), tc_blocks = (ic_blocks c1, ic_blocks c2),
      tc_entries = (ic_entries c1, ic_entries c2)\<rparr>"

text \<open>A dispatcher that has not exited in time is given up: its state is replaced by a fresh one.\<close>

definition reclaim_dispatcher :: "'d dispatcher \<Rightarrow> 'd endpoint_state option" where
  "reclaim_dispatcher dp = (if dp_done dp then Some (dp_state dp) else None)"

definition reclaimed_state :: "'d runtime \<Rightarrow> endpoint_role \<Rightarrow> 'd endpoint_state option \<Rightarrow> 'd endpoint_state" where
  "reclaimed_state R e result = (case result of Some d \<Rightarrow> d | None \<Rightarrow> endpoint_state_new R e)"

text \<open>The matchers can be taken over only when both dispatchers have released them.\<close>

definition reclaim_matchers :: "'d runtime \<Rightarrow> 'd run_state \<Rightarrow> 'd stream_matchers" where
  "reclaim_matchers R s =
     (if dp_done (ln_dispatcher (rn_lane s One)) \<and> dp_done (ln_dispatcher (rn_lane s Two))
      then shd_matchers (rn_shared s) else sms_new R [])"

record 'd run_end =
  re_host_metadata :: host_metadata
  re_startup :: startup_state
  re_matchers :: "'d stream_matchers"
  re_state1 :: "'d endpoint_state"
  re_state2 :: "'d endpoint_state"
  re_ping1 :: ping_tracker
  re_ping2 :: ping_tracker
  re_start_wall_ms :: u64
  re_duration_ms :: u64
  re_total_slots :: u64
  re_totals :: capture_totals
  re_dropped :: dropped_totals

definition make_comparative :: "'d runtime \<Rightarrow> config \<Rightarrow> 'd stream_matchers \<Rightarrow> comparative_summary \<times> (string, latency_summary) hmap" where
  "make_comparative R c m =
     (let slot_status = fst (sm_summary R (sms_slots m));
          (account_delay, accounts) = am_summary R (sms_accounts m);
          per_program = fst (am_per_program_summary R accounts)
      in (\<lparr>cmp_slot_status = slot_status, cmp_account_delay = account_delay,
           cmp_transaction_delay = (if cf_with_transactions c then Some (fst (summary_from_matcher R (sms_transactions m))) else None),
           cmp_block_delay = (if cf_with_blocks c then Some (fst (summary_from_matcher R (sms_blocks m))) else None)\<rparr>,
          per_program))"

definition make_endpoints :: "config \<Rightarrow> 'd run_end \<Rightarrow> endpoint_info list" where
  "make_endpoints c f =
     make_endpoint_info (es_url (cf_endpoint1 c)) One (su_ep1_version (re_startup f)) (ct_ep1 (re_totals f)) (re_ping1 f)
     # (case (cf_endpoint2 c, su_ep2_version (re_startup f)) of
          (Some ep2, Some v2) \<Rightarrow> [make_endpoint_info (es_url ep2) Two v2 (ct_ep2 (re_totals f)) (re_ping2 f)]
        | _ \<Rightarrow> [])"

definition make_metadata :: "'d run_end \<Rightarrow> run_metadata" where
  "make_metadata f =
     (let counters = merge_counters (re_total_slots f) (ds_counters (re_state1 f)) (ds_counters (re_state2 f))
      in \<lparr>rm_total_slots_collected = tc_total_slots_collected counters, rm_common_slots = 0,
          rm_duration_ms = re_duration_ms f, rm_total_account_updates = tc_accounts counters,
          rm_total_transaction_updates = tc_transactions counters, rm_total_block_updates = tc_blocks counters,
          rm_total_entry_updates = tc_entries counters, rm_dropped_events_ep1 = dr_ep1 (re_dropped f),
          rm_dropped_events_ep2 = dr_ep2 (re_dropped f)\<rparr>)"

definition assemble_output :: "'d runtime \<Rightarrow> output_env \<Rightarrow> config \<Rightarrow> 'd run_end \<Rightarrow> run_output" where
  "assemble_output R OE c f =
     (let (comparative, per_program) = make_comparative R c (re_matchers f)
      in \<lparr>out_version = oe_pkg_version OE, out_harness = ''grpc-bench'', out_run_started_wall_ms = re_start_wall_ms f,
          out_run_started_iso = rfc3339_from_wall_ms OE (re_start_wall_ms f), out_host_metadata = re_host_metadata f,
          out_proto_metadata = su_proto_metadata (re_startup f), out_config = config_echo_from_config c,
          out_programs = ps_entries (su_programs (re_startup f)), out_metadata = make_metadata f,
          out_endpoints = make_endpoints c f, out_comparative = comparative, out_per_program = per_program,
          out_cross_stream = hm_insert ''endpoint2'' (fst (cs_summary R (ds_cross (re_state2 f))))
            (hm_insert ''endpoint1'' (fst (cs_summary R (ds_cross (re_state1 f)))) []),
          out_stability = hm_insert ''endpoint2'' (fst (st_summary R (ds_stability (re_state2 f))))
            (hm_insert ''endpoint1'' (fst (st_summary R (ds_stability (re_state1 f)))) [])\<rparr>)"

text \<open>The rings in the order of the plan, from the two lanes they were moved to.\<close>

fun plan_rings :: "subscription_spec list \<Rightarrow> event ring list \<Rightarrow> event ring list \<Rightarrow> event ring list" where
  "plan_rings [] r1 r2 = []"
| "plan_rings (s # specs) r1 r2 =
     (case role_endpoint (sp_role s) of
        One \<Rightarrow> hd r1 # plan_rings specs (tl r1) r2
      | Two \<Rightarrow> hd r2 # plan_rings specs r1 (tl r2))"

definition spec_stats :: "subscription_spec list \<Rightarrow> 'd run_state \<Rightarrow> receiver_stats list" where
  "spec_stats specs s = map rg_stats (plan_rings specs (ln_rings (rn_lane s One)) (ln_rings (rn_lane s Two)))"

text \<open>\<open>s1\<close> is the state in which the dispatchers are reclaimed, \<open>s\<close> the one in which everything else is read.\<close>

definition run_finish ::
  "'d runtime \<Rightarrow> host \<Rightarrow> sched_outcome \<Rightarrow> config \<Rightarrow> startup_state \<Rightarrow> ping_tracker \<times> ping_tracker \<Rightarrow> u64 \<Rightarrow> nat
     \<Rightarrow> 'd run_state \<Rightarrow> 'd run_state \<Rightarrow> 'd run_end" where
  "run_finish R H coordinator c su pings start_wall elapsed_ms s1 s =
     (let specs = su_plan su; stats = spec_stats specs s; roles = map sp_role specs
      in \<lparr>re_host_metadata = env_collect H (cf_realtime c) (rt_applied c specs coordinator s) False (cf_cpu_affinity c),
          re_startup = su, re_matchers = reclaim_matchers R s,
          re_state1 = reclaimed_state R One (reclaim_dispatcher (ln_dispatcher (rn_lane s1 One))),
          re_state2 = reclaimed_state R Two (reclaim_dispatcher (ln_dispatcher (rn_lane s1 Two))),
          re_ping1 = fst pings, re_ping2 = snd pings, re_start_wall_ms = start_wall,
          re_duration_ms = u64_from_or (- 1) elapsed_ms, re_total_slots = shd_total_slots (rn_shared s),
          re_totals = compute_capture_totals roles stats, re_dropped = compute_dropped_totals roles stats\<rparr>)"

section \<open>No secret leaves\<close>

text \<open>The same configuration with other tokens.\<close>

definition with_token :: "string \<Rightarrow> endpoint_spec \<Rightarrow> endpoint_spec" where
  "with_token t ep = ep\<lparr>es_x_token := t\<rparr>"

definition with_tokens :: "string \<Rightarrow> string \<Rightarrow> string \<Rightarrow> string \<Rightarrow> config \<Rightarrow> config" where
  "with_tokens t1 t2 t3 t4 c =
     c\<lparr>cf_endpoint1 := with_token t1 (cf_endpoint1 c), cf_endpoint2 := map_option (with_token t2) (cf_endpoint2 c),
       cf_entries_endpoint1 := map_option (with_token t3) (cf_entries_endpoint1 c),
       cf_entries_endpoint2 := map_option (with_token t4) (cf_entries_endpoint2 c)\<rparr>"

lemma es_url_with_token: "es_url (with_token t ep) = es_url ep" "es_url \<circ> with_token t = es_url"
  by (simp_all add: with_token_def fun_eq_iff)

text \<open>C30. The output carries no x-token: for the same end of a run, replacing all four tokens of the configuration by
  any others leaves every field of the output unchanged.\<close>

theorem output_hides_tokens:
  "assemble_output R OE (with_tokens t1 t2 t3 t4 c) f = assemble_output R OE c f"
proof -
  have "config_echo_from_config (with_tokens t1 t2 t3 t4 c) = config_echo_from_config c"
    by (simp add: config_echo_from_config_def with_tokens_def es_url_with_token option.map_comp)
  moreover have "make_endpoints (with_tokens t1 t2 t3 t4 c) f = make_endpoints c f"
    by (simp add: make_endpoints_def with_tokens_def es_url_with_token split: option.split)
  moreover have "make_comparative R (with_tokens t1 t2 t3 t4 c) (re_matchers f) = make_comparative R c (re_matchers f)"
    by (simp add: make_comparative_def with_tokens_def)
  ultimately show ?thesis unfolding assemble_output_def by simp
qed

end
