(* ===== verification/Shutdown.thy ===== *)
theory Shutdown
  imports Run_System
begin

text \<open>
  What happens between the shutdown flag and the exits of the threads (\<open>receiver_thread_main\<close> and
  \<open>dispatcher_thread_main\<close> in \<open>src/run.rs\<close>): no thread works on for long, whatever the servers send.
\<close>

section \<open>The flag stays set\<close>

lemma step_shutdown: "run_step c R D E l s = Some s' \<Longrightarrow> rn_shutdown s \<Longrightarrow> rn_shutdown s'"
  by (cases l) (auto simp: Let_def split: if_splits option.splits prod.splits)

section \<open>Receivers\<close>

text \<open>The steps a receiver has left once every check sees the flag.\<close>

fun rx_left :: "rx_phase \<Rightarrow> nat" where
  "rx_left Rx_Start = 2"
| "rx_left Rx_Connect = 3"
| "rx_left Rx_Open = 2"
| "rx_left Rx_Await = 2"
| "rx_left Rx_Loop = 1"
| "rx_left Rx_Poll = 1"
| "rx_left Rx_Done = 0"

lemma rx_step_left:
  assumes "rx_step D inp (rx, ring) = Some (rx', ring')" and "input_matches True inp"
  shows "rx_left (rx_phase rx') < rx_left (rx_phase rx)"
  using assms
  by (cases inp)
    (auto simp: input_matches_def rx_thread_start_def rx_poll_def rx_give_up_or_def rx_note_error_def
      split: rx_phase.splits if_splits poll.splits sum.splits option.splits)

fun is_receiver_step :: "endpoint_role \<Rightarrow> nat \<Rightarrow> 'm run_label \<Rightarrow> bool" where
  "is_receiver_step e i (Receiver_Step e' i' _) = (e' = e \<and> i' = i)"
| "is_receiver_step e i _ = False"

lemma step_rx_left:
  assumes "run_step c R D E l s = Some s'" and "rn_shutdown s"
  shows "rx_left (rx_phase (ln_receivers (rn_lane s' e) ! i)) + (if is_receiver_step e i l then 1 else 0)
    \<le> rx_left (rx_phase (ln_receivers (rn_lane s e) ! i))"
proof (cases l)
  case (Receiver_Step e' j inp)
  then obtain rx ring where j: "j < length (ln_receivers (rn_lane s e'))" "input_matches True inp"
    and rx: "rx_step D inp (ln_receivers (rn_lane s e') ! j, ln_rings (rn_lane s e') ! j) = Some (rx, ring)"
    and s': "s' = set_lane e' ((rn_lane s e')\<lparr>ln_receivers := (ln_receivers (rn_lane s e'))[j := rx],
        ln_rings := (ln_rings (rn_lane s e'))[j := ring]\<rparr>) (note_realtime (applies_realtime inp) s)"
    using assms by (auto simp: Let_def split: if_splits option.splits)
  have "rx_left (rx_phase rx) < rx_left (rx_phase (ln_receivers (rn_lane s e') ! j))" by (rule rx_step_left [OF rx j(2)])
  then show ?thesis using j(1) by (cases "e' = e \<and> j = i") (auto simp: Receiver_Step s' nth_list_update)
next
  case (Dispatcher_Step e' io)
  then have "ln_receivers (rn_lane s' e) = ln_receivers (rn_lane s e)"
    using assms by (auto simp: Let_def split: if_splits prod.splits)
  then show ?thesis by (simp add: Dispatcher_Step)
next
  case (Dispatcher_Pass_End e' now)
  then have "ln_receivers (rn_lane s' e) = ln_receivers (rn_lane s e)"
    using assms by (auto simp: Let_def split: if_splits)
  then show ?thesis by (simp add: Dispatcher_Pass_End)
qed (use assms in auto)

lemma exec_rx_left:
  assumes "run_exec c R D E ls (hs, s) = Some (hs', s')" and "rn_shutdown s"
  shows "length (filter (is_receiver_step e i) ls) + rx_left (rx_phase (ln_receivers (rn_lane s' e) ! i))
    \<le> rx_left (rx_phase (ln_receivers (rn_lane s e) ! i))"
  using assms
proof (induction ls arbitrary: hs s)
  case (Cons l ls)
  obtain s1 where s1: "run_step c R D E l s = Some s1" using Cons.prems(1) by (cases "run_step c R D E l s") auto
  have ex: "run_exec c R D E ls (hs @ effects_by l s, s1) = Some (hs', s')" using Cons.prems(1) s1 by simp
  show ?case
    using step_rx_left [OF s1 Cons.prems(2), of e i] Cons.IH [OF ex step_shutdown [OF s1 Cons.prems(2)]]
    by (cases "is_receiver_step e i l") auto
qed simp

lemma rx_left_le: "rx_left p \<le> 3"
  by (cases p) simp_all

section \<open>Dispatchers\<close>

text \<open>The clock readings at the ends of a dispatcher's passes.\<close>

fun pass_end_of :: "endpoint_role \<Rightarrow> 'm run_label \<Rightarrow> nat list" where
  "pass_end_of e (Dispatcher_Pass_End e' now) = (if e' = e then [now] else [])"
| "pass_end_of e _ = []"

definition pass_ends :: "endpoint_role \<Rightarrow> 'm run_label list \<Rightarrow> nat list" where
  "pass_ends e ls = concat (map (pass_end_of e) ls)"

lemma pass_ends_simps: "pass_ends e [] = []" "pass_ends e (l # ls) = pass_end_of e l @ pass_ends e ls"
  by (simp_all add: pass_ends_def)

text \<open>Only the end of its own pass changes whether a dispatcher is done and when it saw the flag.\<close>

lemma step_dispatcher:
  assumes "run_step c R D E l s = Some s'" and "pass_end_of e l = []"
  shows "dp_done (ln_dispatcher (rn_lane s' e)) = dp_done (ln_dispatcher (rn_lane s e))
    \<and> dp_shutdown_observed_at (ln_dispatcher (rn_lane s' e)) = dp_shutdown_observed_at (ln_dispatcher (rn_lane s e))"
proof (cases l)
  case (Receiver_Step e' i inp)
  then obtain rx ring where "s' = set_lane e' ((rn_lane s e')\<lparr>ln_receivers := (ln_receivers (rn_lane s e'))[i := rx],
      ln_rings := (ln_rings (rn_lane s e'))[i := ring]\<rparr>) (note_realtime (applies_realtime inp) s)"
    using assms(1) by (auto simp: Let_def split: if_splits option.splits)
  then show ?thesis by simp
next
  case (Dispatcher_Step e' io)
  then obtain rings shd dp' where d: "dp_step R E io (ln_rings (rn_lane s e'), rn_shared s, ln_dispatcher (rn_lane s e')) = (rings, shd, dp')"
    and s': "s' = set_lane e' ((rn_lane s e')\<lparr>ln_rings := rings, ln_dispatcher := dp'\<rparr>) (s\<lparr>rn_shared := shd\<rparr>)"
    using assms(1) by (auto simp: Let_def split: if_splits prod.splits)
  note dp_step_frame [OF d]
  then show ?thesis by (simp add: s')
next
  case (Dispatcher_Pass_End e' now)
  then have "rn_lane s' e = rn_lane s e" using assms by (auto simp: Let_def split: if_splits)
  then show ?thesis by simp
qed (use assms in \<open>auto split: if_splits\<close>)

lemma step_pass_end:
  assumes "run_step c R D E (Dispatcher_Pass_End e now) s = Some s'" and "rn_shutdown s"
    and "start = (case dp_shutdown_observed_at (ln_dispatcher (rn_lane s e)) of None \<Rightarrow> now | Some t \<Rightarrow> t)"
  shows "\<not> dp_done (ln_dispatcher (rn_lane s e))
    \<and> dp_shutdown_observed_at (ln_dispatcher (rn_lane s' e)) = Some start
    \<and> (dp_done (ln_dispatcher (rn_lane s' e)) \<or> now < start + 2000000000)"
  using assms
  by (auto simp: Let_def dp_pass_end_def DISPATCHER_POST_SHUTDOWN_BUDGET_def split: if_splits)

lemma exec_done:
  assumes "run_exec c R D E ls (hs, s) = Some (hs', s')" and "dp_done (ln_dispatcher (rn_lane s e))"
  shows "pass_ends e ls = [] \<and> dp_done (ln_dispatcher (rn_lane s' e))"
  using assms
proof (induction ls arbitrary: hs s)
  case (Cons l ls)
  obtain s1 where s1: "run_step c R D E l s = Some s1" using Cons.prems(1) by (cases "run_step c R D E l s") auto
  have ex: "run_exec c R D E ls (hs @ effects_by l s, s1) = Some (hs', s')" using Cons.prems(1) s1 by simp
  have none: "pass_end_of e l = []"
  proof (cases l)
    case (Dispatcher_Pass_End e' now)
    then show ?thesis using s1 Cons.prems(2) by (auto simp: Let_def split: if_splits)
  qed simp_all
  then show ?case using Cons.IH [OF ex] step_dispatcher [OF s1 none] Cons.prems(2) by (simp add: pass_ends_simps)
qed (simp add: pass_ends_simps)

text \<open>A dispatcher that is done never changes again.\<close>

lemma exec_done_frozen:
  assumes "run_exec c R D E ls (hs, s) = Some (hs', s')" and "dp_done (ln_dispatcher (rn_lane s e))"
  shows "ln_dispatcher (rn_lane s' e) = ln_dispatcher (rn_lane s e)"
  using assms
proof (induction ls arbitrary: hs s)
  case (Cons l ls)
  obtain s1 where s1: "run_step c R D E l s = Some s1" using Cons.prems(1) by (cases "run_step c R D E l s") auto
  have ex: "run_exec c R D E ls (hs @ effects_by l s, s1) = Some (hs', s')" using Cons.prems(1) s1 by simp
  have "ln_dispatcher (rn_lane s1 e) = ln_dispatcher (rn_lane s e)"
    using s1 Cons.prems(2) by (cases l) (auto simp: Let_def split: if_splits option.splits prod.splits)
  then show ?case using Cons.IH [OF ex] Cons.prems(2) by simp
qed simp

lemma pass_end_ofD: "pass_end_of e l \<noteq> [] \<Longrightarrow> \<exists>now. l = Dispatcher_Pass_End e now"
  by (cases l) (auto split: if_splits)

text \<open>From a state in which the flag was first seen at time \<open>start\<close>.\<close>

lemma exec_passes:
  assumes "run_exec c R D E ls (hs, s) = Some (hs', s')" and "rn_shutdown s"
    and "dp_shutdown_observed_at (ln_dispatcher (rn_lane s e)) = Some start"
  shows "(\<forall>t \<in> set (butlast (pass_ends e ls)). t < start + 2000000000)
    \<and> (pass_ends e ls \<noteq> [] \<and> start + 2000000000 \<le> last (pass_ends e ls) \<longrightarrow> dp_done (ln_dispatcher (rn_lane s' e)))"
  using assms
proof (induction ls arbitrary: hs s)
  case (Cons l ls)
  obtain s1 where s1: "run_step c R D E l s = Some s1" using Cons.prems(1) by (cases "run_step c R D E l s") auto
  have ex: "run_exec c R D E ls (hs @ effects_by l s, s1) = Some (hs', s')" using Cons.prems(1) s1 by simp
  note IH = Cons.IH [OF ex step_shutdown [OF s1 Cons.prems(2)]]
  show ?case
  proof (cases "pass_end_of e l = []")
    case True
    then show ?thesis using IH step_dispatcher [OF s1 True] Cons.prems(3) by (simp add: pass_ends_simps)
  next
    case False
    then obtain now where l: "l = Dispatcher_Pass_End e now" using pass_end_ofD by blast
    have p: "dp_shutdown_observed_at (ln_dispatcher (rn_lane s1 e)) = Some start"
      "dp_done (ln_dispatcher (rn_lane s1 e)) \<or> now < start + 2000000000"
      using step_pass_end [OF s1 [unfolded l] Cons.prems(2) refl] Cons.prems(3) by simp_all
    show ?thesis
    proof (cases "dp_done (ln_dispatcher (rn_lane s1 e))")
      case True
      then show ?thesis using exec_done [OF ex] by (simp add: pass_ends_simps l)
    next
      case False
      then show ?thesis using p IH by (auto simp: pass_ends_simps l)
    qed
  qed
qed (simp add: pass_ends_simps)

section \<open>Shutdown is bounded\<close>

text \<open>C6. Shutdown is bounded: once the flag is set, in any schedule and whatever the servers send, every receiver
  takes at most three more steps (an answer to a connect or an open it is waiting for, then the check that ends
  it); and if the clock is read as \<open>t\<close> when a dispatcher first notices the flag, every later pass of it but the
  last ends before \<open>t\<close> plus two seconds, and when one ends later, the dispatcher has exited.\<close>

theorem shutdown_is_bounded:
  assumes "run_exec c R D E ls (hs, s) = Some (hs', s')" and "rn_shutdown s"
    and "dp_shutdown_observed_at (ln_dispatcher (rn_lane s e)) = None"
  shows "length (filter (is_receiver_step e i) ls) \<le> 3
    \<and> (case pass_ends e ls of
         [] \<Rightarrow> True
       | t # ts \<Rightarrow> (\<forall>t' \<in> set (butlast ts). t' < t + 2000000000)
           \<and> (t + 2000000000 \<le> last (t # ts) \<longrightarrow> dp_done (ln_dispatcher (rn_lane s' e))))"
proof -
  have "length (filter (is_receiver_step e i) ls) \<le> 3"
    using exec_rx_left [OF assms(1,2), of e i] rx_left_le [of "rx_phase (ln_receivers (rn_lane s e) ! i)"] by linarith
  moreover have "case pass_ends e ls of
         [] \<Rightarrow> True
       | t # ts \<Rightarrow> (\<forall>t' \<in> set (butlast ts). t' < t + 2000000000)
           \<and> (t + 2000000000 \<le> last (t # ts) \<longrightarrow> dp_done (ln_dispatcher (rn_lane s' e)))"
    using assms
  proof (induction ls arbitrary: hs s)
    case (Cons l ls)
    obtain s1 where s1: "run_step c R D E l s = Some s1" using Cons.prems(1) by (cases "run_step c R D E l s") auto
    have ex: "run_exec c R D E ls (hs @ effects_by l s, s1) = Some (hs', s')" using Cons.prems(1) s1 by simp
    note sh = step_shutdown [OF s1 Cons.prems(2)]
    show ?case
    proof (cases "pass_end_of e l = []")
      case True
      then show ?thesis using Cons.IH [OF ex sh] step_dispatcher [OF s1 True] Cons.prems(3) by (simp add: pass_ends_simps)
    next
      case False
      then obtain now where l: "l = Dispatcher_Pass_End e now" using pass_end_ofD by blast
      have p: "dp_shutdown_observed_at (ln_dispatcher (rn_lane s1 e)) = Some now"
        using step_pass_end [OF s1 [unfolded l] Cons.prems(2) refl] Cons.prems(3) by simp
      show ?thesis using exec_passes [OF ex sh p] by (auto simp: pass_ends_simps l)
    qed
  qed (simp add: pass_ends_simps)
  ultimately show ?thesis by blast
qed

text \<open>The run of one slots subscription, interrupted: the receiver stops at its next check, the dispatcher after an
  empty pass.\<close>

definition interrupted :: "rat list run_state" where
  "interrupted = snd (the (run_exec slots_config list_runtime slots_env toy_raw_env
     (slots_schedule @ [Dispatcher_Step One None, Interrupt]) ([], the (run_start slots_config list_runtime slots_plan [] None))))"

definition stopping :: "unit run_label list" where
  "stopping = [Dispatcher_Pass_End One 7, Receiver_Step One 0 (Check_Shutdown True), Dispatcher_Step One None, Dispatcher_Pass_End One 8]"

theorem shutdown_is_bounded_witness:
  "length (filter (is_receiver_step One 0) stopping) \<le> 3 \<and> pass_ends One stopping = [7, 8]
   \<and> (case run_exec slots_config list_runtime slots_env toy_raw_env stopping ([], interrupted) of
        None \<Rightarrow> False | Some (_, s') \<Rightarrow> dp_done (ln_dispatcher (rn_lane s' One)))"
proof -
  let ?run = "run_exec slots_config list_runtime slots_env toy_raw_env stopping ([], interrupted)"
  have fin: "case ?run of None \<Rightarrow> False | Some (_, s') \<Rightarrow> dp_done (ln_dispatcher (rn_lane s' One))" by code_simp
  then obtain hs' s' where run: "?run = Some (hs', s')" by (auto split: option.splits)
  have "rn_shutdown interrupted" by code_simp
  moreover have "dp_shutdown_observed_at (ln_dispatcher (rn_lane interrupted One)) = None" by code_simp
  moreover have "pass_ends One stopping = [7, 8]" by code_simp
  ultimately show ?thesis using shutdown_is_bounded [OF run, of One 0] fin by simp
qed

end
