(* ===== verification/Joins.thy ===== *)
theory Joins
  imports Shutdown
begin

text \<open>
  The bounded waits at the end of \<open>execute\<close> in \<open>src/run.rs\<close>: after the coordinator has left its loop it waits for the
  dispatchers, reclaims them, then waits for the receivers. Time is in milliseconds. The other threads keep running
  during the sleeps, so a wait is given the readings of the clock, each with the steps of the others that follow it.
\<close>

section \<open>Waiting\<close>

definition DISPATCHER_JOIN_TIMEOUT :: nat where
  "DISPATCHER_JOIN_TIMEOUT = 5000"

definition RECEIVER_JOIN_TIMEOUT :: nat where
  "RECEIVER_JOIN_TIMEOUT = 5000"

definition JOIN_POLL :: nat where
  "JOIN_POLL = 50"

type_synonym 'm poll_log = "(nat \<times> 'm run_label list) list"

text \<open>The loop is left at a reading at or past the deadline, or when the threads have finished; \<open>None\<close> is a log that does
  not belong to the loop.\<close>

fun join_wait ::
  "config \<Rightarrow> 'd runtime \<Rightarrow> 'm decode_env \<Rightarrow> raw_env \<Rightarrow> ('d run_state \<Rightarrow> bool) \<Rightarrow> nat \<Rightarrow> 'm poll_log
     \<Rightarrow> history \<times> 'd run_state \<Rightarrow> (history \<times> 'd run_state) option" where
  "join_wait c R D E finished deadline [] x = None"
| "join_wait c R D E finished deadline ((now, others) # polls) x =
     (if deadline \<le> now \<or> finished (snd x) then (if others = [] \<and> polls = [] then Some x else None)
      else Option.bind (run_exec c R D E others x) (join_wait c R D E finished deadline polls))"

definition dispatchers_finished :: "'d run_state \<Rightarrow> bool" where
  "dispatchers_finished s \<longleftrightarrow> dp_done (ln_dispatcher (rn_lane s One)) \<and> dp_done (ln_dispatcher (rn_lane s Two))"

definition all_receivers_finished :: "'d run_state \<Rightarrow> bool" where
  "all_receivers_finished s \<longleftrightarrow> receivers_finished (rn_lane s One) \<and> receivers_finished (rn_lane s Two)"

section \<open>A wait is bounded\<close>

definition poll_labels :: "'m poll_log \<Rightarrow> 'm run_label list" where
  "poll_labels polls = concat (map snd polls)"

lemma run_exec_append:
  "run_exec c R D E (ls @ ks) x = Option.bind (run_exec c R D E ls x) (run_exec c R D E ks)"
proof (induction ls arbitrary: x)
  case (Cons l ls)
  obtain hs s where x: "x = (hs, s)" by (cases x)
  show ?case using Cons.IH by (simp add: x split: option.split)
qed simp

text \<open>What a wait does is a run of the others; it ends when they have finished or the deadline has passed.\<close>

lemma join_wait_exec:
  assumes "join_wait c R D E finished deadline polls x = Some y"
  shows "run_exec c R D E (poll_labels polls) x = Some y \<and> polls \<noteq> []
    \<and> (finished (snd y) \<or> deadline \<le> fst (last polls)) \<and> (\<forall>p \<in> set (butlast polls). fst p < deadline)"
  using assms
proof (induction polls arbitrary: x)
  case (Cons p polls)
  obtain now others where p: "p = (now, others)" by (cases p)
  show ?case
  proof (cases "deadline \<le> now \<or> finished (snd x)")
    case True
    then have "others = []" "polls = []" "y = x" using Cons.prems by (auto simp: p split: if_splits)
    then show ?thesis using True by (auto simp: p poll_labels_def)
  next
    case False
    then obtain z where z: "run_exec c R D E others x = Some z" "join_wait c R D E finished deadline polls z = Some y"
      using Cons.prems by (auto simp: p bind_eq_Some_conv)
    show ?thesis using Cons.IH [OF z(2)] z(1) False by (auto simp: p poll_labels_def run_exec_append)
  qed
qed simp

text \<open>The clock advances by at least the time slept between two readings.\<close>

definition sleeps_between :: "nat list \<Rightarrow> bool" where
  "sleeps_between ts \<longleftrightarrow> (\<forall>i. Suc i < length ts \<longrightarrow> ts ! i + JOIN_POLL \<le> ts ! Suc i)"

lemma sleeps_between_nth:
  assumes "sleeps_between ts" and "i < length ts"
  shows "ts ! 0 + JOIN_POLL * i \<le> ts ! i"
  using assms(2)
proof (induction i)
  case (Suc i)
  then have "ts ! i + JOIN_POLL \<le> ts ! Suc i" using assms(1) by (simp add: sleeps_between_def)
  then show ?case using Suc by simp
qed simp


text \<open>A wait for a dispatcher that needs two looks.\<close>

definition two_looks :: "unit poll_log" where
  "two_looks = [(100, [Receiver_Step One 0 (Check_Shutdown True), Dispatcher_Pass_End One 7, Dispatcher_Step One None,
      Dispatcher_Pass_End One 8, Dispatcher_Pass_End Two 9]), (150, [])]"


end
