(* ===== verification/Run_End.thy ===== *)
theory Run_End
  imports Run_Output Joins
begin

text \<open>
  What the output says about the run that produced it (\<open>execute\<close> and \<open>assemble_output\<close> in \<open>src/run.rs\<close>): the
  counters, totals and summaries of the output as functions of the events the dispatchers took.
\<close>

section \<open>Counters\<close>

fun is_account_event :: "event_payload \<Rightarrow> bool" where
  "is_account_event (Account_Payload _ _ _ _ _ _) = True"
| "is_account_event _ = False"

fun is_transaction_event :: "event_payload \<Rightarrow> bool" where
  "is_transaction_event (Transaction_Payload _ _ _) = True"
| "is_transaction_event _ = False"

fun is_block_event :: "event_payload \<Rightarrow> bool" where
  "is_block_event (Block_Payload _ _ _ _ _) = True"
| "is_block_event _ = False"

fun is_entry_event :: "event_payload \<Rightarrow> bool" where
  "is_entry_event (Entry_Payload _ _ _ _) = True"
| "is_entry_event _ = False"

text \<open>The number of events of a kind on an endpoint, as the counters hold it.\<close>

definition count_kind :: "(event_payload \<Rightarrow> bool) \<Rightarrow> endpoint_role \<Rightarrow> event list \<Rightarrow> u64" where
  "count_kind P e evs = of_nat (length (filter (\<lambda>ev. ev_endpoint ev = e \<and> P (ev_payload ev)) evs))"

lemma count_event_counters:
  "ic_accounts (fst (count_event ev k n)) = ic_accounts k + (if is_account_event (ev_payload ev) then 1 else 0)"
  "ic_transactions (fst (count_event ev k n)) = ic_transactions k + (if is_transaction_event (ev_payload ev) then 1 else 0)"
  "ic_blocks (fst (count_event ev k n)) = ic_blocks k + (if is_block_event (ev_payload ev) then 1 else 0)"
  "ic_entries (fst (count_event ev k n)) = ic_entries k + (if is_entry_event (ev_payload ev) then 1 else 0)"
  by (simp_all add: count_event_def split: event_payload.split)

text \<open>A counter of an endpoint that each of its events of a kind increments.\<close>

lemma tally_counter:
  fixes get :: "ingest_counters_partial \<Rightarrow> u64"
  assumes "\<And>ev k n. get (fst (count_event ev k n)) = get k + (if P (ev_payload ev) then 1 else 0)"
  shows "get (snd (fold tally evs x) e) = get (snd x e) + count_kind P e evs"
proof (induction evs arbitrary: x)
  case (Cons ev evs)
  have "get (snd (tally ev x) e) = get (snd x e) + (if ev_endpoint ev = e \<and> P (ev_payload ev) then 1 else 0)"
    using assms [of ev "snd x (ev_endpoint ev)" "fst x"] by (auto simp: tally_def Let_def split: prod.split)
  then show ?case using Cons.IH [of "tally ev x"] by (simp add: count_kind_def)
qed (simp add: count_kind_def)

lemmas tally_kinds =
  tally_counter [where get = ic_accounts, OF count_event_counters(1)]
  tally_counter [where get = ic_transactions, OF count_event_counters(2)]
  tally_counter [where get = ic_blocks, OF count_event_counters(3)]
  tally_counter [where get = ic_entries, OF count_event_counters(4)]

text \<open>When no dispatcher holds an event, the counters are those of the matched events.\<close>

lemma run_tallied:
  assumes inv: "run_inv c R D E specs names raw ls hs s" and ring: "\<And>e. dp_stage (ln_dispatcher (rn_lane s e)) = At_Ring"
  shows "(shd_total_slots (rn_shared s), \<lambda>e. ds_counters (dispatcher_states s e)) =
    fold tally (matched_events hs) (0, \<lambda>_. ingest_counters_partial_default)"
proof -
  have "of_endpoint e (tallied_events hs) = of_endpoint e (matched_events hs)" for e
    using run_orders(1,3) [OF inv, of e] by (simp add: ring)
  then show ?thesis unfolding run_counters [OF inv] by (rule fold_tally_cong)
qed

lemma run_kinds:
  assumes inv: "run_inv c R D E specs names raw ls hs s" and ring: "\<And>e. dp_stage (ln_dispatcher (rn_lane s e)) = At_Ring"
  shows "ic_accounts (ds_counters (dispatcher_states s e)) = count_kind is_account_event e (matched_events hs)"
    and "ic_transactions (ds_counters (dispatcher_states s e)) = count_kind is_transaction_event e (matched_events hs)"
    and "ic_blocks (ds_counters (dispatcher_states s e)) = count_kind is_block_event e (matched_events hs)"
    and "ic_entries (ds_counters (dispatcher_states s e)) = count_kind is_entry_event e (matched_events hs)"
proof -
  have "ds_counters (dispatcher_states s e) = snd (fold tally (matched_events hs) (0, \<lambda>_. ingest_counters_partial_default)) e"
    using run_tallied [OF inv ring] by (metis snd_conv)
  then show "ic_accounts (ds_counters (dispatcher_states s e)) = count_kind is_account_event e (matched_events hs)"
    "ic_transactions (ds_counters (dispatcher_states s e)) = count_kind is_transaction_event e (matched_events hs)"
    "ic_blocks (ds_counters (dispatcher_states s e)) = count_kind is_block_event e (matched_events hs)"
    "ic_entries (ds_counters (dispatcher_states s e)) = count_kind is_entry_event e (matched_events hs)"
    by (simp_all add: tally_kinds ingest_counters_partial_default_def)
qed

lemma run_total_slots:
  assumes inv: "run_inv c R D E specs names raw ls hs s" and ring: "\<And>e. dp_stage (ln_dispatcher (rn_lane s e)) = At_Ring"
  shows "shd_total_slots (rn_shared s) = of_nat (length (new_maxima 0 (processed_slots (matched_events hs))))"
proof -
  have "shd_total_slots (rn_shared s) = fst (fold tally (matched_events hs) (0, \<lambda>_. ingest_counters_partial_default))"
    using run_tallied [OF inv ring] by (metis fst_conv)
  then show ?thesis by (simp add: tally_total ingest_counters_partial_default_def)
qed

section \<open>Totals\<close>

lemma lane_specs_Cons:
  "lane_specs (x # xs) e = (if role_endpoint (sp_role x) = e then x # lane_specs xs e else lane_specs xs e)"
  by (simp add: lane_specs_def)

text \<open>The totals fold over the rings in the order of the plan; each endpoint's fold only meets its own.\<close>

lemma capture_totals_lanes:
  assumes "length r1 = length (lane_specs specs One)" and "length r2 = length (lane_specs specs Two)"
  shows "foldl (\<lambda>t (s, r). ct_add (role_endpoint r) (sn_received (stats_snapshot s)) t) t
      (zip (map rg_stats (plan_rings specs r1 r2)) (map sp_role specs)) =
    \<lparr>ct_ep1 = foldl saturating_add (ct_ep1 t) (map (rs_received \<circ> rg_stats) r1),
     ct_ep2 = foldl saturating_add (ct_ep2 t) (map (rs_received \<circ> rg_stats) r2)\<rparr>"
  using assms
proof (induction specs arbitrary: r1 r2 t)
  case Nil
  then show ?case by (simp add: lane_specs_def)
next
  case (Cons x xs)
  show ?case
  proof (cases "role_endpoint (sp_role x)")
    case One
    then obtain a r where r1: "r1 = a # r" using Cons.prems(1) by (cases r1) (simp_all add: lane_specs_Cons)
    then show ?thesis using Cons.prems One Cons.IH [of r r2]
      by (simp add: lane_specs_Cons ct_add_def stats_snapshot_def)
  next
    case Two
    then obtain a r where r2: "r2 = a # r" using Cons.prems(2) by (cases r2) (simp_all add: lane_specs_Cons)
    then show ?thesis using Cons.prems Two Cons.IH [of r1 r]
      by (simp add: lane_specs_Cons ct_add_def stats_snapshot_def)
  qed
qed

lemma foldl_saturating_add:
  fixes a :: u64
  assumes "unat a + sum_list ns < 2 ^ 64"
  shows "foldl saturating_add a (map of_nat ns) = a + of_nat (sum_list ns)"
  using assms
proof (induction ns arbitrary: a)
  case (Cons n ns)
  have n: "unat (of_nat n :: u64) = n" using Cons.prems by (simp add: unat_of_nat take_bit_eq_mod)
  then have "saturating_add a (of_nat n) = a + of_nat n" using Cons.prems by (simp add: saturating_add_def)
  moreover have "unat (a + of_nat n) = unat a + n" using Cons.prems n by (simp add: unat_word_ariths)
  ultimately show ?case using Cons.IH [of "a + of_nat n"] Cons.prems by (simp add: algebra_simps)
qed simp

text \<open>Every event was taken from exactly one ring of its endpoint.\<close>

lemma sum_taken_from:
  assumes "\<And>i ev. (e, Took i ev) \<in> set hs \<Longrightarrow> i < n"
  shows "(\<Sum>i\<leftarrow>[0..<n]. length (taken_from e i hs)) = length (taken_by e hs)"
  using assms
proof (induction hs)
  case (Cons h hs)
  obtain e' x where h: "h = (e', x)" by (cases h)
  have IH: "(\<Sum>i\<leftarrow>[0..<n]. length (taken_from e i hs)) = length (taken_by e hs)"
    by (rule Cons.IH) (use Cons.prems in \<open>metis list.set_intros(2)\<close>)
  have cons: "taken_from e i (h # hs) = taken_from e i [h] @ taken_from e i hs" "taken_by e (h # hs) = taken_by e [h] @ taken_by e hs" for i
    using history_append(1) [of e _ "[h]" hs] history_append(2) [of e "[h]" hs] by simp_all
  have one: "(\<Sum>i\<leftarrow>[0..<m]. if j = i then 1 else 0 :: nat) = (if j < m then 1 else 0)" for j m
    by (induction m) auto
  have here: "(\<Sum>i\<leftarrow>[0..<n]. length (taken_from e i [h])) = length (taken_by e [h])"
  proof (cases "\<exists>i ev. x = Took i ev \<and> e' = e")
    case True
    then obtain i ev where x: "x = Took i ev" "e' = e" by blast
    then have "i < n" using Cons.prems [of i ev] by (simp add: h)
    then show ?thesis using one [of i n] by (simp add: h x history if_distrib [of length] cong: if_cong)
  next
    case False
    then have "taken_from e i [h] = []" "taken_by e [h] = []" for i by (auto simp: h history split: effect.splits)
    then show ?thesis by simp
  qed
  show ?case unfolding cons length_append sum_list_addf here IH by simp
qed simp

lemma taken_by_length: "length (taken_by e hs) \<le> length hs"
proof -
  have "length (taken_by e [h]) \<le> 1" for h by (cases h) (simp add: history split: effect.split)
  then show ?thesis
  proof (induction hs)
    case (Cons h hs)
    have "taken_by e (h # hs) = taken_by e [h] @ taken_by e hs" using history_append(2) [of e "[h]" hs] by simp
    then show ?case using Cons by (metis One_nat_def add_mono_thms_linordered_semiring(1) length_append list.size(4) plus_1_eq_Suc add.commute)
  qed simp
qed

lemma run_ring_counters:
  assumes inv: "run_inv c R D E specs names raw ls hs s" and fin: "dp_done (ln_dispatcher (rn_lane s e))"
  shows "map (rs_received \<circ> rg_stats) (ln_rings (rn_lane s e)) =
    map of_nat (map (\<lambda>i. length (taken_from e i hs)) [0..<length (lane_roles specs e)])"
proof -
  have lane: "lane_inv D (lane_roles specs) ls hs e (rn_lane s e)" using inv by (simp add: run_inv_def)
  have "ring_acc (lane_roles specs e ! i) (delivered_to D (lane_roles specs) e i ls) (taken_from e i hs) 0 (ln_rings (rn_lane s e) ! i)"
    if "i < length (lane_roles specs e)" for i
    using lane that unfolding lane_inv_def run_done_stage(2) [OF inv fin] by blast
  then have "rs_received (rg_stats (ln_rings (rn_lane s e) ! i)) = of_nat (length (taken_from e i hs))"
    if "i < length (lane_roles specs e)" for i
    using that by (simp add: ring_acc_def)
  moreover have "length (ln_rings (rn_lane s e)) = length (lane_roles specs e)" using lane by (simp add: lane_inv_def)
  ultimately show ?thesis by (intro nth_equalityI) simp_all
qed

lemma run_endpoint_count:
  assumes inv: "run_inv c R D E specs names raw ls hs s" and fin: "dp_done (ln_dispatcher (rn_lane s e))"
  shows "of_endpoint e (matched_events hs) = taken_by e hs" and "length (of_endpoint e (matched_events hs)) \<le> length hs"
    and "(\<Sum>i\<leftarrow>[0..<length (lane_roles specs e)]. length (taken_from e i hs)) = length (of_endpoint e (matched_events hs))"
proof -
  show eq: "of_endpoint e (matched_events hs) = taken_by e hs"
    using run_orders(1) [OF inv, of e] by (simp add: run_done_stage(1) [OF inv fin])
  show "length (of_endpoint e (matched_events hs)) \<le> length hs" unfolding eq by (rule taken_by_length)
  have "origin_inv D (lane_roles specs) ls hs" using inv by (simp add: run_inv_def)
  then have "i < length (lane_roles specs e)" if "(e, Took i ev) \<in> set hs" for i ev
    using that unfolding origin_inv_def by blast
  then show "(\<Sum>i\<leftarrow>[0..<length (lane_roles specs e)]. length (taken_from e i hs)) = length (of_endpoint e (matched_events hs))"
    unfolding eq by (rule sum_taken_from)
qed

lemma run_totals:
  assumes inv: "run_inv c R D E specs names raw ls hs s" and len: "length hs < 2 ^ 64"
    and fin: "\<And>e. dp_done (ln_dispatcher (rn_lane s e))"
  shows "compute_capture_totals (map sp_role specs) (spec_stats specs s) =
    \<lparr>ct_ep1 = of_nat (length (of_endpoint One (matched_events hs))),
     ct_ep2 = of_nat (length (of_endpoint Two (matched_events hs)))\<rparr>"
proof -
  have rings: "length (ln_rings (rn_lane s e)) = length (lane_specs specs e)" for e
    using inv by (simp add: run_inv_def lane_inv_def lane_roles_def)
  note n = run_endpoint_count [OF inv fin]
  have "foldl saturating_add 0 (map (rs_received \<circ> rg_stats) (ln_rings (rn_lane s e))) =
      of_nat (length (of_endpoint e (matched_events hs)))" for e
    unfolding run_ring_counters [OF inv fin]
    using foldl_saturating_add [of 0 "map (\<lambda>i. length (taken_from e i hs)) [0..<length (lane_roles specs e)]"] n(2) [of e] len
    unfolding n(3) by simp
  then show ?thesis
    unfolding compute_capture_totals_def spec_stats_def capture_totals_lanes [OF rings rings] by simp
qed

section \<open>The output of a run\<close>

definition per_endpoint :: "(endpoint_role \<Rightarrow> 'a) \<Rightarrow> (string, 'a) hmap" where
  "per_endpoint f = hm_insert ''endpoint2'' (f Two) (hm_insert ''endpoint1'' (f One) [])"

text \<open>C4. The output reports the run: when both dispatchers had exited when they were reclaimed, whatever the receivers still did
  until the output was made, the update counters of the output are, by
  kind and endpoint, the numbers of events the dispatchers took (modulo two to the 64); each endpoint's total is the number
  of its events, no matter over how many rings they came; the slot total is the number of new maxima of
  its processed slots; and the comparative summary, the cross-stream and the stability sections are those of
  feeding these events one after another to fresh matchers and trackers.\<close>

theorem output_reports_run:
  assumes "run_start c R (su_plan su) names raw = Some s0" and "run_trace c R D E s0 ks gs s1" and "dispatchers_finished s1"
    and "run_exec c R D E ls (gs, s1) = Some (hs, s)" and "length hs < 2 ^ 64"
  shows "let evs = matched_events hs;
             out = assemble_output R OE c (run_finish R H outcomes c su pings wall elapsed s1 s);
             md = out_metadata out;
             matchers = fold (dispatch R) evs (sms_with_strict_account_key (cf_strict_account_key c) (sms_new R names))
         in rm_total_account_updates md = (count_kind is_account_event One evs, count_kind is_account_event Two evs)
          \<and> rm_total_transaction_updates md = (count_kind is_transaction_event One evs, count_kind is_transaction_event Two evs)
          \<and> rm_total_block_updates md = (count_kind is_block_event One evs, count_kind is_block_event Two evs)
          \<and> rm_total_entry_updates md = (count_kind is_entry_event One evs, count_kind is_entry_event Two evs)
          \<and> rm_total_slots_collected md = of_nat (length (new_maxima 0 (processed_slots evs)))
          \<and> (\<exists>rest. map (unat \<circ> ei_total_updates) (out_endpoints out) = length (of_endpoint One evs) # rest
               \<and> rest \<in> {[], [length (of_endpoint Two evs)]})
          \<and> (out_comparative out, out_per_program out) = make_comparative R c matchers
          \<and> out_cross_stream out = per_endpoint (\<lambda>e. fst (cs_summary R (fold (cs_observe R) evs (cs_new R e))))
          \<and> out_stability out = per_endpoint (\<lambda>e. fst (st_summary R (fold (st_observe R) evs (st_new R e))))"
proof -
  let ?evs = "matched_events hs"
  let ?f = "run_finish R H outcomes c su pings wall elapsed s1 s"
  let ?m = "fold (dispatch R) ?evs (sms_with_strict_account_key (cf_strict_account_key c) (sms_new R names))"
  have tr: "run_trace c R D E s0 (ks @ ls) hs s" by (rule run_exec_trace [OF assms(2,4)])
  have inv: "run_inv c R D E (su_plan su) names raw (ks @ ls) hs s" by (rule run_inv_trace [OF tr assms(1)])
  have done1: "dp_done (ln_dispatcher (rn_lane s1 e))" for e using assms(3) by (cases e) (simp_all add: dispatchers_finished_def)
  note same = exec_done_frozen [OF assms(4) done1]
  have fin: "dp_done (ln_dispatcher (rn_lane s e))" for e using done1 [of e] by (simp add: same)
  have st: "dispatcher_states s e = dp_state (ln_dispatcher (rn_lane s e))" for e by (simp add: dispatcher_states_def)
  have f: "re_state1 ?f = dispatcher_states s One" "re_state2 ?f = dispatcher_states s Two"
    "re_matchers ?f = shd_matchers (rn_shared s)" "re_total_slots ?f = shd_total_slots (rn_shared s)"
    "re_totals ?f = compute_capture_totals (map sp_role (su_plan su)) (spec_stats (su_plan su) s)"
    using fin done1 by (simp_all add: run_finish_def Let_def reclaim_dispatcher_def reclaimed_state_def reclaim_matchers_def st same)
  note ring = run_done_stage(1) [OF inv fin]
  have m: "shd_matchers (rn_shared s) = ?m" using inv by (simp add: run_inv_def shared_inv_def)
  have small: "unat (of_nat (length (of_endpoint e ?evs)) :: u64) = length (of_endpoint e ?evs)" for e
    using run_endpoint_count(2) [OF inv fin, of e] assms(5) by (simp add: unat_of_nat take_bit_eq_mod)
  have md: "make_metadata ?f = make_metadata ?f
      \<lparr>rm_total_slots_collected := of_nat (length (new_maxima 0 (processed_slots ?evs))),
       rm_total_account_updates := (count_kind is_account_event One ?evs, count_kind is_account_event Two ?evs),
       rm_total_transaction_updates := (count_kind is_transaction_event One ?evs, count_kind is_transaction_event Two ?evs),
       rm_total_block_updates := (count_kind is_block_event One ?evs, count_kind is_block_event Two ?evs),
       rm_total_entry_updates := (count_kind is_entry_event One ?evs, count_kind is_entry_event Two ?evs)\<rparr>"
    by (simp add: make_metadata_def merge_counters_def Let_def f run_kinds [OF inv ring] run_total_slots [OF inv ring])
  have ep: "\<exists>rest. map (unat \<circ> ei_total_updates) (make_endpoints c ?f) = length (of_endpoint One ?evs) # rest
      \<and> rest \<in> {[], [length (of_endpoint Two ?evs)]}"
    by (auto simp: make_endpoints_def make_endpoint_info_def f run_totals [OF inv assms(5) fin] small split: option.split)
  have cmp: "(out_comparative (assemble_output R OE c ?f), out_per_program (assemble_output R OE c ?f)) = make_comparative R c ?m"
    by (simp add: assemble_output_def f m split: prod.split)
  have parts: "out_metadata (assemble_output R OE c ?f) = make_metadata ?f"
    "out_endpoints (assemble_output R OE c ?f) = make_endpoints c ?f"
    "out_cross_stream (assemble_output R OE c ?f) =
       per_endpoint (\<lambda>e. fst (cs_summary R (fold (cs_observe R) ?evs (cs_new R e))))"
    "out_stability (assemble_output R OE c ?f) =
       per_endpoint (\<lambda>e. fst (st_summary R (fold (st_observe R) ?evs (st_new R e))))"
    by (simp_all add: per_endpoint_def assemble_output_def f run_cross [OF inv] run_stability [OF inv] split: prod.split)
  show ?thesis unfolding Let_def parts using ep cmp by (subst (1 2 3 4 5) md) simp
qed

text \<open>The run of one slots subscription, ended by an interrupt.\<close>

definition ended_schedule :: "unit run_label list" where
  "ended_schedule = slots_schedule @ [Dispatcher_Step One None, Interrupt, Dispatcher_Pass_End One 7,
     Dispatcher_Step One None, Dispatcher_Pass_End One 8, Dispatcher_Pass_End Two 9]"

definition ended_run :: "history \<times> rat list run_state" where
  "ended_run = the (run_exec slots_config list_runtime slots_env toy_raw_env ended_schedule
     ([], the (run_start slots_config list_runtime slots_plan [] None)))"

lemma ended_trace:
  "run_trace slots_config list_runtime slots_env toy_raw_env
     (the (run_start slots_config list_runtime slots_plan [] None)) ended_schedule (fst ended_run) (snd ended_run)"
proof -
  let ?s0 = "the (run_start slots_config list_runtime slots_plan [] None)"
  let ?run = "run_exec slots_config list_runtime slots_env toy_raw_env ended_schedule ([], ?s0)"
  have "(case ?run of None \<Rightarrow> False | Some _ \<Rightarrow> True)" by code_simp
  then have "?run = Some (fst ended_run, snd ended_run)" by (auto simp: ended_run_def split: option.splits)
  from run_exec_trace [OF run_trace_start this] show ?thesis by simp
qed

theorem output_reports_run_witness:
  "\<forall>ps v md H outcomes pings wall elapsed OE.
     let su = \<lparr>su_programs = ps, su_ep1_version = v, su_ep2_version = None, su_proto_metadata = md, su_plan = slots_plan\<rparr>;
         out = assemble_output list_runtime OE slots_config
           (run_finish list_runtime H outcomes slots_config su pings wall elapsed (snd ended_run) (snd ended_run))
     in rm_total_slots_collected (out_metadata out) = 1 \<and> rm_total_account_updates (out_metadata out) = (0, 0)
      \<and> unat (ei_total_updates (hd (out_endpoints out))) = 1"
proof (intro allI)
  fix ps v md H outcomes pings wall elapsed OE
  let ?su = "\<lparr>su_programs = ps, su_ep1_version = v, su_ep2_version = None, su_proto_metadata = md, su_plan = slots_plan\<rparr>"
  let ?evs = "matched_events (fst ended_run)"
  have "run_start slots_config list_runtime (su_plan ?su) [] None = Some (the (run_start slots_config list_runtime slots_plan [] None))"
    using slots_start by simp
  note rep = output_reports_run [OF this ended_trace, of "[]" "fst ended_run" "snd ended_run" OE H outcomes pings wall elapsed]
  have fin: "dispatchers_finished (snd ended_run)" by code_simp
  have stay: "run_exec slots_config list_runtime slots_env toy_raw_env [] (fst ended_run, snd ended_run) = Some (fst ended_run, snd ended_run)"
    by simp
  have "length (fst ended_run) = 5" by code_simp
  then have len: "length (fst ended_run) < 2 ^ 64" by simp
  have ev: "new_maxima 0 (processed_slots ?evs) = [5]" "length (of_endpoint One ?evs) = 1"
    "count_kind is_account_event One ?evs = 0" "count_kind is_account_event Two ?evs = 0"
    by code_simp+
  show "let su = ?su; out = assemble_output list_runtime OE slots_config
           (run_finish list_runtime H outcomes slots_config su pings wall elapsed (snd ended_run) (snd ended_run))
     in rm_total_slots_collected (out_metadata out) = 1 \<and> rm_total_account_updates (out_metadata out) = (0, 0)
      \<and> unat (ei_total_updates (hd (out_endpoints out))) = 1"
    using rep [OF fin stay len] unfolding Let_def ev by (auto simp: map_eq_Cons_conv)
qed

end
