(* ===== verification/Graceful.thy ===== *)
theory Graceful
  imports Shutdown
begin

text \<open>
  The graceful end of a run (\<open>dispatcher_thread_main\<close> in \<open>src/run.rs\<close>): a dispatcher that leaves because a pass
  found nothing has emptied the rings of receivers that had finished before.
\<close>

section \<open>Finished receivers\<close>

lemma rx_step_done: "rx_phase rx = Rx_Done \<Longrightarrow> rx_step D inp (rx, ring) = None"
  by (cases inp) (simp_all add: rx_thread_start_def)

text \<open>Once the receivers of a lane have finished, only its dispatcher changes it, and nothing is delivered to it.\<close>

lemma finished_step:
  assumes "run_step c R D E l s = Some s'" and "receivers_finished (rn_lane s e)"
  shows "delivered_by D roles e i l = [] \<and> receivers_finished (rn_lane s' e)
    \<and> ((\<exists>io. l = Dispatcher_Step e io) \<or> (\<exists>now. l = Dispatcher_Pass_End e now) \<or> rn_lane s' e = rn_lane s e)"
proof (cases l)
  case (Receiver_Step e' j inp)
  then obtain rx ring where j: "j < length (ln_receivers (rn_lane s e'))"
    and rx: "rx_step D inp (ln_receivers (rn_lane s e') ! j, ln_rings (rn_lane s e') ! j) = Some (rx, ring)"
    and s': "s' = set_lane e' ((rn_lane s e')\<lparr>ln_receivers := (ln_receivers (rn_lane s e'))[j := rx],
        ln_rings := (ln_rings (rn_lane s e'))[j := ring]\<rparr>) (note_realtime (applies_realtime inp) s)"
    using assms(1) by (auto simp: Let_def split: if_splits option.splits)
  have "e' \<noteq> e"
  proof
    assume "e' = e"
    then have "rx_phase (ln_receivers (rn_lane s e') ! j) = Rx_Done"
      using assms(2) j by (simp add: receivers_finished_def list_all_length)
    from rx_step_done [OF this, of D inp "ln_rings (rn_lane s e') ! j"] rx show False by simp
  qed
  then show ?thesis using assms(2) by (simp add: Receiver_Step s' delivered_by_def)
next
  case (Dispatcher_Step e' io)
  then have "ln_receivers (rn_lane s' e) = ln_receivers (rn_lane s e)" "e' \<noteq> e \<Longrightarrow> rn_lane s' e = rn_lane s e"
    using assms(1) by (auto simp: Let_def split: if_splits prod.splits)
  then show ?thesis using assms(2) by (auto simp: Dispatcher_Step delivered_by_def receivers_finished_def)
next
  case (Dispatcher_Pass_End e' now)
  then have "ln_receivers (rn_lane s' e) = ln_receivers (rn_lane s e)" "e' \<noteq> e \<Longrightarrow> rn_lane s' e = rn_lane s e"
    using assms(1) by (auto simp: Let_def split: if_splits)
  then show ?thesis using assms(2) by (auto simp: Dispatcher_Pass_End delivered_by_def receivers_finished_def)
qed (use assms in \<open>auto simp: delivered_by_def split: if_splits\<close>)

section \<open>A pass that finds nothing\<close>

text \<open>As long as the pass found nothing, the dispatcher holds nothing and the rings behind its position are empty.\<close>

definition swept :: "'d lane \<Rightarrow> bool" where
  "swept la \<longleftrightarrow>
     (\<not> dp_got_any (ln_dispatcher la) \<longrightarrow>
        dp_stage (ln_dispatcher la) = At_Ring \<and> dp_drained (ln_dispatcher la) = 0 \<and> (\<forall>i < dp_ring (ln_dispatcher la). rg_queue (ln_rings la ! i) = []))"

lemma swept_step:
  assumes "run_step c R D E (Dispatcher_Step e io) s = Some s'" and "swept (rn_lane s e)"
  shows "swept (rn_lane s' e) \<and> dp_done (ln_dispatcher (rn_lane s' e)) = dp_done (ln_dispatcher (rn_lane s e))"
proof -
  define la where "la = rn_lane s e"
  obtain rings shd dp' where d: "dp_step R E io (ln_rings la, rn_shared s, ln_dispatcher la) = (rings, shd, dp')"
    and s': "s' = set_lane e (la\<lparr>ln_rings := rings, ln_dispatcher := dp'\<rparr>) (s\<lparr>rn_shared := shd\<rparr>)"
    using assms(1) by (auto simp: Let_def la_def split: if_splits prod.splits)
  have sw: "swept la" using assms(2) by (simp add: la_def)
  have "swept (la\<lparr>ln_rings := rings, ln_dispatcher := dp'\<rparr>)" using d
  proof (cases rule: dp_step_rings)
    case advance
    have "rg_queue (ln_rings la ! dp_ring (ln_dispatcher la)) = []" if "dp_drained (ln_dispatcher la) = 0"
      using advance(2) that by (auto simp: dp_next_def DRAIN_BUDGET_PER_RING_def ring_try_recv_def split: if_splits prod.splits sum.splits list.splits)
    then show ?thesis using sw by (auto simp: swept_def advance less_Suc_eq)
  qed (use sw in \<open>auto simp: swept_def bump_received_def nth_list_update\<close>)
  then show ?thesis using dp_step_frame [OF d] by (simp add: s' la_def)
qed

lemma swept_start: "run_step c R D E (Dispatcher_Pass_End e now) s = Some s' \<Longrightarrow>
    swept (rn_lane s' e) \<or> dp_done (ln_dispatcher (rn_lane s' e))"
  by (auto simp: Let_def swept_def dp_pass_end_def split: if_splits)

section \<open>Nothing is left behind\<close>

text \<open>Every event decoded for ring \<open>i\<close> was taken or counted as dropped.\<close>

definition settled :: "'m decode_env \<Rightarrow> (endpoint_role \<Rightarrow> subscription_role list) \<Rightarrow> 'm run_label list \<Rightarrow> endpoint_role \<Rightarrow> nat \<Rightarrow> 'd lane \<Rightarrow> bool" where
  "settled D roles ls e i la \<longleftrightarrow>
     rg_queue (ln_rings la ! i) = []
   \<and> rs_received (rg_stats (ln_rings la ! i)) + rs_dropped (rg_stats (ln_rings la ! i)) = of_nat (length (delivered_to D roles e i ls))"

lemma settled_end:
  assumes step: "run_step c R D E (Dispatcher_Pass_End e now) s = Some s'" and inv: "run_inv c R D E specs names raw ks gs s"
    and sw: "swept (rn_lane s e)" and fin: "dp_done (ln_dispatcher (rn_lane s' e))" "\<not> dp_got_any (ln_dispatcher (rn_lane s' e))"
    and i: "i < length (lane_roles specs e)"
  shows "settled D (lane_roles specs) (ks @ [Dispatcher_Pass_End e now]) e i (rn_lane s' e)"
proof -
  let ?la = "rn_lane s e"
  have nd: "\<not> dp_done (ln_dispatcher ?la)" and pos: "length (ln_rings ?la) \<le> dp_ring (ln_dispatcher ?la)"
    and rings: "ln_rings (rn_lane s' e) = map ring_close (ln_rings ?la)"
    and dp': "ln_dispatcher (rn_lane s' e) = dp_pass_end (rn_shutdown s) now (ln_dispatcher ?la)"
    using step fin(1) by (auto simp: Let_def split: if_splits)
  have "\<not> dp_got_any (ln_dispatcher ?la)" using fin nd unfolding dp' by (auto simp: dp_pass_end_def Let_def split: if_splits)
  have lane: "lane_inv D (lane_roles specs) ks gs e ?la" using inv by (simp add: run_inv_def)
  then have n: "i < length (ln_rings ?la)" and alive: "rg_receiver_alive (ln_rings ?la ! i)"
    and acc: "ring_acc (lane_roles specs e ! i) (delivered_to D (lane_roles specs) e i ks) (taken_from e i gs) (uncounted (ln_dispatcher ?la) i) (ln_rings ?la ! i)"
    using i nd by (simp_all add: lane_inv_def)
  have "uncounted (ln_dispatcher ?la) i = 0" using step by (auto simp: uncounted_def Let_def split: if_splits)
  have "rg_queue (ln_rings ?la ! i) = []" using sw \<open>\<not> dp_got_any (ln_dispatcher ?la)\<close> pos n by (simp add: swept_def)
  then have "rs_received (rg_stats (ln_rings ?la ! i)) + rs_dropped (rg_stats (ln_rings ?la ! i))
      = of_nat (length (delivered_to D (lane_roles specs) e i ks))"
    using acc alive \<open>uncounted (ln_dispatcher ?la) i = 0\<close> by (simp add: ring_acc_def add.commute)
  then show ?thesis
    using n by (simp add: settled_def rings ring_close_def delivered_to_snoc delivered_by_def)
qed

text \<open>A lane whose threads have all ended does not change any more.\<close>

lemma settled_after:
  assumes "run_exec c R D E ls (gs, s) = Some (hs, s')" and "receivers_finished (rn_lane s e)" and "dp_done (ln_dispatcher (rn_lane s e))"
    and "settled D roles ks e i (rn_lane s e)"
  shows "settled D roles (ks @ ls) e i (rn_lane s' e)"
  using assms
proof (induction ls arbitrary: ks gs s)
  case (Cons l ls)
  obtain s1 where s1: "run_step c R D E l s = Some s1" using Cons.prems(1) by (cases "run_step c R D E l s") auto
  have ex: "run_exec c R D E ls (gs @ effects_by l s, s1) = Some (hs, s')" using Cons.prems(1) s1 by simp
  note fs = finished_step [OF s1 Cons.prems(2)]
  have "l \<noteq> Dispatcher_Step e io" "l \<noteq> Dispatcher_Pass_End e now" for io now using s1 Cons.prems(3) by auto
  then have same: "rn_lane s1 e = rn_lane s e" using fs by blast
  have "settled D roles (ks @ [l]) e i (rn_lane s1 e)"
    using Cons.prems(4) fs by (simp add: same settled_def delivered_to_snoc)
  then show ?case using Cons.IH [OF ex, of "ks @ [l]"] fs Cons.prems(3) by (simp add: same)
qed simp

lemma settled_from_swept:
  assumes "run_start c R specs names raw = Some s0" and "run_trace c R D E s0 ks gs s"
    and "run_exec c R D E ls (gs, s) = Some (hs, s')" and "receivers_finished (rn_lane s e)"
    and "swept (rn_lane s e)" and "\<not> dp_done (ln_dispatcher (rn_lane s e))"
    and "dp_done (ln_dispatcher (rn_lane s' e))" and "\<not> dp_got_any (ln_dispatcher (rn_lane s' e))" and "i < length (lane_roles specs e)"
  shows "settled D (lane_roles specs) (ks @ ls) e i (rn_lane s' e)"
  using assms(2-6)
proof (induction ls arbitrary: ks gs s)
  case Nil
  then show ?case using assms(7) by simp
next
  case (Cons l ls)
  obtain s1 where s1: "run_step c R D E l s = Some s1" using Cons.prems(2) by (cases "run_step c R D E l s") auto
  have ex: "run_exec c R D E ls (gs @ effects_by l s, s1) = Some (hs, s')" using Cons.prems(2) s1 by simp
  note tr = run_trace_step [OF Cons.prems(1) s1] and fs = finished_step [OF s1 Cons.prems(3)]
  consider (own) io where "l = Dispatcher_Step e io" | (pass_end) now where "l = Dispatcher_Pass_End e now"
    | (other) "rn_lane s1 e = rn_lane s e" using fs by blast
  then show ?case
  proof cases
    case own
    have "swept (rn_lane s1 e)" "\<not> dp_done (ln_dispatcher (rn_lane s1 e))"
      using swept_step [OF s1 [unfolded own] Cons.prems(4)] Cons.prems(5) by simp_all
    then show ?thesis using Cons.IH [OF tr ex] fs by simp
  next
    case other
    then show ?thesis using Cons.IH [OF tr ex] fs Cons.prems(4,5) by simp
  next
    case pass_end
    show ?thesis
    proof (cases "dp_done (ln_dispatcher (rn_lane s1 e))")
      case False
      then show ?thesis using Cons.IH [OF tr ex] fs swept_start [OF s1 [unfolded pass_end]] by simp
    next
      case True
      have inv: "run_inv c R D E specs names raw ks gs s" by (rule run_inv_trace [OF Cons.prems(1) assms(1)])
      have g: "\<not> dp_got_any (ln_dispatcher (rn_lane s1 e))" using exec_done_frozen [OF ex True] assms(8) by simp
      have "settled D (lane_roles specs) (ks @ [l]) e i (rn_lane s1 e)"
        using settled_end [OF s1 [unfolded pass_end] inv Cons.prems(4) True g assms(9)] unfolding pass_end .
      then show ?thesis using settled_after [OF ex _ True, where ks = "ks @ [l]"] fs by simp
    qed
  qed
qed

text \<open>From anywhere: the first end of a pass starts one that sees every ring.\<close>

lemma settled_after_two_passes:
  assumes "run_start c R specs names raw = Some s0" and "run_trace c R D E s0 ks gs s"
    and "run_exec c R D E ls (gs, s) = Some (hs, s')" and "receivers_finished (rn_lane s e)"
    and "2 \<le> length (pass_ends e ls)"
    and "dp_done (ln_dispatcher (rn_lane s' e))" and "\<not> dp_got_any (ln_dispatcher (rn_lane s' e))" and "i < length (lane_roles specs e)"
  shows "settled D (lane_roles specs) (ks @ ls) e i (rn_lane s' e)"
  using assms(2-5)
proof (induction ls arbitrary: ks gs s)
  case Nil
  then show ?case by (simp add: pass_ends_simps)
next
  case (Cons l ls)
  obtain s1 where s1: "run_step c R D E l s = Some s1" using Cons.prems(2) by (cases "run_step c R D E l s") auto
  have ex: "run_exec c R D E ls (gs @ effects_by l s, s1) = Some (hs, s')" using Cons.prems(2) s1 by simp
  note tr = run_trace_step [OF Cons.prems(1) s1]
  have fin: "receivers_finished (rn_lane s1 e)" using finished_step [OF s1 Cons.prems(3)] by simp
  show ?case
  proof (cases "pass_end_of e l = []")
    case True
    then show ?thesis using Cons.IH [OF tr ex fin] Cons.prems(4) by (simp add: pass_ends_simps)
  next
    case False
    then obtain now where l: "l = Dispatcher_Pass_End e now" using pass_end_ofD by blast
    have "pass_ends e ls \<noteq> []" using Cons.prems(4) by (auto simp: pass_ends_simps l)
    then have nd: "\<not> dp_done (ln_dispatcher (rn_lane s1 e))" using exec_done [OF ex] by blast
    then have "swept (rn_lane s1 e)" using swept_start [OF s1 [unfolded l]] by blast
    from settled_from_swept [OF assms(1) tr ex fin this nd assms(6-8)] show ?thesis by simp
  qed
qed


text \<open>Two events for a ring of one: one is dropped, one is taken after the receiver has stopped, none is lost.\<close>

definition before_end :: "unit run_label list" where
  "before_end = map (Receiver_Step One 0) [Thread_Started None None True, Check_Shutdown False, Connect_Ok, Open_Ok, Check_Shutdown False]
     @ [slot_answer 5, Receiver_Step One 0 (Check_Shutdown False), slot_answer 6, Interrupt, Receiver_Step One 0 (Check_Shutdown True)]"

definition graceful_end :: "unit run_label list" where
  "graceful_end = replicate 6 (Dispatcher_Step One None) @ [Dispatcher_Pass_End One 7,
     Dispatcher_Step One None, Dispatcher_Pass_End One 8]"


end
