(* ===== verification/Program.thy ===== *)
theory Program
  imports Run_End Graceful Proto_Correct
begin

text \<open>
  The whole program, from the command line to the exit code (\<open>main\<close> in \<open>src/bin/grpc-bench.rs\<close>, \<open>execute\<close> in
  \<open>src/run.rs\<close>), as the composition of the components, with the scheduler calls and the socket option
  (\<open>src/collect/mod.rs\<close>, \<open>src/timing/kernel_ts.rs\<close>) up to the system call. What the program meets outside is one
  record, \<open>world\<close>, whose schedule says how the threads interleave and what the servers answer.
\<close>

section \<open>System calls\<close>

text \<open>Each with the error of the calls it makes, if they fail. A 32-bit core number always fits \<open>usize\<close>.\<close>

definition apply_cpu_affinity :: "bool \<Rightarrow> u32 \<Rightarrow> string option \<Rightarrow> string option \<Rightarrow> sched_outcome" where
  "apply_cpu_affinity linux core set_error call_error =
     (if \<not> linux then Sched_Unsupported
      else case set_error of
        Some e \<Rightarrow> Sched_Failed (''CpuSet::set('' @ show_u32 core @ '') failed: '' @ e)
      | None \<Rightarrow> (case call_error of
          None \<Rightarrow> Sched_Applied
        | Some e \<Rightarrow> Sched_Failed (''sched_setaffinity('' @ show_u32 core @ '') failed: '' @ e)))"

definition apply_realtime :: "bool \<Rightarrow> string option \<Rightarrow> sched_outcome" where
  "apply_realtime linux call_error =
     (if \<not> linux then Sched_Unsupported
      else case call_error of
        None \<Rightarrow> Sched_Applied
      | Some e \<Rightarrow> Sched_Failed (''sched_setscheduler(SCHED_FIFO, 50) failed: '' @ e))"

datatype kernel_timestamp_error = Timestamps_Unsupported | SetSockOpt string

definition enable_so_timestampns :: "bool \<Rightarrow> string option \<Rightarrow> kernel_timestamp_error + unit" where
  "enable_so_timestampns linux call_error =
     (if \<not> linux then Inl Timestamps_Unsupported
      else case call_error of None \<Rightarrow> Inr () | Some e \<Rightarrow> Inl (SetSockOpt e))"

text \<open>The buffers that warm the allocator.\<close>

definition warm_allocator_sizes :: "nat list" where
  "warm_allocator_sizes = concat (replicate 2 (map (\<lambda>size_log. 2 ^ size_log) [14..<20]))"

lemma warm_allocator_total: "length warm_allocator_sizes = 12" "sum_list warm_allocator_sizes = 2064384"
proof -
  have "replicate 2 xs = [xs, xs]" for xs :: "nat list" by (simp add: numeral_2_eq_2)
  then show "length warm_allocator_sizes = 12" "sum_list warm_allocator_sizes = 2064384"
    by (simp_all add: warm_allocator_sizes_def upt_conv_Cons)
qed

section \<open>The end of execute\<close>

definition stuck_receivers :: "'d run_state \<Rightarrow> nat" where
  "stuck_receivers s = length (filter (\<lambda>rx. rx_phase rx \<noteq> Rx_Done) (ln_receivers (rn_lane s One) @ ln_receivers (rn_lane s Two)))"

definition dispatcher_stuck :: "'d run_state \<Rightarrow> bool" where
  "dispatcher_stuck s \<longleftrightarrow>
     reclaim_dispatcher (ln_dispatcher (rn_lane s One)) = None \<or> reclaim_dispatcher (ln_dispatcher (rn_lane s Two)) = None"

text \<open>The event log is flushed, and its latched error taken for a log line.\<close>

definition close_raw :: "string option \<Rightarrow> raw_writer option \<Rightarrow> string option \<times> raw_writer option" where
  "close_raw io raw =
     (case raw of
        None \<Rightarrow> (None, None)
      | Some w \<Rightarrow> (let (warning, w') = rw_take_warning (rw_flush io w) in (warning, Some w')))"

definition open_raw :: "string option \<Rightarrow> config \<Rightarrow> string + raw_writer option" where
  "open_raw io c =
     (case cf_raw_records c of
        None \<Rightarrow> Inr None
      | Some path \<Rightarrow> (case rw_create io path of Inl e \<Rightarrow> Inl e | Inr w \<Rightarrow> Inr (Some w)))"

record ('d, 'm, 'f) world =
  wd_nproc :: "nat option"
  wd_read_file :: "string \<Rightarrow> string + 'f"
  wd_toml :: "'f \<Rightarrow> string + toml_overlay"
  wd_programs_env :: programs_env
  wd_open_programs :: "string \<Rightarrow> string + (string + string) list"
  wd_transport :: transport
  wd_proto :: proto_env
  wd_answers :: "endpoint_role \<Rightarrow> string rpc_outcome"
  wd_raw_open :: "string option"
  wd_runtime :: "'d runtime"
  wd_decode :: "'m decode_env"
  wd_raw :: raw_env
  wd_schedule :: "'m run_label list"
  wd_dispatcher_wait :: "nat \<times> 'm poll_log"
  wd_receiver_wait :: "nat \<times> 'm poll_log"
  wd_late :: "'m run_label list"
  wd_raw_flush :: "string option"
  wd_host :: host
  wd_sched :: sched_outcome
  wd_pings :: "endpoint_role \<Rightarrow> ping_input list"
  wd_start_wall :: u64
  wd_elapsed :: nat
  wd_output :: output_env
  wd_to_json :: "run_output \<Rightarrow> string + string"
  wd_write :: "string option"

datatype execute_error =
    Startup_Failed startup_error
  | Open_Raw_Failed string
  | Serialize_Failed string
  | Write_Failed string string

record executed =
  ex_path :: string
  ex_json :: string
  ex_forced_exit :: bool
  ex_raw_warning :: "string option"

text \<open>After the coordinator's loop: the dispatchers are waited for and reclaimed, then the receivers, whose stragglers are
  counted; what the others do from then on until the output is made is the late part. The states are those of the
  three moments.\<close>

definition wind_down ::
  "('d, 'm, 'f) world \<Rightarrow> config \<Rightarrow> history \<times> 'd run_state \<Rightarrow> ('d run_state \<times> 'd run_state \<times> 'd run_state) option" where
  "wind_down W c x =
     (let exec = run_exec c (wd_runtime W) (wd_decode W) (wd_raw W);
          join = join_wait c (wd_runtime W) (wd_decode W) (wd_raw W);
          (t1, dispatcher_polls) = wd_dispatcher_wait W; (t2, receiver_polls) = wd_receiver_wait W
      in Option.bind (join dispatchers_finished (t1 + DISPATCHER_JOIN_TIMEOUT) dispatcher_polls x) (\<lambda>x1.
         Option.bind (join all_receivers_finished (t2 + RECEIVER_JOIN_TIMEOUT) receiver_polls x1) (\<lambda>x2.
         map_option (\<lambda>x3. (snd x1, snd x2, snd x3)) (exec (wd_late W) x2))))"

definition report :: "('d, 'm, 'f) world \<Rightarrow> config \<Rightarrow> startup_state \<Rightarrow> ping_tracker \<times> ping_tracker \<Rightarrow> 'd run_state \<Rightarrow> 'd run_state \<Rightarrow> run_output" where
  "report W c su pings s1 s3 =
     assemble_output (wd_runtime W) (wd_output W) c
       (run_finish (wd_runtime W) (wd_host W) (wd_sched W) c su pings (wd_start_wall W) (wd_elapsed W) s1 s3)"

text \<open>Threads that have not finished in time do not keep the output from being written; the exit is then forced.\<close>

definition execute_end ::
  "('d, 'm, 'f) world \<Rightarrow> config \<Rightarrow> startup_state \<Rightarrow> ping_tracker \<times> ping_tracker
     \<Rightarrow> 'd run_state \<times> 'd run_state \<times> 'd run_state \<Rightarrow> execute_error + executed" where
  "execute_end W c su pings states =
     (let (s1, s2, s3) = states; (warning, _) = close_raw (wd_raw_flush W) (shd_raw_writer (rn_shared s2))
      in case wd_to_json W (report W c su pings s1 s3) of
        Inl e \<Rightarrow> Inl (Serialize_Failed e)
      | Inr json \<Rightarrow> (case wd_write W of
          Some e \<Rightarrow> Inl (Write_Failed (cf_output c) e)
        | None \<Rightarrow> Inr \<lparr>ex_path = cf_output c, ex_json = json, ex_forced_exit = 0 < stuck_receivers s2 \<or> dispatcher_stuck s1,
            ex_raw_warning = warning\<rparr>))"

definition names_of :: "('d, 'm, 'f) world \<Rightarrow> startup_state \<Rightarrow> (pubkey32, string) hmap" where
  "names_of W su = program_names (pg_bs58_decode (wd_programs_env W)) (su_programs su)"

text \<open>\<open>None\<close> is a panic, or a schedule that is none of this run or leaves the coordinator in its loop.\<close>

definition execute :: "('d, 'm, 'f) world \<Rightarrow> config \<Rightarrow> (execute_error + executed) option" where
  "execute W c =
     (case startup (wd_transport W) (wd_proto W) (wd_answers W)
             (programs_load (wd_programs_env W) (cf_programs_path c) (wd_open_programs W (cf_programs_path c))) c of
        None \<Rightarrow> None
      | Some (Inl e) \<Rightarrow> Some (Inl (Startup_Failed e))
      | Some (Inr su) \<Rightarrow>
          (case open_raw (wd_raw_open W) c of
             Inl e \<Rightarrow> Some (Inl (Open_Raw_Failed e))
           | Inr raw \<Rightarrow>
               (case run_start c (wd_runtime W) (su_plan su) (names_of W su) raw of
                  None \<Rightarrow> None
                | Some s0 \<Rightarrow>
                    (case run_exec c (wd_runtime W) (wd_decode W) (wd_raw W) (wd_schedule W) ([], s0) of
                       None \<Rightarrow> None
                     | Some x \<Rightarrow>
                         if rn_shutdown (snd x)
                         then Option.bind (ping_trackers c (wd_pings W)) (\<lambda>pings.
                              map_option (execute_end W c su pings) (wind_down W c x))
                         else None))))"

definition configured :: "('d, 'm, 'f) world \<Rightarrow> cli \<Rightarrow> config_error + config" where
  "configured W cli = from_cli (wd_nproc W) (wd_read_file W) (wd_toml W) cli"

text \<open>The exit code, and the file that is left behind.\<close>

definition program :: "('d, 'm, 'f) world \<Rightarrow> cli \<Rightarrow> (nat \<times> (string \<times> string) option) option" where
  "program W cli =
     (case configured W cli of
        Inl e \<Rightarrow> Some (2, None)
      | Inr c \<Rightarrow>
          map_option (\<lambda>r. case r of Inl e \<Rightarrow> (1, None) | Inr x \<Rightarrow> (0, Some (ex_path x, ex_json x))) (execute W c))"

section \<open>What an exit code means\<close>

lemma check_version_accepts: "check_version E raw = Some (Inr ev) \<Longrightarrow> \<not> is_refusal (ev_compatibility ev)"
proof -
  assume a: "check_version E raw = Some (Inr ev)"
  then obtain v where "evaluate E raw = Some v" by (auto simp: check_version_def)
  then show "\<not> is_refusal (ev_compatibility ev)" using a by (cases "ev_compatibility v") (auto simp: check_version_def)
qed

lemma fetch_accepts:
  assumes "fetch_and_evaluate_version E answer url = Some (Inr v)"
  shows "\<not> is_refusal (ev_compatibility v)"
proof (cases answer)
  case (Rpc_Ok x)
  then obtain r where r: "check_version E x = Some r" using assms by (auto simp: fetch_and_evaluate_version_def)
  then show ?thesis using assms check_version_accepts [of E x v] Rpc_Ok
    by (cases r) (simp_all add: fetch_and_evaluate_version_def)
qed (use assms in \<open>simp_all add: fetch_and_evaluate_version_def\<close>)

lemma connect_and_eval_accepts:
  assumes "connect_and_eval T E answers c role = Some (Inr v)"
  shows "\<not> is_refusal (ev_compatibility v)"
proof -
  obtain ep where ep: "(case role of One \<Rightarrow> Some (cf_endpoint1 c) | Two \<Rightarrow> cf_endpoint2 c) = Some ep"
    using assms by (cases "case role of One \<Rightarrow> Some (cf_endpoint1 c) | Two \<Rightarrow> cf_endpoint2 c") (simp_all add: connect_and_eval_def)
  obtain cl where cl: "connect_with_decode_limit T ep (1048576 * cf_max_decode_mb c) = Inr cl"
    using assms by (cases "connect_with_decode_limit T ep (1048576 * cf_max_decode_mb c)") (simp_all add: connect_and_eval_def ep)
  obtain r where r: "fetch_and_evaluate_version E (answers role) (es_url ep) = Some r"
    using assms by (auto simp: connect_and_eval_def ep cl)
  then show ?thesis using assms fetch_accepts [of E "answers role" "es_url ep" v]
    by (cases r) (simp_all add: connect_and_eval_def ep cl)
qed

text \<open>A start-up that succeeds has loaded the programs, and no server was refused.\<close>

lemma startup_accepts:
  assumes "startup T E answers loaded c = Some (Inr su)"
  shows "loaded = Inr (su_programs su) \<and> su_plan su = plan_from_run_config c (program_ids (su_programs su)) \<and> su_plan su \<noteq> []
    \<and> \<not> is_refusal (ev_compatibility (su_ep1_version su))
    \<and> (case su_ep2_version su of None \<Rightarrow> cf_solo c | Some v \<Rightarrow> \<not> is_refusal (ev_compatibility v))"
proof -
  obtain ps where ps: "loaded = Inr ps" using assms by (cases loaded) (simp_all add: startup_def)
  obtain r1 where r1: "connect_and_eval T E answers c One = Some r1"
    using assms by (auto simp: startup_def ps bind_eq_Some_conv)
  then obtain v1 where v1: "connect_and_eval T E answers c One = Some (Inr v1)"
    using assms by (cases r1) (simp_all add: startup_def ps)
  show ?thesis
  proof (cases "cf_solo c")
    case True
    then have "startup_plan E c ps v1 None = Inr su" using assms by (simp add: startup_def ps v1)
    then show ?thesis using True connect_and_eval_accepts [OF v1]
      by (auto simp: startup_plan_def ps Let_def split: if_splits)
  next
    case False
    then obtain r2 where r2: "connect_and_eval T E answers c Two = Some r2"
      using assms by (auto simp: startup_def ps v1 bind_eq_Some_conv)
    then obtain v2 where v2: "connect_and_eval T E answers c Two = Some (Inr v2)" and "startup_plan E c ps v1 (Some v2) = Inr su"
      using assms False by (cases r2) (simp_all add: startup_def ps v1)
    then show ?thesis using connect_and_eval_accepts [OF v1] connect_and_eval_accepts [OF v2]
      by (auto simp: startup_plan_def ps Let_def split: if_splits)
  qed
qed

text \<open>The moments of the end are states of the run.\<close>

lemma wind_down_trace:
  assumes "wind_down W c (hs, s) = Some (s1, s2, s3)"
    and "run_trace c (wd_runtime W) (wd_decode W) (wd_raw W) s0 ls hs s"
  shows "\<exists>ls1 hs1 ls3 hs3. run_trace c (wd_runtime W) (wd_decode W) (wd_raw W) s0 (ls @ ls1) hs1 s1
    \<and> run_exec c (wd_runtime W) (wd_decode W) (wd_raw W) ls3 (hs1, s1) = Some (hs3, s3)"
proof -
  let ?exec = "run_exec c (wd_runtime W) (wd_decode W) (wd_raw W)" and ?join = "join_wait c (wd_runtime W) (wd_decode W) (wd_raw W)"
  obtain t1 p1 t2 p2 where w: "wd_dispatcher_wait W = (t1, p1)" "wd_receiver_wait W = (t2, p2)"
    by (cases "wd_dispatcher_wait W"; cases "wd_receiver_wait W") auto
  obtain h1 h2 h3 where j: "?join dispatchers_finished (t1 + DISPATCHER_JOIN_TIMEOUT) p1 (hs, s) = Some (h1, s1)"
    "?join all_receivers_finished (t2 + RECEIVER_JOIN_TIMEOUT) p2 (h1, s1) = Some (h2, s2)"
    "?exec (wd_late W) (h2, s2) = Some (h3, s3)"
    using assms(1) by (auto simp: wind_down_def Let_def w bind_eq_Some_conv)
  have "?exec (poll_labels p1) (hs, s) = Some (h1, s1)" using join_wait_exec [OF j(1)] by blast
  then have "run_trace c (wd_runtime W) (wd_decode W) (wd_raw W) s0 (ls @ poll_labels p1) h1 s1"
    by (rule run_exec_trace [OF assms(2)])
  moreover have "?exec (poll_labels p2) (h1, s1) = Some (h2, s2)" using join_wait_exec [OF j(2)] by blast
  then have "?exec (poll_labels p2 @ wd_late W) (h1, s1) = Some (h3, s3)" by (simp add: run_exec_append j(3))
  ultimately show ?thesis by blast
qed

lemma exec_shutdown: "run_exec c R D E ls (hs, s) = Some (hs', s') \<Longrightarrow> rn_shutdown s \<Longrightarrow> rn_shutdown s'"
proof (induction ls arbitrary: hs s)
  case (Cons l ls)
  obtain s1 where s1: "run_step c R D E l s = Some s1" using Cons.prems(1) by (cases "run_step c R D E l s") auto
  then have "run_exec c R D E ls (hs @ effects_by l s, s1) = Some (hs', s')" using Cons.prems(1) by simp
  then show ?case using Cons.IH step_shutdown [OF s1 Cons.prems(2)] by blast
qed simp

lemma wind_down_shutdown:
  assumes "wind_down W c (hs, s) = Some (s1, s2, s3)" and "rn_shutdown s"
  shows "rn_shutdown s1"
proof -
  obtain t1 p1 t2 p2 where w: "wd_dispatcher_wait W = (t1, p1)" "wd_receiver_wait W = (t2, p2)"
    by (cases "wd_dispatcher_wait W"; cases "wd_receiver_wait W") auto
  obtain h1 where "join_wait c (wd_runtime W) (wd_decode W) (wd_raw W) dispatchers_finished (t1 + DISPATCHER_JOIN_TIMEOUT) p1 (hs, s) = Some (h1, s1)"
    using assms(1) by (auto simp: wind_down_def Let_def w bind_eq_Some_conv)
  from join_wait_exec [OF this] exec_shutdown [OF _ assms(2)] show ?thesis by blast
qed

text \<open>How a report came about.\<close>

definition reported_run ::
  "('d, 'm, 'f) world \<Rightarrow> config \<Rightarrow> startup_state \<Rightarrow> string \<Rightarrow> bool" where
  "reported_run W c su json \<longleftrightarrow>
     (\<exists>raw s0 ls hs s1 ls' hs' s3 pings.
        run_start c (wd_runtime W) (su_plan su) (names_of W su) raw = Some s0
      \<and> run_trace c (wd_runtime W) (wd_decode W) (wd_raw W) s0 (wd_schedule W @ ls) hs s1 \<and> rn_shutdown s1
      \<and> run_exec c (wd_runtime W) (wd_decode W) (wd_raw W) ls' (hs, s1) = Some (hs', s3)
      \<and> ping_trackers c (wd_pings W) = Some pings
      \<and> wd_to_json W (report W c su pings s1 s3) = Inr json)"

lemma execute_written:
  assumes "execute W c = Some (Inr x)"
  shows "\<exists>su. startup (wd_transport W) (wd_proto W) (wd_answers W)
        (programs_load (wd_programs_env W) (cf_programs_path c) (wd_open_programs W (cf_programs_path c))) c = Some (Inr su)
    \<and> reported_run W c su (ex_json x) \<and> ex_path x = cf_output c"
proof -
  obtain su where su: "startup (wd_transport W) (wd_proto W) (wd_answers W)
      (programs_load (wd_programs_env W) (cf_programs_path c) (wd_open_programs W (cf_programs_path c))) c = Some (Inr su)"
    using assms by (auto simp: execute_def split: option.splits sum.splits)
  obtain raw s0 hs s pings s1 s2 s3 where r: "run_start c (wd_runtime W) (su_plan su) (names_of W su) raw = Some s0"
    "run_exec c (wd_runtime W) (wd_decode W) (wd_raw W) (wd_schedule W) ([], s0) = Some (hs, s)" "rn_shutdown s"
    "ping_trackers c (wd_pings W) = Some pings" "wind_down W c (hs, s) = Some (s1, s2, s3)"
    "execute_end W c su pings (s1, s2, s3) = Inr x"
    using assms by (auto simp: execute_def su bind_eq_Some_conv split: option.splits sum.splits if_splits)
  have tr: "run_trace c (wd_runtime W) (wd_decode W) (wd_raw W) s0 (wd_schedule W) hs s"
    using run_exec_trace [OF run_trace_start r(2)] by simp
  obtain ls1 hs1 ls3 hs3 where e: "run_trace c (wd_runtime W) (wd_decode W) (wd_raw W) s0 (wd_schedule W @ ls1) hs1 s1"
    "run_exec c (wd_runtime W) (wd_decode W) (wd_raw W) ls3 (hs1, s1) = Some (hs3, s3)"
    using wind_down_trace [OF r(5) tr] by blast
  have "rn_shutdown s1" using wind_down_shutdown [OF r(5,3)] .
  moreover have "wd_to_json W (report W c su pings s1 s3) = Inr (ex_json x) \<and> ex_path x = cf_output c"
    using r(6) by (auto simp: execute_end_def Let_def split: prod.splits sum.splits option.splits)
  ultimately have "reported_run W c su (ex_json x)" "ex_path x = cf_output c"
    unfolding reported_run_def using r(1,4) e by blast+
  then show ?thesis using su by blast
qed


text \<open>A solo run on one slots subscription, ended by an interrupt; the report is written.\<close>

definition solo_cli :: cli where
  "solo_cli = sample_cli\<lparr>cli_endpoint2 := None, cli_x_token2 := None, cli_solo := True, cli_entries_endpoint1 := None,
     cli_entries_x_token1 := None, cli_commitment := [Com_Processed], cli_realtime := False, cli_ring_capacity := 1\<rparr>"

definition solo_world :: "(rat list, unit, unit) world" where
  "solo_world =
     \<lparr>wd_nproc = None, wd_read_file = (\<lambda>_. Inl ''no file''), wd_toml = (\<lambda>_. Inl ''no parse''),
      wd_programs_env = sample_programs_env,
      wd_open_programs = (\<lambda>_. Inr [Inr (''orca'' @ CHR 0x09 # ''whirL'')]),
      wd_transport = \<lparr>tr_parse_token = (\<lambda>_. None), tr_parse_url = (\<lambda>_. None), tr_tls_config = (\<lambda>_. None), tr_connect = (\<lambda>_. None)\<rparr>,
      wd_proto = sample_proto_env\<lparr>pe_json_flat := (\<lambda>_. Some \<lparr>vb_package = Some ''yellowstone-grpc-geyser'',
         vb_version = Some ''12.2.0'', vb_proto = Some ''13.0.0'', vb_solana = None\<rparr>)\<rparr>,
      wd_answers = (\<lambda>_. Rpc_Ok ''{}''), wd_raw_open = None, wd_runtime = list_runtime, wd_decode = slots_env, wd_raw = toy_raw_env,
      wd_schedule = ended_schedule, wd_dispatcher_wait = (0, [(0, [])]), wd_receiver_wait = (0, [(0, [Receiver_Step One 0 (Check_Shutdown True)]), (50, [])]), wd_late = [],
      wd_raw_flush = None,
      wd_host = \<lparr>ho_linux = False, ho_os = ''os'', ho_jemalloc_target = False, ho_uname = None, ho_cpuinfo = File_NotFound [],
         ho_sysinfo_brand = None, ho_sysctl_brand = None, ho_governor = File_NotFound [], ho_thp = File_NotFound [],
         ho_timedatectl = None, ho_chronyc = None\<rparr>,
      wd_sched = Sched_Unsupported, wd_pings = (\<lambda>_. []), wd_start_wall = 0, wd_elapsed = 0,
      wd_output = \<lparr>oe_pkg_version = ''1'', oe_rfc3339 = (\<lambda>_. None)\<rparr>, wd_to_json = (\<lambda>_. Inr ''{}''), wd_write = None\<rparr>"

lemma solo_program: "program solo_world solo_cli = Some (0, Some (''o.json'', ''{}''))"
proof -
  let ?W = solo_world
  have "case configured ?W solo_cli of Inl _ \<Rightarrow> False
      | Inr c \<Rightarrow> cf_output c = ''o.json'' \<and>
        (case startup (wd_transport ?W) (wd_proto ?W) (wd_answers ?W)
             (programs_load (wd_programs_env ?W) (cf_programs_path c) (wd_open_programs ?W (cf_programs_path c))) c of
           Some (Inr su) \<Rightarrow>
             (case open_raw (wd_raw_open ?W) c of Inl _ \<Rightarrow> False
              | Inr raw \<Rightarrow>
                  (case run_start c (wd_runtime ?W) (su_plan su) (names_of ?W su) raw of None \<Rightarrow> False
                   | Some s0 \<Rightarrow>
                       (case run_exec c (wd_runtime ?W) (wd_decode ?W) (wd_raw ?W) (wd_schedule ?W) ([], s0) of None \<Rightarrow> False
                        | Some x \<Rightarrow> rn_shutdown (snd x) \<and> \<not> Option.is_none (ping_trackers c (wd_pings ?W))
                            \<and> \<not> Option.is_none (wind_down ?W c x))))
         | _ \<Rightarrow> False)"
    by code_simp
  note main = this
  obtain c where c: "configured ?W solo_cli = Inr c" using main by (cases "configured ?W solo_cli") simp_all
  note main = main [unfolded c sum.case]
  obtain su where su: "startup (wd_transport ?W) (wd_proto ?W) (wd_answers ?W)
      (programs_load (wd_programs_env ?W) (cf_programs_path c) (wd_open_programs ?W (cf_programs_path c))) c = Some (Inr su)"
    using main by (simp split: option.splits sum.splits)
  note main = main [unfolded su option.case sum.case]
  obtain raw where raw: "open_raw (wd_raw_open ?W) c = Inr raw" using main by (simp split: sum.splits)
  note main = main [unfolded raw sum.case]
  obtain s0 where s0: "run_start c (wd_runtime ?W) (su_plan su) (names_of ?W su) raw = Some s0" using main by (simp split: option.splits)
  note main = main [unfolded s0 option.case]
  obtain x where x: "run_exec c (wd_runtime ?W) (wd_decode ?W) (wd_raw ?W) (wd_schedule ?W) ([], s0) = Some x"
    using main by (simp split: option.splits)
  note main = main [unfolded x option.case]
  obtain pings s1 s2 s3 where w: "ping_trackers c (wd_pings ?W) = Some pings" "wind_down ?W c x = Some (s1, s2, s3)"
    using main by (cases "ping_trackers c (wd_pings ?W)"; cases "wind_down ?W c x") (simp_all, metis prod.collapse)
  note r = c su raw s0 x w main [THEN conjunct1] main [THEN conjunct2, THEN conjunct1]
  have "wd_to_json ?W = (\<lambda>_. Inr ''{}'')" "wd_write ?W = None" by (simp_all add: solo_world_def)
  then have "execute_end ?W c su pings (s1, s2, s3) = Inr \<lparr>ex_path = ''o.json'', ex_json = ''{}'',
      ex_forced_exit = 0 < stuck_receivers s2 \<or> dispatcher_stuck s1,
      ex_raw_warning = fst (close_raw (wd_raw_flush ?W) (shd_raw_writer (rn_shared s2)))\<rparr>"
    by (simp add: execute_end_def main split: prod.split)
  then show ?thesis by (simp add: program_def execute_def r)
qed


end
