(* ===== verification/Tests_Matching.thy ===== *)
theory Tests_Matching
  imports Stream_Matchers Cross_Stream Stability Ring Timing
begin

text \<open>
  The unit tests of \<open>matching/\<close>, \<open>crossstream.rs\<close>, \<open>stability.rs\<close>, \<open>collect/ring.rs\<close> and \<open>timing/\<close>, replayed on the
  model: each test function is a proposition on the model's operations, and the model passes it. The digest is the
  one of \<open>list_runtime\<close>. Left out is the test of the accuracy of the t-digest.
\<close>

definition near :: "f64 \<Rightarrow> rat \<Rightarrow> rat \<Rightarrow> bool" where
  "near x y eps = (case x of Finite r \<Rightarrow> \<bar>r - y\<bar> < eps | NaN \<Rightarrow> False)"

definition at_ms :: "u64 \<Rightarrow> event_timestamp" where
  "at_ms ms = \<lparr>mono_ns = ms * 1000000, wall_ms = ms\<rparr>"

abbreviation u64_matcher :: "u64 \<Rightarrow> (rat list, u64) pair_matcher" where
  "u64_matcher w \<equiv> pm_new list_runtime (SlotWindow w)"

section \<open>Pair matcher\<close>

definition pair_matcher_emits_match_with_positive_delta_when_ep1_first :: bool where
  "pair_matcher_emits_match_with_positive_delta_when_ep1_first \<longleftrightarrow>
     (let ts1 = \<lparr>mono_ns = 1000000, wall_ms = 1\<rparr>; ts2 = \<lparr>mono_ns = 4000000, wall_ms = 2\<rparr>;
          (r1, m1) = pm_observe list_runtime (u64_matcher 64) One 42 ts1 100;
          (r2, m2) = pm_observe list_runtime m1 Two 42 ts2 100
      in Option.is_none r1 \<and> (case r2 of Some r \<Rightarrow> \<bar>delta_ms r - 3\<bar> < 1 / 1000000000 | None \<Rightarrow> False)
       \<and> matched (counts m2) = 1 \<and> ep1_faster (counts m2) = 1 \<and> ep2_faster (counts m2) = 0)"

definition pair_matcher_emits_match_with_negative_delta_when_ep2_first :: bool where
  "pair_matcher_emits_match_with_negative_delta_when_ep2_first \<longleftrightarrow>
     (let ts2 = \<lparr>mono_ns = 1000000, wall_ms = 1\<rparr>; ts1 = \<lparr>mono_ns = 4000000, wall_ms = 2\<rparr>;
          (r1, m1) = pm_observe list_runtime (u64_matcher 64) Two 42 ts2 100;
          (r2, m2) = pm_observe list_runtime m1 One 42 ts1 100
      in (case r2 of Some r \<Rightarrow> \<bar>delta_ms r - - 3\<bar> < 1 / 1000000000 | None \<Rightarrow> False)
       \<and> matched (counts m2) = 1 \<and> ep1_faster (counts m2) = 0 \<and> ep2_faster (counts m2) = 1)"

definition pair_matcher_evicts_pending_outside_slot_window :: bool where
  "pair_matcher_evicts_pending_outside_slot_window \<longleftrightarrow>
     (let m1 = snd (pm_observe list_runtime (u64_matcher 4) One 10 \<lparr>mono_ns = 1, wall_ms = 1\<rparr> 100);
          m2 = snd (pm_observe list_runtime m1 One 11 \<lparr>mono_ns = 2, wall_ms = 2\<rparr> 200);
          m3 = pm_evict list_runtime m2
      in ep1_unmatched_evicted (counts m3) = 1 \<and> fst (pm_pending_counts m3) = 1)"

definition quantile_returns_nan_on_empty_digest :: bool where
  "quantile_returns_nan_on_empty_digest \<longleftrightarrow> fst (pm_quantile list_runtime (u64_matcher 64) (1 / 2)) = NaN"

definition summary_from_matcher_carries_counts :: bool where
  "summary_from_matcher_carries_counts \<longleftrightarrow>
     (let m1 = snd (pm_observe list_runtime (u64_matcher 64) One 1 \<lparr>mono_ns = 0, wall_ms = 0\<rparr> 10);
          m2 = snd (pm_observe list_runtime m1 Two 1 \<lparr>mono_ns = 5000000, wall_ms = 0\<rparr> 10);
          s = fst (summary_from_matcher list_runtime m2)
      in ls_matched s = 1 \<and> ls_p50 s \<noteq> NaN)"

definition pair_matcher_runs_lazy_eviction_after_threshold :: bool where
  "pair_matcher_runs_lazy_eviction_after_threshold \<longleftrightarrow>
     (let m1 = snd (pm_observe list_runtime (u64_matcher 4) One 0 \<lparr>mono_ns = 0, wall_ms = 0\<rparr> 100);
          m = fold (\<lambda>i m. snd (pm_observe list_runtime m One i \<lparr>mono_ns = i, wall_ms = 0\<rparr> 500))
                (map of_nat [1..<unat EVICT_EVERY]) m1
      in ep1_unmatched_evicted (counts m) \<ge> 1)"

text \<open>After \<open>n\<close> observations the first key still waits and nothing was evicted.\<close>

definition awaiting_eviction :: "nat \<Rightarrow> (rat list, u64) pair_matcher \<Rightarrow> bool" where
  "awaiting_eviction n m \<longleftrightarrow> obs_count m = of_nat n \<and> pm_eviction m = SlotWindow 4 \<and> pending_ep2 m = []
     \<and> ep1_unmatched_evicted (counts m) = 0 \<and> (high_water_slot m = 100 \<or> high_water_slot m = 500)
     \<and> (0, \<lparr>mp_ts = \<lparr>mono_ns = 0, wall_ms = 0\<rparr>, mp_slot = 100\<rparr>) \<in> set (pending_ep1 m)
     \<and> length (pending_ep1 m) \<le> n"

lemma hm_insert_keeps: "k \<noteq> k' \<Longrightarrow> (k', v') \<in> set m \<Longrightarrow> (k', v') \<in> set (hm_insert k v m)"
  by (induction m) (auto simp: hm_insert_def)

lemma awaiting_first:
  "awaiting_eviction 1 (snd (pm_observe list_runtime (u64_matcher 4) One 0 \<lparr>mono_ns = 0, wall_ms = 0\<rparr> 100))"
  by (simp add: awaiting_eviction_def pm_observe_def pm_prologue_def EVICT_EVERY_def hm_insert_def)

lemma awaiting_next:
  assumes "awaiting_eviction n m" "n < 255" "i \<noteq> 0"
  shows "awaiting_eviction (Suc n) (snd (pm_observe list_runtime m One i t 500))"
proof -
  have "of_nat (Suc n) mod (256 :: u64) \<noteq> 0"
    using assms(2) by (simp add: word_unat_eq_iff unat_mod unat_of_nat take_bit_nat_eq_self del: of_nat_Suc)
  then show ?thesis
    using assms by (auto simp: awaiting_eviction_def pm_observe_def pm_prologue_def EVICT_EVERY_def
      length_hm_insert hm_insert_keeps add.commute split: if_splits)
qed

lemma awaiting_run:
  assumes "n \<le> 254"
  shows "awaiting_eviction (Suc n)
    (fold (\<lambda>i m. snd (pm_observe list_runtime m One i \<lparr>mono_ns = i, wall_ms = 0\<rparr> 500)) (map of_nat [1..<Suc n])
       (snd (pm_observe list_runtime (u64_matcher 4) One 0 \<lparr>mono_ns = 0, wall_ms = 0\<rparr> 100)))"
  using assms
proof (induction n)
  case 0
  then show ?case using awaiting_first by simp
next
  case (Suc n)
  have "(of_nat (Suc n) :: u64) \<noteq> 0"
    using Suc.prems by (simp add: word_unat_eq_iff unat_of_nat take_bit_nat_eq_self del: of_nat_Suc)
  then show ?case using Suc awaiting_next [of "Suc n"] by (simp del: of_nat_Suc)
qed

lemma evicts_at_threshold:
  assumes "awaiting_eviction 255 m" "i \<noteq> 0"
  shows "ep1_unmatched_evicted (counts (snd (pm_observe list_runtime m One i t 500))) \<ge> 1"
proof -
  let ?kept = "hm_retain (\<lambda>_ v. 496 \<le> mp_slot v) (pending_ep1 m)"
  have "length ?kept < length (pending_ep1 m)"
    using assms(1) unfolding hm_retain_def awaiting_eviction_def
    by (intro length_filter_less [of "(0, \<lparr>mp_ts = \<lparr>mono_ns = 0, wall_ms = 0\<rparr>, mp_slot = 100\<rparr>)"]) simp_all
  moreover have "length (pending_ep1 m) \<le> 255" using assms(1) by (simp add: awaiting_eviction_def)
  ultimately have "1 \<le> length (pending_ep1 m) - length ?kept" "length (pending_ep1 m) - length ?kept \<le> 255"
    by linarith+
  then have "1 \<le> u64_from_or 0 (length (pending_ep1 m) - length ?kept)"
    by (simp add: u64_from_or_small word_le_nat_alt unat_of_nat take_bit_nat_eq_self del: of_nat_diff)
  moreover have "hm_retain P [] = []" for P :: "u64 \<Rightarrow> match_pending \<Rightarrow> bool" by (simp add: hm_retain_def)
  ultimately show ?thesis
    using assms by (auto simp: awaiting_eviction_def pm_observe_def pm_prologue_def EVICT_EVERY_def pm_evict_def
      saturating_sub_def Let_def split: if_splits)
qed

lemma lazy_eviction_test: pair_matcher_runs_lazy_eviction_after_threshold
proof -
  have "[1..<unat EVICT_EVERY] = [1..<Suc 254] @ [255]" by (simp add: EVICT_EVERY_def upt_rec)
  moreover have "(of_nat 255 :: u64) \<noteq> 0" by simp
  ultimately show ?thesis
    using evicts_at_threshold [OF awaiting_run [of 254, simplified]]
    by (simp add: pair_matcher_runs_lazy_eviction_after_threshold_def)
qed

section \<open>Stream matchers\<close>

definition slot_matcher_separates_stages :: bool where
  "slot_matcher_separates_stages \<longleftrightarrow>
     (let t1 = \<lparr>mono_ns = 0, wall_ms = 0\<rparr>; t2 = \<lparr>mono_ns = 5000000, wall_ms = 0\<rparr>;
          m1 = sm_observe_stage list_runtime (sm_new list_runtime (SlotWindow 64)) One 100 Processed t1;
          m2 = sm_observe_stage list_runtime m1 Two 100 Processed t2;
          m3 = sm_observe_stage list_runtime m2 One 100 Confirmed t1;
          s = fst (sm_summary list_runtime m3)
      in ls_matched (ss_processed_delay s) = 1 \<and> ls_matched (ss_confirmed_delay s) = 0)"

definition slot_matcher_ignores_dead_stage :: bool where
  "slot_matcher_ignores_dead_stage \<longleftrightarrow>
     (let t = \<lparr>mono_ns = 1, wall_ms = 1\<rparr>;
          m1 = sm_observe_stage list_runtime (sm_new list_runtime (SlotWindow 64)) One 1 Dead t;
          m2 = sm_observe_stage list_runtime m1 Two 1 Dead t;
          s = fst (sm_summary list_runtime m2)
      in ls_matched (ss_processed_delay s) = 0 \<and> ls_matched (ss_confirmed_delay s) = 0)"

definition block_matcher_pairs_on_commitment_slot_and_blockhash :: bool where
  "block_matcher_pairs_on_commitment_slot_and_blockhash \<longleftrightarrow>
     (let bh = replicate 32 3;
          m1 = bm_observe list_runtime (pm_new list_runtime (SlotWindow 64)) One Com_Processed 100 bh (at_ms 0);
          m2 = bm_observe list_runtime m1 Two Com_Processed 100 bh (at_ms 4);
          s = fst (summary_from_matcher list_runtime m2)
      in ls_matched s = 1 \<and> ls_ep1_faster s = 1)"

definition block_matcher_does_not_cross_pair_across_commitments :: bool where
  "block_matcher_does_not_cross_pair_across_commitments \<longleftrightarrow>
     (let bh = replicate 32 3;
          m1 = bm_observe list_runtime (pm_new list_runtime (SlotWindow 64)) One Com_Processed 100 bh (at_ms 0);
          m2 = bm_observe list_runtime m1 One Com_Confirmed 100 bh (at_ms 400);
          m3 = bm_observe list_runtime m2 Two Com_Processed 100 bh (at_ms 10);
          m4 = bm_observe list_runtime m3 Two Com_Confirmed 100 bh (at_ms 410);
          s = fst (summary_from_matcher list_runtime m4)
      in ls_matched s = 2 \<and> ls_ep1_faster s = 2 \<and> (case ls_p50 s of Finite p \<Rightarrow> p < 50 | NaN \<Rightarrow> False))"

definition transaction_matcher_pairs_by_slot_and_signature :: bool where
  "transaction_matcher_pairs_by_slot_and_signature \<longleftrightarrow>
     (let sig = replicate 64 7;
          m1 = tm_observe list_runtime (pm_new list_runtime (SlotWindow 64)) One 10 sig (at_ms 0);
          m2 = tm_observe list_runtime m1 Two 10 sig (at_ms 2);
          s = fst (summary_from_matcher list_runtime m2)
      in ls_matched s = 1 \<and> ls_ep1_faster s = 1)"

definition transaction_matcher_does_not_match_different_slot_same_signature :: bool where
  "transaction_matcher_does_not_match_different_slot_same_signature \<longleftrightarrow>
     (let sig = replicate 64 7;
          m1 = tm_observe list_runtime (pm_new list_runtime (SlotWindow 64)) One 10 sig (at_ms 0);
          m2 = tm_observe list_runtime m1 Two 11 sig (at_ms 2);
          s = fst (summary_from_matcher list_runtime m2)
      in ls_matched s = 0)"

section \<open>Accounts\<close>

text \<open>Two observations of one account, by endpoint 1 at time 0 and by endpoint 2 at \<open>ms\<close>.\<close>

definition two_account_writes ::
  "(pubkey32, string) hmap \<Rightarrow> pubkey32 \<Rightarrow> signature64 option \<Rightarrow> u64 \<Rightarrow> u64 \<Rightarrow> u64 \<Rightarrow> rat list account_matcher" where
  "two_account_writes names owner sig version1 version2 ms =
     (let m = am_new (SlotWindow 64) names; pk = replicate 32 42;
          m1 = am_observe list_runtime m One 100 pk version1 sig owner (at_ms 0)
      in am_observe list_runtime m1 Two 100 pk version2 sig owner (at_ms ms))"

definition account_matcher_pairs_on_full_identity_tuple :: bool where
  "account_matcher_pairs_on_full_identity_tuple \<longleftrightarrow>
     (let owner_a = replicate 32 11;
          m = two_account_writes [(owner_a, ''raydium'')] owner_a (Some (replicate 64 3)) 1 1 5;
          (overall, m') = am_summary list_runtime m;
          per = fst (am_per_program_summary list_runtime m')
      in ls_matched overall = 1 \<and> ls_ep1_faster overall = 1
       \<and> (case hm_get per ''raydium'' of Some r \<Rightarrow> ls_matched r = 1 \<and> near (ls_p50 r) 5 (1 / 2) | None \<Rightarrow> False))"

definition account_matcher_matches_across_diverging_write_versions :: bool where
  "account_matcher_matches_across_diverging_write_versions \<longleftrightarrow>
     (let m = two_account_writes [] (replicate 32 11) (Some (replicate 64 7)) 1698798675296 1591937598192 5;
          s = fst (am_summary list_runtime m)
      in ls_matched s = 1 \<and> near (ls_p50 s) 5 (1 / 2))"

definition account_matcher_matches_when_txn_signature_absent :: bool where
  "account_matcher_matches_when_txn_signature_absent \<longleftrightarrow>
     ls_matched (fst (am_summary list_runtime (two_account_writes [] (replicate 32 11) None 1 1 2))) = 1"

definition unknown_owner_falls_into_unknown_bucket :: bool where
  "unknown_owner_falls_into_unknown_bucket \<longleftrightarrow>
     \<not> Option.is_none (hm_get (fst (am_per_program_summary list_runtime (two_account_writes [] (replicate 32 9) None 1 1 3))) ''unknown'')"

section \<open>Cross-stream tracker\<close>

definition tx_event :: "u64 \<Rightarrow> signature64 \<Rightarrow> u64 \<Rightarrow> event" where
  "tx_event slot sig mono_ms =
     \<lparr>ev_ts = at_ms mono_ms, ev_subscription = Main One Com_Processed Transactions, ev_payload = Transaction_Payload slot sig 0\<rparr>"

definition cross_account_event :: "u64 \<Rightarrow> signature64 option \<Rightarrow> u64 \<Rightarrow> event" where
  "cross_account_event slot sig mono_ms =
     \<lparr>ev_ts = at_ms mono_ms, ev_subscription = Main One Com_Processed Accounts,
      ev_payload = Account_Payload slot (replicate 32 0) (replicate 32 0) 0 sig 0\<rparr>"

definition cross_summary_of :: "event list \<Rightarrow> cross_stream_summary" where
  "cross_summary_of evs = fst (cs_summary list_runtime (fold (cs_observe list_runtime) evs (cs_new list_runtime One)))"

definition tx_arrives_before_account_yields_positive_delta :: bool where
  "tx_arrives_before_account_yields_positive_delta \<longleftrightarrow>
     (let sig = replicate 64 1; s = cross_summary_of [tx_event 10 sig 0, cross_account_event 10 (Some sig) 5]
      in case css_tx_vs_account s of Some q \<Rightarrow> near (q_p50 q) 5 1 | None \<Rightarrow> False)"

definition account_arrives_before_tx_yields_negative_delta :: bool where
  "account_arrives_before_tx_yields_negative_delta \<longleftrightarrow>
     (let sig = replicate 64 1; s = cross_summary_of [cross_account_event 10 (Some sig) 0, tx_event 10 sig 4]
      in case css_tx_vs_account s of Some q \<Rightarrow> near (q_p50 q) (- 4) 1 | None \<Rightarrow> False)"

definition entries_metrics_remain_null_in_v1 :: bool where
  "entries_metrics_remain_null_in_v1 \<longleftrightarrow>
     (let s = cross_summary_of []
      in Option.is_none (css_entries_vs_tx s) \<and> Option.is_none (css_entries_vs_account s) \<and> css_notes s \<noteq> [])"

definition ignores_other_endpoint :: bool where
  "ignores_other_endpoint \<longleftrightarrow>
     (let sig = replicate 64 1; ev = (tx_event 10 sig 0)\<lparr>ev_subscription := Main Two Com_Processed Transactions\<rparr>
      in Option.is_none (css_tx_vs_account (cross_summary_of [ev, cross_account_event 10 (Some sig) 5])))"

section \<open>Stability tracker\<close>

definition slot_event_with_commitment :: "endpoint_role \<Rightarrow> u64 \<Rightarrow> slot_stage \<Rightarrow> commitment \<Rightarrow> u64 \<Rightarrow> u64 \<Rightarrow> event" where
  "slot_event_with_commitment e slot stage c m w =
     \<lparr>ev_ts = \<lparr>mono_ns = m, wall_ms = w\<rparr>, ev_subscription = Main e c Slots, ev_payload = Slot_Payload slot stage\<rparr>"

definition slot_event :: "endpoint_role \<Rightarrow> u64 \<Rightarrow> slot_stage \<Rightarrow> u64 \<Rightarrow> u64 \<Rightarrow> event" where
  "slot_event e slot stage m w =
     \<lparr>ev_ts = \<lparr>mono_ns = m, wall_ms = w\<rparr>, ev_subscription = Main e Com_Processed Slots, ev_payload = Slot_Payload slot stage\<rparr>"

definition stability_after :: "event list \<Rightarrow> rat list stability_tracker \<Rightarrow> stability_summary" where
  "stability_after evs t = fst (st_summary list_runtime (fold (st_observe list_runtime) evs t))"

definition slot_gap_records_gap_between_consecutive_events :: bool where
  "slot_gap_records_gap_between_consecutive_events \<longleftrightarrow>
     (let s = stability_after [slot_event One 1 Processed 0 0, slot_event One 2 Processed 50000000 50] (st_new list_runtime One)
      in \<bar>sy_gap_max s - 50\<bar> < 1 / 1000000)"

definition stall_event_recorded_above_threshold :: bool where
  "stall_event_recorded_above_threshold \<longleftrightarrow>
     (let s = stability_after [slot_event One 1 Processed 0 0, slot_event One 2 Processed 700000000 700] (st_new list_runtime One)
      in length (sy_stall_events s) = 1 \<and> \<bar>se_duration_ms (sy_stall_events s ! 0) - 700\<bar> < 1 / 1000000)"

definition ignores_events_from_other_endpoint :: bool where
  "ignores_events_from_other_endpoint \<longleftrightarrow>
     \<bar>sy_gap_max (stability_after [slot_event Two 1 Processed 0 0] (st_new list_runtime One))\<bar> < 1 / 2 ^ 52"

definition processed_confirmed_drift_paired_via_slot :: bool where
  "processed_confirmed_drift_paired_via_slot \<longleftrightarrow>
     (let s = stability_after [slot_event_with_commitment One 100 Processed Com_Processed 0 0,
            slot_event_with_commitment One 100 Confirmed Com_Confirmed 300000000 300] (st_new list_runtime One)
      in near (sy_drift_p50 s) 300 1)"

definition disconnect_event_round_trips_into_summary :: bool where
  "disconnect_event_round_trips_into_summary \<longleftrightarrow>
     (let s = stability_after [] (st_record_disconnect 123456 ''Unavailable: connection reset'' 42 (st_new list_runtime One))
      in length (sy_disconnects s) = 1 \<and> de_events_received_before (sy_disconnects s ! 0) = 42)"

definition reconnect_ttfm_recorded_on_first_message_after_reconnect :: bool where
  "reconnect_ttfm_recorded_on_first_message_after_reconnect \<longleftrightarrow>
     (let s = stability_after [slot_event One 10 Processed 1050000000 1050] (st_record_reconnect 1000000000 (st_new list_runtime One))
      in \<bar>sy_ttfm_max s - 50\<bar> < 1)"

text \<open>The two tests of \<open>tests/integration.rs\<close> on the tracker.\<close>

definition disconnect_and_reconnect_records_event_and_ttfm :: bool where
  "disconnect_and_reconnect_records_event_and_ttfm \<longleftrightarrow>
     (let t0 = fold (st_observe list_runtime)
            (map (\<lambda>i. (slot_event One i Processed 0 0)\<lparr>ev_ts := at_ms (i * 50)\<rparr>) [0, 1, 2, 3, 4, 5, 6, 7, 8, 9]) (st_new list_runtime One);
          t1 = st_record_disconnect 500 ''Unavailable: stream reset'' 10 t0;
          t2 = st_record_reconnect (1500 * 1000000) t1;
          s = stability_after [(slot_event One 11 Processed 0 0)\<lparr>ev_ts := at_ms 1540\<rparr>] t2
      in length (sy_disconnects s) = 1 \<and> de_events_received_before (sy_disconnects s ! 0) = 10
       \<and> \<bar>sy_ttfm_max s - 40\<bar> < 1)"

definition slot_stream_processed_confirmed_drift_paired_within_endpoint :: bool where
  "slot_stream_processed_confirmed_drift_paired_within_endpoint \<longleftrightarrow>
     (let s = stability_after [(slot_event_with_commitment One 1000 Processed Com_Processed 0 0)\<lparr>ev_ts := at_ms 0\<rparr>,
            (slot_event_with_commitment One 1000 Confirmed Com_Confirmed 0 0)\<lparr>ev_ts := at_ms 300\<rparr>] (st_new list_runtime One)
      in near (sy_drift_p50 s) 300 1)"

section \<open>Ring\<close>

definition ring_ev :: "u64 \<Rightarrow> event" where
  "ring_ev slot = \<lparr>ev_ts = \<lparr>mono_ns = slot * 1000000, wall_ms = slot\<rparr>, ev_subscription = Main One Com_Processed Slots,
     ev_payload = Slot_Payload slot Processed\<rparr>"

definition ring_round_trips_events :: bool where
  "ring_round_trips_events \<longleftrightarrow>
     (case ring_with_capacity 4 of None \<Rightarrow> False
      | Some r \<Rightarrow>
          let (ok1, r1) = ring_try_send (ring_ev 1) r; (ok2, r2) = ring_try_send (ring_ev 2) r1
          in ok1 \<and> ok2
           \<and> (case ring_recv r2 of Some (Inr got, _) \<Rightarrow> (case ev_payload got of Slot_Payload slot _ \<Rightarrow> slot = 1 | _ \<Rightarrow> False)
              | _ \<Rightarrow> False))"

definition ring_overflow_increments_dropped_counter :: bool where
  "ring_overflow_increments_dropped_counter \<longleftrightarrow>
     (case ring_with_capacity 2 of None \<Rightarrow> False
      | Some r \<Rightarrow>
          let (ok1, r1) = ring_try_send (ring_ev 1) r; (ok2, r2) = ring_try_send (ring_ev 2) r1;
              (ok3, r3) = ring_try_send (ring_ev 3) r2
          in ok1 \<and> ok2 \<and> \<not> ok3 \<and> sn_dropped (stats_snapshot (rg_stats r3)) = 1)"

definition ring_try_recv_returns_empty_when_idle :: bool where
  "ring_try_recv_returns_empty_when_idle \<longleftrightarrow>
     (case ring_with_capacity 2 of None \<Rightarrow> False
      | Some r \<Rightarrow> (case fst (ring_try_recv (r :: event ring)) of Inl Empty \<Rightarrow> True | _ \<Rightarrow> False))"

definition ring_panics_on_zero_capacity :: bool where
  "ring_panics_on_zero_capacity \<longleftrightarrow> Option.is_none (ring_with_capacity 0 :: event ring option)"

lemma matching_tests:
  pair_matcher_emits_match_with_positive_delta_when_ep1_first
  pair_matcher_emits_match_with_negative_delta_when_ep2_first
  pair_matcher_evicts_pending_outside_slot_window
  quantile_returns_nan_on_empty_digest
  summary_from_matcher_carries_counts
  slot_matcher_separates_stages
  slot_matcher_ignores_dead_stage
  block_matcher_pairs_on_commitment_slot_and_blockhash
  block_matcher_does_not_cross_pair_across_commitments
  transaction_matcher_pairs_by_slot_and_signature
  transaction_matcher_does_not_match_different_slot_same_signature
  account_matcher_pairs_on_full_identity_tuple
  account_matcher_matches_across_diverging_write_versions
  account_matcher_matches_when_txn_signature_absent
  unknown_owner_falls_into_unknown_bucket
  tx_arrives_before_account_yields_positive_delta
  account_arrives_before_tx_yields_negative_delta
  entries_metrics_remain_null_in_v1
  ignores_other_endpoint
  slot_gap_records_gap_between_consecutive_events
  stall_event_recorded_above_threshold
  ignores_events_from_other_endpoint
  processed_confirmed_drift_paired_via_slot
  disconnect_event_round_trips_into_summary
  reconnect_ttfm_recorded_on_first_message_after_reconnect
  disconnect_and_reconnect_records_event_and_ttfm
  slot_stream_processed_confirmed_drift_paired_within_endpoint
  ring_round_trips_events
  ring_overflow_increments_dropped_counter
  ring_try_recv_returns_empty_when_idle
  ring_panics_on_zero_capacity
  by code_simp+

section \<open>Clock\<close>

text \<open>
  The clock tests run on the host's clocks. Their readings are arguments here, and the tests pass for all readings a
  host that is not suspended can give.
\<close>

definition user_space_pair_is_monotonic :: "nat \<times> nat \<Rightarrow> nat \<times> nat \<Rightarrow> nat \<times> nat \<Rightarrow> bool" where
  "user_space_pair_is_monotonic r0 r1 r2 \<longleftrightarrow>
     (let origin = clock_capture (fst r0) (Some (snd r0));
          a = now_user_space origin (fst r1) (Some (snd r1));
          b = now_user_space origin (fst r2) (Some (snd r2))
      in mono_ns b \<ge> mono_ns a \<and> wall_ms b \<ge> wall_ms a)"

definition user_space_delta_matches_sleep_within_jitter :: "nat \<times> nat \<Rightarrow> nat \<times> nat \<Rightarrow> nat \<times> nat \<Rightarrow> bool" where
  "user_space_delta_matches_sleep_within_jitter r0 r1 r2 \<longleftrightarrow>
     (let origin = clock_capture (fst r0) (Some (snd r0));
          a = now_user_space origin (fst r1) (Some (snd r1));
          b = now_user_space origin (fst r2) (Some (snd r2));
          delta_ms = (mono_ns b - mono_ns a) div 1000000
      in delta_ms \<ge> 8 \<and> delta_ms < 200)"

definition from_kernel_realtime_round_trips_into_monotonic :: "nat \<times> nat \<Rightarrow> bool" where
  "from_kernel_realtime_round_trips_into_monotonic r0 \<longleftrightarrow>
     (let origin = clock_capture (fst r0) (Some (snd r0));
          t = from_kernel_realtime_ns origin (realtime_anchor_ns origin + 5000000);
          delta_ns = saturating_sub (mono_ns t) (mono_anchor_ns origin)
      in 4500000 \<le> delta_ns \<and> delta_ns \<le> 5500000)"

definition realtime_now_ns_is_recent :: "nat \<Rightarrow> bool" where
  "realtime_now_ns_is_recent since_epoch \<longleftrightarrow>
     (let now = realtime_now_ns (Some since_epoch)
      in now > 1700000000000000000 \<and> now < 4000000000000000000)"

lemma user_space_pair_passes:
  assumes "fst r0 \<le> fst r1" "fst r1 \<le> fst r2" "fst r2 - fst r0 < 2 ^ 64" "snd r1 \<le> snd r2" "snd r2 < 2 ^ 64"
  shows "user_space_pair_is_monotonic r0 r1 r2"
  using assms
  by (simp add: user_space_pair_is_monotonic_def clock_capture_def now_user_space_def realtime_now_ns_def u64_from_or_small
      Let_def word_le_nat_alt unat_of_nat take_bit_nat_eq_self unat_div div_le_mono diff_le_mono
      del: of_nat_diff)

lemma user_space_delta_passes:
  assumes "fst r0 \<le> fst r1" "fst r2 - fst r0 < 2 ^ 64" "fst r1 + 8000000 \<le> fst r2" "fst r2 < fst r1 + 200000000"
  shows "user_space_delta_matches_sleep_within_jitter r0 r1 r2"
proof -
  have "of_nat (fst r2 - fst r0) - of_nat (fst r1 - fst r0) = (of_nat (fst r2 - fst r1) :: u64)"
    using assms by (simp flip: of_nat_diff)
  moreover have "8 \<le> (fst r2 - fst r1) div 1000000" "(fst r2 - fst r1) div 1000000 < 200"
    using assms by (simp_all add: less_eq_div_iff_mult_less_eq div_less_iff_less_mult)
  ultimately show ?thesis
    using assms
    by (simp add: user_space_delta_matches_sleep_within_jitter_def clock_capture_def now_user_space_def u64_from_or_small
        Let_def word_le_nat_alt word_less_nat_alt unat_of_nat take_bit_nat_eq_self unat_div
        del: of_nat_diff)
qed

lemma from_kernel_realtime_passes:
  assumes "snd r0 + 5000000 < 2 ^ 64"
  shows "from_kernel_realtime_round_trips_into_monotonic r0"
proof -
  have "\<not> (of_nat (snd r0) + 5000000 :: u64) < of_nat (snd r0)"
    using assms by (simp add: word_less_nat_alt unat_word_ariths unat_of_nat take_bit_nat_eq_self)
  then show ?thesis
    using assms by (simp add: from_kernel_realtime_round_trips_into_monotonic_def clock_capture_def realtime_now_ns_def
      u64_from_or_small from_kernel_realtime_ns_def saturating_sub_def saturating_add_def Let_def)
qed

lemma realtime_now_passes:
  "1700000000000000000 < d \<Longrightarrow> d < 4000000000000000000 \<Longrightarrow> realtime_now_ns_is_recent d"
  by (simp add: realtime_now_ns_is_recent_def realtime_now_ns_def u64_from_or_small word_less_nat_alt unat_of_nat
      take_bit_nat_eq_self)

end
