(* ===== verification/Reference_Env.thy ===== *)
theory Reference_Env
  imports Programs Decode
begin

text \<open>
  Concrete instances of the model's parameters, on which the unit tests of the repository are replayed: the Base58
  decoder of \<open>bs58\<close> (its default alphabet) and the enumeration \<open>SlotStatus\<close> of \<open>geyser.proto\<close>. No property
  rests on them.
\<close>

definition BS58_ALPHABET :: string where
  "BS58_ALPHABET = ''123456789ABCDEFGHJKLMNPQRSTUVWXYZabcdefghijkmnopqrstuvwxyz''"

fun bs58_digit :: "string \<Rightarrow> char \<Rightarrow> int option" where
  "bs58_digit [] c = None"
| "bs58_digit (a # as) c = (if a = c then Some 0 else map_option (\<lambda>d. d + 1) (bs58_digit as c))"

fun bs58_number :: "int \<Rightarrow> string \<Rightarrow> int option" where
  "bs58_number acc [] = Some acc"
| "bs58_number acc (c # cs) =
     (case bs58_digit BS58_ALPHABET c of None \<Rightarrow> None | Some d \<Rightarrow> bs58_number (58 * acc + d) cs)"

text \<open>The bytes of a number, most significant first; the fuel is the number of digits, each under a byte.\<close>

fun big_endian :: "nat \<Rightarrow> int \<Rightarrow> u8 list \<Rightarrow> u8 list" where
  "big_endian 0 n acc = acc"
| "big_endian (Suc fuel) n acc = (if n \<le> 0 then acc else big_endian fuel (n div 256) (of_int (n mod 256) # acc))"

definition bs58_reference :: "string \<Rightarrow> string + u8 list" where
  "bs58_reference s =
     (case bs58_number 0 s of None \<Rightarrow> Inl ''invalid character''
      | Some n \<Rightarrow> Inr (replicate (length (takeWhile (\<lambda>c. c = CHR ''1'') s)) 0 @ big_endian (length s) n []))"

definition programs_reference :: programs_env where
  "programs_reference = \<lparr>pg_bs58_decode = bs58_reference, pg_dbg = id\<rparr>"

text \<open>The tag of each status and its inverse.\<close>

fun slot_status_tag :: "slot_status \<Rightarrow> int" where
  "slot_status_tag SlotProcessed = 0"
| "slot_status_tag SlotConfirmed = 1"
| "slot_status_tag SlotFinalized = 2"
| "slot_status_tag SlotFirstShredReceived = 3"
| "slot_status_tag SlotCompleted = 4"
| "slot_status_tag SlotCreatedBank = 5"
| "slot_status_tag SlotDead = 6"

definition slot_status_of_tag :: "int \<Rightarrow> slot_status option" where
  "slot_status_of_tag n = find (\<lambda>s. slot_status_tag s = n)
     [SlotProcessed, SlotConfirmed, SlotFinalized, SlotFirstShredReceived, SlotCompleted, SlotCreatedBank, SlotDead]"

lemma slot_status_of_tag: "slot_status_of_tag (slot_status_tag s) = Some s"
  by (cases s) (simp_all add: slot_status_of_tag_def)

definition decode_reference :: "unit decode_env" where
  "decode_reference = \<lparr>slot_status_try_from = slot_status_of_tag, bs58_decode = bs58_reference, encoded_len = (\<lambda>_. 1)\<rparr>"

end
