(* ===== verification/Tests_Collect.thy ===== *)
theory Tests_Collect
  imports Reference_Env Affinity Ring
begin

text \<open>
  The unit tests of \<open>src/collect/mod.rs\<close> replayed on the decoder, the affinity layer and the receiver's counters.
  A timestamp the tests read from the clock is an argument, as is the number of cores of the host: the tests pass
  for every value.
\<close>

text \<open>\<open>x.unwrap()\<close> followed by assertions \<open>P\<close>; \<open>x.unwrap_err()\<close> followed by a pattern.\<close>

fun ok_and :: "'e + 'a \<Rightarrow> ('a \<Rightarrow> bool) \<Rightarrow> bool" where
  "ok_and (Inr x) P = P x"
| "ok_and (Inl _) P = False"

fun err_and :: "'e + 'a \<Rightarrow> ('e \<Rightarrow> bool) \<Rightarrow> bool" where
  "err_and (Inl e) P = P e"
| "err_and (Inr _) P = False"

section \<open>Decoder\<close>

definition test_sub :: subscription_role where
  "test_sub = Main One Com_Processed Accounts"

text \<open>\<open>decode\<close> of an update on the fixture, and what a test asserts of the payload.\<close>

definition decoded_payload :: "event_timestamp \<Rightarrow> unit update_oneof \<Rightarrow> (event_payload \<Rightarrow> bool) \<Rightarrow> bool" where
  "decoded_payload t update P =
     ok_and (decode decode_reference \<lparr>tm_ts = t, tm_update = Some update\<rparr> test_sub)
       (\<lambda>ev. case ev of Some ev \<Rightarrow> P (ev_payload ev) | None \<Rightarrow> False)"

definition slot_stage_round_trip_via_proto_enum :: bool where
  "slot_stage_round_trip_via_proto_enum \<longleftrightarrow>
     slot_stage_from_proto SlotProcessed = Processed
   \<and> slot_stage_from_proto SlotConfirmed = Confirmed
   \<and> slot_stage_from_proto SlotFinalized = Finalized"

definition decode_slot_update_produces_event :: "event_timestamp \<Rightarrow> bool" where
  "decode_slot_update_produces_event t =
     decoded_payload t (Upd_Slot \<lparr>su_slot = 42, su_status = slot_status_tag SlotProcessed\<rparr>)
       (\<lambda>p. case p of Slot_Payload slot stage \<Rightarrow> slot = 42 \<and> stage = Processed | _ \<Rightarrow> False)"

definition decode_account_update_carries_identity_fields :: "event_timestamp \<Rightarrow> bool" where
  "decode_account_update_carries_identity_fields t =
     (let pubkey = replicate 32 7; owner = replicate 32 8; sig = Some (replicate 64 9)
      in decoded_payload t
           (Upd_Account \<lparr>au_slot = 100,
              au_account = Some \<lparr>ai_pubkey = pubkey, ai_owner = owner, ai_write_version = 42, ai_txn_signature = sig, ai_lamports = 5000\<rparr>\<rparr>)
           (\<lambda>p. case p of
              Account_Payload slot p' o' write_version txn_signature lamports \<Rightarrow>
                slot = 100 \<and> p' = pubkey \<and> o' = owner \<and> write_version = 42 \<and> lamports = 5000
              \<and> (case txn_signature of Some sig_arr \<Rightarrow> sig_arr ! 0 = 9 \<and> sig_arr ! 63 = 9 | None \<Rightarrow> False)
            | _ \<Rightarrow> False))"

definition decode_transaction_carries_signature :: "event_timestamp \<Rightarrow> bool" where
  "decode_transaction_carries_signature t =
     (let signature = replicate 64 3
      in decoded_payload t
           (Upd_Transaction \<lparr>tu_slot = 200, tu_transaction = Some \<lparr>ti_signature = signature, ti_index = 7\<rparr>\<rparr>)
           (\<lambda>p. case p of Transaction_Payload slot sig index \<Rightarrow> slot = 200 \<and> sig = signature \<and> index = 7 | _ \<Rightarrow> False))"

text \<open>\<open>bs58::encode\<close> of 32 zero bytes is 32 times the first letter of the alphabet.\<close>

definition decode_block_decodes_blockhash_from_base58 :: "event_timestamp \<Rightarrow> bool" where
  "decode_block_decodes_blockhash_from_base58 t =
     (let zero_hash = replicate 32 (CHR ''1'')
      in decoded_payload t
           (Upd_Block \<lparr>bu_slot = 300, bu_blockhash = zero_hash, bu_executed_transaction_count = 25, bu_entries_count = 4, bu_rest = ()\<rparr>)
           (\<lambda>p. case p of
              Block_Payload slot blockhash tx_count entries_count block_size_bytes \<Rightarrow>
                slot = 300 \<and> blockhash = replicate 32 0 \<and> tx_count = 25 \<and> entries_count = 4 \<and> block_size_bytes > 0
            | _ \<Rightarrow> False))"

definition decode_entry_carries_index_fields :: "event_timestamp \<Rightarrow> bool" where
  "decode_entry_carries_index_fields t =
     decoded_payload t
       (Upd_Entry \<lparr>eu_slot = 500, eu_index = 13, eu_executed_transaction_count = 11, eu_starting_transaction_index = 1000\<rparr>)
       (\<lambda>p. case p of
          Entry_Payload slot index executed_transaction_count starting_transaction_index \<Rightarrow>
            slot = 500 \<and> index = 13 \<and> executed_transaction_count = 11 \<and> starting_transaction_index = 1000
        | _ \<Rightarrow> False)"

definition decode_skips_pings :: "event_timestamp \<Rightarrow> bool" where
  "decode_skips_pings t = ok_and (decode decode_reference \<lparr>tm_ts = t, tm_update = Some Upd_Ping\<rparr> test_sub) Option.is_none"

definition decode_skips_empty_update_oneof :: "event_timestamp \<Rightarrow> bool" where
  "decode_skips_empty_update_oneof t = ok_and (decode decode_reference \<lparr>tm_ts = t, tm_update = None\<rparr> test_sub) Option.is_none"

definition decode_rejects_bad_pubkey_length :: "event_timestamp \<Rightarrow> bool" where
  "decode_rejects_bad_pubkey_length t =
     err_and (decode decode_reference
         \<lparr>tm_ts = t, tm_update = Some (Upd_Account \<lparr>au_slot = 1, au_account = Some
            \<lparr>ai_pubkey = [1, 2, 3], ai_owner = replicate 32 0, ai_write_version = 0, ai_txn_signature = None, ai_lamports = 0\<rparr>\<rparr>)\<rparr> test_sub)
       (\<lambda>e. e = BadPubkeyLen 3)"

definition decode_rejects_account_missing_info :: "event_timestamp \<Rightarrow> bool" where
  "decode_rejects_account_missing_info t =
     err_and (decode decode_reference
         \<lparr>tm_ts = t, tm_update = Some (Upd_Account \<lparr>au_slot = 1, au_account = None\<rparr>)\<rparr> test_sub)
       (\<lambda>e. e = AccountMissingInfo)"

lemma decode_tests:
  slot_stage_round_trip_via_proto_enum
  "decode_slot_update_produces_event t"
  "decode_account_update_carries_identity_fields t"
  "decode_transaction_carries_signature t"
  "decode_block_decodes_blockhash_from_base58 t"
  "decode_entry_carries_index_fields t"
  "decode_skips_pings t"
  "decode_skips_empty_update_oneof t"
  "decode_rejects_bad_pubkey_length t"
  "decode_rejects_account_missing_info t"
  by code_simp+

section \<open>Affinity\<close>

definition affinity_plan_from_four_cores_matches_spec_default :: bool where
  "affinity_plan_from_four_cores_matches_spec_default \<longleftrightarrow>
     (let plan = plan_from_cli [2, 3, 4, 5]
      in ap_endpoint1_cores plan = [2] \<and> ap_endpoint2_cores plan = [3]
       \<and> ap_processor_core plan = Some 4 \<and> ap_control_core plan = Some 5)"

definition affinity_plan_from_empty_yields_no_pin :: bool where
  "affinity_plan_from_empty_yields_no_pin \<longleftrightarrow>
     (let plan = plan_from_cli [] in ap_endpoint1_cores plan = [] \<and> Option.is_none (ap_processor_core plan))"

definition affinity_plan_partial_specs_fall_back_gracefully :: bool where
  "affinity_plan_partial_specs_fall_back_gracefully \<longleftrightarrow>
     (let plan = plan_from_cli [2, 3]
      in ap_endpoint1_cores plan = [2] \<and> ap_endpoint2_cores plan = [3]
       \<and> Option.is_none (ap_processor_core plan) \<and> Option.is_none (ap_control_core plan))"

definition affinity_spec_structured_parse_round_trips :: "nat option \<Rightarrow> bool" where
  "affinity_spec_structured_parse_round_trips nproc \<longleftrightarrow>
     ok_and (affinity_parse nproc ''ep1=2,3,4,5:ep2=6,7,8,9:proc=10:ctrl=11'')
       (\<lambda>spec. as_endpoint1 spec = [2, 3, 4, 5] \<and> as_endpoint2 spec = [6, 7, 8, 9]
          \<and> as_processor spec = Some 10 \<and> as_control spec = Some 11)"

definition affinity_spec_flat_parse_equivalent_to_from_flat_vec :: "nat option \<Rightarrow> bool" where
  "affinity_spec_flat_parse_equivalent_to_from_flat_vec nproc \<longleftrightarrow>
     ok_and (affinity_parse nproc ''2,3,4,5'') (\<lambda>parsed. ok_and (from_flat_vec [2, 3, 4, 5]) (\<lambda>via_vec. parsed = via_vec))"

definition affinity_spec_all_cores_preserves_order_and_dedups :: bool where
  "affinity_spec_all_cores_preserves_order_and_dedups \<longleftrightarrow>
     all_cores \<lparr>as_endpoint1 = [2, 3], as_endpoint2 = [3, 4], as_processor = Some 2, as_control = Some 5\<rparr> = [2, 3, 4, 5]"

definition affinity_spec_partial_structured_omits_unsetroles :: "nat option \<Rightarrow> bool" where
  "affinity_spec_partial_structured_omits_unsetroles nproc \<longleftrightarrow>
     ok_and (affinity_parse nproc ''ep1=2,3'')
       (\<lambda>spec. as_endpoint1 spec = [2, 3] \<and> as_endpoint2 spec = []
          \<and> Option.is_none (as_processor spec) \<and> Option.is_none (as_control spec))"

definition affinity_spec_empty_parse_yields_default :: "nat option \<Rightarrow> bool" where
  "affinity_spec_empty_parse_yields_default nproc \<longleftrightarrow>
     ok_and (affinity_parse nproc '''') spec_is_empty \<and> ok_and (affinity_parse nproc ''   '') spec_is_empty"

definition affinity_auto_8_cores_balances_endpoints :: bool where
  "affinity_auto_8_cores_balances_endpoints \<longleftrightarrow>
     (let spec = auto_for_core_count 8
      in as_endpoint1 spec = [2, 3] \<and> as_endpoint2 spec = [4, 5, 6] \<and> as_processor spec = None \<and> as_control spec = Some 7)"

definition affinity_auto_16_cores_balances_endpoints :: bool where
  "affinity_auto_16_cores_balances_endpoints \<longleftrightarrow>
     (let spec = auto_for_core_count 16
      in as_endpoint1 spec = [2, 3, 4, 5, 6, 7] \<and> as_endpoint2 spec = [8, 9, 10, 11, 12, 13, 14]
       \<and> as_processor spec = None \<and> as_control spec = Some 15)"

text \<open>\<open>first\<close>, \<open>last\<close> and \<open>len\<close> of a list of cores, as the tests of the larger hosts assert them.\<close>

definition spans :: "u32 list \<Rightarrow> u32 \<Rightarrow> u32 \<Rightarrow> nat \<Rightarrow> bool" where
  "spans cs a b n \<longleftrightarrow> cs \<noteq> [] \<and> hd cs = a \<and> last cs = b \<and> length cs = n"

definition affinity_auto_64_cores_customer_rig :: bool where
  "affinity_auto_64_cores_customer_rig \<longleftrightarrow>
     (let spec = auto_for_core_count 64
      in spans (as_endpoint1 spec) 2 31 30 \<and> spans (as_endpoint2 spec) 32 62 31
       \<and> as_processor spec = None \<and> as_control spec = Some 63
       \<and> (\<forall>c\<in>set (as_endpoint1 spec). c \<notin> set (as_endpoint2 spec)))"

definition affinity_auto_32_cores_matches_runbook_layout :: bool where
  "affinity_auto_32_cores_matches_runbook_layout \<longleftrightarrow>
     (let spec = auto_for_core_count 32
      in spans (as_endpoint1 spec) 2 15 14 \<and> spans (as_endpoint2 spec) 16 30 15
       \<and> as_processor spec = None \<and> as_control spec = Some 31)"

definition affinity_auto_small_host_falls_back_to_no_pin :: bool where
  "affinity_auto_small_host_falls_back_to_no_pin \<longleftrightarrow> (\<forall>n\<in>set [1..<6]. spec_is_empty (auto_for_core_count n))"

definition affinity_parse_auto_keyword :: "nat option \<Rightarrow> bool" where
  "affinity_parse_auto_keyword nproc \<longleftrightarrow>
     ok_and (affinity_parse nproc ''auto'') (\<lambda>spec_lower.
     ok_and (affinity_parse nproc ''AUTO'') (\<lambda>spec_upper.
     ok_and (affinity_parse nproc ''  Auto  '') (\<lambda>spec_mixed. spec_lower = spec_upper \<and> spec_lower = spec_mixed)))"

definition affinity_plan_from_spec_drives_multi_core_cycling :: "nat option \<Rightarrow> bool" where
  "affinity_plan_from_spec_drives_multi_core_cycling nproc \<longleftrightarrow>
     ok_and (affinity_parse nproc ''ep1=2,3,4,5:ep2=6,7,8,9:proc=10:ctrl=11'')
       (\<lambda>spec. let plan = plan_from_spec spec; role0 = Main One Com_Processed Slots
          in core_for_subscription plan role0 0 = Some 2 \<and> core_for_subscription plan role0 1 = Some 3
           \<and> core_for_subscription plan role0 3 = Some 5 \<and> core_for_subscription plan role0 4 = Some 2
           \<and> ap_processor_core plan = Some 10 \<and> ap_control_core plan = Some 11)"

definition affinity_plan_core_for_subscription_cycles :: bool where
  "affinity_plan_core_for_subscription_cycles \<longleftrightarrow>
     (let plan = \<lparr>ap_endpoint1_cores = [2, 6], ap_endpoint2_cores = [3], ap_processor_core = None, ap_control_core = None\<rparr>
      in core_for_subscription plan (Main One Com_Processed Slots) 0 = Some 2
       \<and> core_for_subscription plan (Main One Com_Confirmed Slots) 1 = Some 6
       \<and> core_for_subscription plan (Main One Com_Processed Slots) 2 = Some 2)"

lemma affinity_plan_tests:
  affinity_plan_from_four_cores_matches_spec_default
  affinity_plan_from_empty_yields_no_pin
  affinity_plan_partial_specs_fall_back_gracefully
  affinity_spec_all_cores_preserves_order_and_dedups
  affinity_auto_8_cores_balances_endpoints
  affinity_auto_16_cores_balances_endpoints
  affinity_auto_64_cores_customer_rig
  affinity_auto_32_cores_matches_runbook_layout
  affinity_auto_small_host_falls_back_to_no_pin
  affinity_plan_core_for_subscription_cycles
  by code_simp+

text \<open>The host matters for the keyword only.\<close>

lemma affinity_parse_host:
  "\<not> eq_ignore_ascii_case (str_trim raw) ''auto'' \<Longrightarrow> affinity_parse nproc raw = affinity_parse None raw"
  by (simp add: affinity_parse_def Let_def)

lemma affinity_parse_tests:
  "affinity_spec_structured_parse_round_trips nproc"
  "affinity_spec_flat_parse_equivalent_to_from_flat_vec nproc"
  "affinity_spec_partial_structured_omits_unsetroles nproc"
  "affinity_spec_empty_parse_yields_default nproc"
  "affinity_plan_from_spec_drives_multi_core_cycling nproc"
proof -
  let ?raws = "[''ep1=2,3,4,5:ep2=6,7,8,9:proc=10:ctrl=11'', ''2,3,4,5'', ''ep1=2,3'', '''', ''   '']"
  have "\<forall>raw\<in>set ?raws. \<not> eq_ignore_ascii_case (str_trim raw) ''auto''" by code_simp
  then have host: "affinity_parse nproc raw = affinity_parse None raw" if "raw \<in> set ?raws" for raw
    using that affinity_parse_host by blast
  have "affinity_spec_structured_parse_round_trips None" "affinity_spec_flat_parse_equivalent_to_from_flat_vec None"
    "affinity_spec_partial_structured_omits_unsetroles None" "affinity_spec_empty_parse_yields_default None"
    "affinity_plan_from_spec_drives_multi_core_cycling None"
    by code_simp+
  then show
    "affinity_spec_structured_parse_round_trips nproc"
    "affinity_spec_flat_parse_equivalent_to_from_flat_vec nproc"
    "affinity_spec_partial_structured_omits_unsetroles nproc"
    "affinity_spec_empty_parse_yields_default nproc"
    "affinity_plan_from_spec_drives_multi_core_cycling nproc"
    unfolding affinity_spec_structured_parse_round_trips_def affinity_spec_flat_parse_equivalent_to_from_flat_vec_def
      affinity_spec_partial_structured_omits_unsetroles_def affinity_spec_empty_parse_yields_default_def
      affinity_plan_from_spec_drives_multi_core_cycling_def
    by (simp_all only: host list.set insert_iff simp_thms)
qed

lemma affinity_parse_auto:
  assumes "str_trim raw \<noteq> []" "eq_ignore_ascii_case (str_trim raw) ''auto''"
  shows "affinity_parse nproc raw = Inr (auto_from_nproc nproc)"
  using assms by (simp add: affinity_parse_def Let_def)

lemma affinity_auto_test: "affinity_parse_auto_keyword nproc"
proof -
  have "\<forall>raw\<in>set [''auto'', ''AUTO'', ''  Auto  '']. str_trim raw \<noteq> [] \<and> eq_ignore_ascii_case (str_trim raw) ''auto''"
    by code_simp
  then show ?thesis by (simp add: affinity_parse_auto_keyword_def affinity_parse_auto)
qed

section \<open>Counters\<close>

definition receiver_stats_snapshot_reads_relaxed :: bool where
  "receiver_stats_snapshot_reads_relaxed \<longleftrightarrow>
     (let s0 = receiver_stats_new;
          s = s0\<lparr>rs_received := rs_received s0 + 7, rs_dropped := rs_dropped s0 + 1,
                 rs_decode_errors := rs_decode_errors s0 + 2, rs_disconnects := rs_disconnects s0 + 3\<rparr>;
          snap = stats_snapshot s
      in sn_received snap = 7 \<and> sn_dropped snap = 1 \<and> sn_decode_errors snap = 2 \<and> sn_disconnects snap = 3)"

lemma counter_tests: receiver_stats_snapshot_reads_relaxed
  by code_simp

end
