(* ===== verification/Tests_Config.thy ===== *)
theory Tests_Config
  imports Tests_Collect Subscribe Dispatcher
begin

text \<open>
  The unit tests of \<open>config.rs\<close>, replayed on the model. The number of cores of the host, which only the affinity
  keyword \<open>auto\<close> reads and no test here uses, is unknown (\<open>None\<close>).
\<close>

section \<open>Configuration\<close>

definition base_cli :: cli where
  "base_cli = \<lparr>cli_endpoint1 = ''host1:10000'', cli_x_token1 = ''t1'', cli_endpoint1_tls = False,
     cli_endpoint2 = Some ''host2:10000'', cli_x_token2 = Some ''t2'', cli_endpoint2_tls = False,
     cli_solo = False, cli_solo_streams = [Slots],
     cli_entries_endpoint1 = None, cli_entries_x_token1 = None, cli_entries_endpoint1_tls = False,
     cli_entries_endpoint2 = None, cli_entries_x_token2 = None, cli_entries_endpoint2_tls = False,
     cli_programs = ''programs.tsv'', cli_slots = Some 1000, cli_duration = None,
     cli_commitment = [Com_Processed, Com_Confirmed], cli_with_blocks = False, cli_with_transactions = False,
     cli_strict_account_key = False, cli_accounts_programs_per_filter = 1, cli_reconnect_test = None,
     cli_output = ''out.json'', cli_raw_records = None, cli_config = None, cli_cpu_affinity = None,
     cli_realtime = False, cli_allocator = Jemalloc, cli_log_level = ''info'',
     cli_max_decode_mb = 256, cli_ring_capacity = DEFAULT_RING_CAPACITY\<rparr>"

abbreviation configure :: "cli \<Rightarrow> toml_overlay \<Rightarrow> config_error + config" where
  "configure \<equiv> from_cli_and_overlay None"

definition slots_only_yields_slots_stop :: bool where
  "slots_only_yields_slots_stop \<longleftrightarrow>
     ok_and (configure base_cli toml_overlay_default) (\<lambda>cfg. cf_stop cfg = Stop_Slots 1000)"

definition duration_only_yields_duration_stop :: bool where
  "duration_only_yields_duration_stop \<longleftrightarrow>
     (let cli = base_cli\<lparr>cli_slots := None, cli_duration := Some 60\<rparr>
      in ok_and (configure cli toml_overlay_default) (\<lambda>cfg. cf_stop cfg = Stop_Duration 60))"

definition both_yields_either_stop :: bool where
  "both_yields_either_stop \<longleftrightarrow>
     (let cli = base_cli\<lparr>cli_duration := Some 60\<rparr>
      in ok_and (configure cli toml_overlay_default) (\<lambda>cfg. cf_stop cfg = Stop_Either 1000 60))"

definition no_stop_condition_rejected :: bool where
  "no_stop_condition_rejected \<longleftrightarrow>
     (let cli = base_cli\<lparr>cli_slots := None, cli_duration := None\<rparr>
      in err_and (configure cli toml_overlay_default) (\<lambda>e. e = NoStopCondition))"

definition entries_endpoint_without_token_rejected :: bool where
  "entries_endpoint_without_token_rejected \<longleftrightarrow>
     (let cli = base_cli\<lparr>cli_entries_endpoint1 := Some ''host:1''\<rparr>
      in err_and (configure cli toml_overlay_default) (\<lambda>e. e = EntriesTokenMismatch 1))"

definition entries_token_without_endpoint_rejected :: bool where
  "entries_token_without_endpoint_rejected \<longleftrightarrow>
     (let cli = base_cli\<lparr>cli_entries_x_token2 := Some ''tok''\<rparr>
      in err_and (configure cli toml_overlay_default) (\<lambda>e. e = EntriesEndpointMismatch 2))"

definition entries_both_supplied_builds_spec :: bool where
  "entries_both_supplied_builds_spec \<longleftrightarrow>
     (let cli = base_cli\<lparr>cli_entries_endpoint1 := Some ''ehost:1'', cli_entries_x_token1 := Some ''etok'', cli_entries_endpoint1_tls := True\<rparr>
      in ok_and (configure cli toml_overlay_default)
           (\<lambda>cfg. case cf_entries_endpoint1 cfg of
              Some e \<Rightarrow> es_url e = ''ehost:1'' \<and> es_x_token e = ''etok'' \<and> es_tls_forced e | None \<Rightarrow> False))"

definition duplicate_affinity_rejected :: bool where
  "duplicate_affinity_rejected \<longleftrightarrow>
     (let cli = base_cli\<lparr>cli_cpu_affinity := Some ''2,3,2''\<rparr>
      in err_and (configure cli toml_overlay_default) (\<lambda>e. e = CpuAffinityParse (DuplicateCore 2)))"

definition structured_affinity_parses :: bool where
  "structured_affinity_parses \<longleftrightarrow>
     (let cli = base_cli\<lparr>cli_cpu_affinity := Some ''ep1=2,3,4,5:ep2=6,7,8,9:proc=10:ctrl=11''\<rparr>
      in ok_and (configure cli toml_overlay_default)
           (\<lambda>cfg. let a = cf_cpu_affinity cfg
              in as_endpoint1 a = [2, 3, 4, 5] \<and> as_endpoint2 a = [6, 7, 8, 9]
               \<and> as_processor a = Some 10 \<and> as_control a = Some 11))"

definition flat_affinity_maps_to_spec_default :: bool where
  "flat_affinity_maps_to_spec_default \<longleftrightarrow>
     (let cli = base_cli\<lparr>cli_cpu_affinity := Some ''2,3,4,5''\<rparr>
      in ok_and (configure cli toml_overlay_default)
           (\<lambda>cfg. let a = cf_cpu_affinity cfg
              in as_endpoint1 a = [2] \<and> as_endpoint2 a = [3] \<and> as_processor a = Some 4 \<and> as_control a = Some 5))"

definition structured_affinity_cross_role_dedup :: bool where
  "structured_affinity_cross_role_dedup \<longleftrightarrow>
     (let cli = base_cli\<lparr>cli_cpu_affinity := Some ''ep1=2,3:ep2=3,4''\<rparr>
      in err_and (configure cli toml_overlay_default) (\<lambda>e. e = CpuAffinityParse (DuplicateCore 3)))"

definition structured_affinity_proc_rejects_list :: bool where
  "structured_affinity_proc_rejects_list \<longleftrightarrow>
     (let cli = base_cli\<lparr>cli_cpu_affinity := Some ''ep1=2:proc=3,4''\<rparr>
      in err_and (configure cli toml_overlay_default) (\<lambda>e. e = CpuAffinityParse (SingleCoreOnly ''proc'')))"

definition structured_affinity_rejects_unknown_role :: bool where
  "structured_affinity_rejects_unknown_role \<longleftrightarrow>
     (let cli = base_cli\<lparr>cli_cpu_affinity := Some ''ep1=2:bogus=3''\<rparr>
      in err_and (configure cli toml_overlay_default)
           (\<lambda>e. case e of CpuAffinityParse (UnknownRole _) \<Rightarrow> True | _ \<Rightarrow> False))"

definition realtime_drops_processor_pin_with_warning :: bool where
  "realtime_drops_processor_pin_with_warning \<longleftrightarrow>
     (let cli = base_cli\<lparr>cli_realtime := True, cli_cpu_affinity := Some ''ep1=2,3:ep2=4,5:proc=10:ctrl=11''\<rparr>
      in ok_and (configure cli toml_overlay_default)
           (\<lambda>cfg. let a = cf_cpu_affinity cfg
              in cf_realtime cfg \<and> Option.is_none (as_processor a)
               \<and> as_endpoint1 a = [2, 3] \<and> as_endpoint2 a = [4, 5] \<and> as_control a = Some 11))"

definition proc_pin_preserved_without_realtime :: bool where
  "proc_pin_preserved_without_realtime \<longleftrightarrow>
     (let cli = base_cli\<lparr>cli_realtime := False, cli_cpu_affinity := Some ''ep1=2:proc=10''\<rparr>
      in ok_and (configure cli toml_overlay_default) (\<lambda>cfg. as_processor (cf_cpu_affinity cfg) = Some 10))"

definition duplicate_commitment_rejected :: bool where
  "duplicate_commitment_rejected \<longleftrightarrow>
     (let cli = base_cli\<lparr>cli_commitment := [Com_Processed, Com_Processed]\<rparr>
      in err_and (configure cli toml_overlay_default) (\<lambda>e. case e of DuplicateCommitment _ \<Rightarrow> True | _ \<Rightarrow> False))"

definition toml_overlay_fills_defaults_when_cli_omits :: bool where
  "toml_overlay_fills_defaults_when_cli_omits \<longleftrightarrow>
     (let overlay = \<lparr>to_log_level = Some ''debug'', to_raw_records = Some ''/tmp/raw.jsonl'', to_cpu_affinity = Some [4, 5]\<rparr>
      in ok_and (configure base_cli overlay)
           (\<lambda>cfg. cf_log_level cfg = ''debug'' \<and> cf_raw_records cfg = Some ''/tmp/raw.jsonl''
              \<and> as_endpoint1 (cf_cpu_affinity cfg) = [4] \<and> as_endpoint2 (cf_cpu_affinity cfg) = [5]
              \<and> Option.is_none (as_processor (cf_cpu_affinity cfg))))"

definition cli_overrides_toml :: bool where
  "cli_overrides_toml \<longleftrightarrow>
     (let cli = base_cli\<lparr>cli_log_level := ''trace'', cli_raw_records := Some ''/cli/raw.jsonl'', cli_cpu_affinity := Some ''2,3''\<rparr>;
          overlay = \<lparr>to_log_level = Some ''debug'', to_raw_records = Some ''/toml/raw.jsonl'', to_cpu_affinity = Some [10, 11]\<rparr>
      in ok_and (configure cli overlay)
           (\<lambda>cfg. cf_log_level cfg = ''trace'' \<and> cf_raw_records cfg = Some ''/cli/raw.jsonl''
              \<and> as_endpoint1 (cf_cpu_affinity cfg) = [2] \<and> as_endpoint2 (cf_cpu_affinity cfg) = [3]))"

lemma config_tests:
  slots_only_yields_slots_stop
  duration_only_yields_duration_stop
  both_yields_either_stop
  no_stop_condition_rejected
  entries_endpoint_without_token_rejected
  entries_token_without_endpoint_rejected
  entries_both_supplied_builds_spec
  duplicate_commitment_rejected
  toml_overlay_fills_defaults_when_cli_omits
  duplicate_affinity_rejected
  structured_affinity_parses
  flat_affinity_maps_to_spec_default
  structured_affinity_cross_role_dedup
  structured_affinity_proc_rejects_list
  structured_affinity_rejects_unknown_role
  realtime_drops_processor_pin_with_warning
  proc_pin_preserved_without_realtime
  cli_overrides_toml
  by code_simp+

end
