(* ===== verification/Tests_Plan.thy ===== *)
theory Tests_Plan
  imports Tests_Config "HOL-Library.Char_ord" "HOL-Library.List_Lexorder"
begin

text \<open>
  The unit tests of \<open>programs.rs\<close> and \<open>subscribe/mod.rs\<close>, replayed on the model. A TSV text is written as its rows
  of columns.
\<close>

section \<open>Program set\<close>

definition tab_row :: "string list \<Rightarrow> string" where
  "tab_row cols = concat (case cols of [] \<Rightarrow> [] | c # cs \<Rightarrow> c # map (\<lambda>d. CHR 0x09 # d) cs)"

definition from_rows :: "string list list \<Rightarrow> programs_error + program_set" where
  "from_rows rows = programs_from_reader programs_reference ''test.tsv'' (map (\<lambda>r. Inr (tab_row r)) rows)"

definition SPL_TOKEN :: string where "SPL_TOKEN = ''TokenkegQfeZyiNwAJbNbGKPFXCWuBvf9Ss623VQ5DA''"
definition SYSTEM_ID :: string where "SYSTEM_ID = ''11111111111111111111111111111111''"
definition RAYDIUM_ID :: string where "RAYDIUM_ID = ''675kPX9MHTjS2zt1qfr1NYHuzeLXfQM9H24wFSUt1Mp8''"
definition METEORA_ID :: string where "METEORA_ID = ''LBUZKhRxPF3XUpBCjp4YzTKgLccjZhTSDM9YuVaPwxo''"

definition parses_three_column_rows :: bool where
  "parses_three_column_rows \<longleftrightarrow>
     ok_and (from_rows [[''raydium_amm_v4'', RAYDIUM_ID, ''Raydium AMM v4''], [''spl_token'', SPL_TOKEN, ''SPL Token'']])
       (\<lambda>set. length (ps_entries set) = 2
          \<and> pr_short_name (ps_entries set ! 0) = ''raydium_amm_v4''
          \<and> pr_program_id (ps_entries set ! 1) = SPL_TOKEN
          \<and> pr_description (ps_entries set ! 0) = ''Raydium AMM v4'')"

definition allows_missing_description :: bool where
  "allows_missing_description \<longleftrightarrow>
     ok_and (from_rows [[''system'', SYSTEM_ID]]) (\<lambda>set. pr_description (ps_entries set ! 0) = '''')"

definition skips_comments_and_blank_lines :: bool where
  "skips_comments_and_blank_lines \<longleftrightarrow>
     ok_and (from_rows [[''# header comment''], [], [''spl_token'', SPL_TOKEN, ''SPL Token''], [''# trailing comment'']])
       (\<lambda>set. length (ps_entries set) = 1)"

fun is_malformed :: "programs_error \<Rightarrow> bool" where
  "is_malformed (MalformedRow _ _ _) = True"
| "is_malformed _ = False"

definition rejects_missing_short_name :: bool where
  "rejects_missing_short_name \<longleftrightarrow> err_and (from_rows [['''', SPL_TOKEN, ''SPL Token'']]) is_malformed"

definition rejects_missing_program_id :: bool where
  "rejects_missing_program_id \<longleftrightarrow> err_and (from_rows [[''spl_token'']]) is_malformed"

definition rejects_invalid_base58 :: bool where
  "rejects_invalid_base58 \<longleftrightarrow> err_and (from_rows [[''bad'', ''!!!not-base58!!!'', ''desc'']]) is_malformed"

definition rejects_short_pubkey :: bool where
  "rejects_short_pubkey \<longleftrightarrow> err_and (from_rows [[''short'', ''abcde'', ''desc'']]) is_malformed"

definition rejects_duplicate_short_name :: bool where
  "rejects_duplicate_short_name \<longleftrightarrow>
     err_and (from_rows [[''spl_token'', SPL_TOKEN], [''spl_token'', SYSTEM_ID]])
       (\<lambda>e. case e of DuplicateShortName _ _ _ \<Rightarrow> True | _ \<Rightarrow> False)"

definition rejects_duplicate_program_id :: bool where
  "rejects_duplicate_program_id \<longleftrightarrow>
     err_and (from_rows [[''a'', SPL_TOKEN], [''b'', SPL_TOKEN]])
       (\<lambda>e. case e of DuplicateProgramId _ _ _ \<Rightarrow> True | _ \<Rightarrow> False)"

definition rejects_empty_file :: bool where
  "rejects_empty_file \<longleftrightarrow>
     err_and (from_rows [[''# only comments''], []]) (\<lambda>e. case e of Empty_File _ \<Rightarrow> True | _ \<Rightarrow> False)"

definition rejects_four_column_row :: bool where
  "rejects_four_column_row \<longleftrightarrow> err_and (from_rows [[''a'', SPL_TOKEN, ''desc'', ''extra'']]) is_malformed"

definition program_ids_preserves_order :: bool where
  "program_ids_preserves_order \<longleftrightarrow>
     ok_and (from_rows [[''a'', SYSTEM_ID], [''b'', SPL_TOKEN]]) (\<lambda>set. program_ids set = [SYSTEM_ID, SPL_TOKEN])"

lemma programs_tests:
  parses_three_column_rows
  allows_missing_description
  skips_comments_and_blank_lines
  program_ids_preserves_order
  rejects_missing_short_name
  rejects_missing_program_id
  rejects_invalid_base58
  rejects_short_pubkey
  rejects_duplicate_short_name
  rejects_duplicate_program_id
  rejects_empty_file
  rejects_four_column_row
  by code_simp+

section \<open>Request bodies\<close>

definition has_filter :: "(string, 'f) hmap \<Rightarrow> string \<Rightarrow> ('f \<Rightarrow> bool) \<Rightarrow> bool" where
  "has_filter m k P = (case hm_get m k of Some f \<Rightarrow> P f | None \<Rightarrow> False)"

definition slots_request_carries_only_slots_filter :: bool where
  "slots_request_carries_only_slots_filter \<longleftrightarrow>
     (let r = build_main_request_for Com_Processed [''AAA''] Slots
      in has_filter (sr_slots r) SLOTS_FILTER (\<lambda>_. True)
       \<and> sr_accounts r = [] \<and> sr_transactions r = [] \<and> sr_blocks r = [] \<and> sr_entry r = [])"

definition accounts_request_carries_only_accounts_filter_with_owners :: bool where
  "accounts_request_carries_only_accounts_filter_with_owners \<longleftrightarrow>
     (let r = build_main_request_for Com_Processed [''AAA''] Accounts
      in has_filter (sr_accounts r) ACCOUNTS_FILTER (\<lambda>a. fa_owner a = [''AAA''])
       \<and> sr_slots r = [] \<and> sr_transactions r = [] \<and> sr_blocks r = [])"

definition transactions_request_includes_account_include :: bool where
  "transactions_request_includes_account_include \<longleftrightarrow>
     (let r = build_main_request_for Com_Processed [''AAA''] Transactions
      in has_filter (sr_transactions r) TRANSACTIONS_FILTER
           (\<lambda>tx. ft_account_include tx = [''AAA''] \<and> ft_failed tx = Some False \<and> ft_vote tx = Some False)
       \<and> sr_slots r = [] \<and> sr_accounts r = [] \<and> sr_blocks r = [])"

definition blocks_request_carries_only_blocks_filter :: bool where
  "blocks_request_carries_only_blocks_filter \<longleftrightarrow>
     (let r = build_main_request_for Com_Processed [] Blocks
      in has_filter (sr_blocks r) BLOCKS_FILTER (\<lambda>b. fb_account_include b = [])
       \<and> sr_slots r = [] \<and> sr_accounts r = [] \<and> sr_transactions r = [])"

definition main_request_propagates_commitment :: bool where
  "main_request_propagates_commitment \<longleftrightarrow>
     sr_commitment (build_main_request_for Com_Processed [] Slots) = Some Ys_Processed
   \<and> sr_commitment (build_main_request_for Com_Confirmed [] Slots) = Some Ys_Confirmed
   \<and> sr_commitment (build_main_request_for Com_Finalized [] Slots) = Some Ys_Finalized"

definition slots_filter_disables_commitment_filter_per_spec :: bool where
  "slots_filter_disables_commitment_filter_per_spec \<longleftrightarrow>
     has_filter (sr_slots build_slot_request) SLOTS_FILTER
       (\<lambda>s. fs_filter_by_commitment s = Some False \<and> fs_interslot_updates s = Some True)"

definition slot_request_omits_top_level_commitment :: bool where
  "slot_request_omits_top_level_commitment \<longleftrightarrow> Option.is_none (sr_commitment build_slot_request)"

definition entries_request_has_only_entry_and_slots_filters :: bool where
  "entries_request_has_only_entry_and_slots_filters \<longleftrightarrow>
     (let r = build_entries_request Com_Processed
      in has_filter (sr_entry r) ENTRIES_FILTER (\<lambda>_. True) \<and> has_filter (sr_slots r) SLOTS_FILTER (\<lambda>_. True)
       \<and> sr_accounts r = [] \<and> sr_transactions r = [] \<and> sr_blocks r = [])"

section \<open>Plans\<close>

definition small_program_set :: "programs_error + program_set" where
  "small_program_set = from_rows [[''system'', SYSTEM_ID, ''System''], [''spl_token'', SPL_TOKEN, ''SPL Token'']]"

definition small_non_heavy_program_set :: "programs_error + program_set" where
  "small_non_heavy_program_set =
     from_rows [[''raydium'', RAYDIUM_ID, ''Raydium AMM V4''], [''meteora'', METEORA_ID, ''Meteora DLMM'']]"

definition mixed_program_set :: "programs_error + program_set" where
  "mixed_program_set =
     from_rows [[''system'', SYSTEM_ID, ''System''], [''raydium'', RAYDIUM_ID, ''Raydium AMM V4''], [''meteora'', METEORA_ID, ''Meteora DLMM'']]"

text \<open>The identifiers of the fixtures, loaded once.\<close>

lemma program_sets [code]:
  "small_program_set = Inr \<lparr>ps_source = ''test.tsv'', ps_entries =
     [\<lparr>pr_short_name = ''system'', pr_program_id = SYSTEM_ID, pr_description = ''System''\<rparr>,
      \<lparr>pr_short_name = ''spl_token'', pr_program_id = SPL_TOKEN, pr_description = ''SPL Token''\<rparr>]\<rparr>"
  "small_non_heavy_program_set = Inr \<lparr>ps_source = ''test.tsv'', ps_entries =
     [\<lparr>pr_short_name = ''raydium'', pr_program_id = RAYDIUM_ID, pr_description = ''Raydium AMM V4''\<rparr>,
      \<lparr>pr_short_name = ''meteora'', pr_program_id = METEORA_ID, pr_description = ''Meteora DLMM''\<rparr>]\<rparr>"
  "mixed_program_set = Inr \<lparr>ps_source = ''test.tsv'', ps_entries =
     [\<lparr>pr_short_name = ''system'', pr_program_id = SYSTEM_ID, pr_description = ''System''\<rparr>,
      \<lparr>pr_short_name = ''raydium'', pr_program_id = RAYDIUM_ID, pr_description = ''Raydium AMM V4''\<rparr>,
      \<lparr>pr_short_name = ''meteora'', pr_program_id = METEORA_ID, pr_description = ''Meteora DLMM''\<rparr>]\<rparr>"
  by code_simp+

text \<open>The module has a fixture of its own, equal to the one of \<open>config.rs\<close>.\<close>

definition plan_cli :: cli where
  "plan_cli = base_cli"

text \<open>The plan of a command line and a program set, and what a test asserts of it.\<close>

definition planned :: "cli \<Rightarrow> programs_error + program_set \<Rightarrow> (subscription_spec list \<Rightarrow> bool) \<Rightarrow> bool" where
  "planned cli programs P =
     ok_and (configure cli toml_overlay_default) (\<lambda>config.
     ok_and programs (\<lambda>set. P (plan_from_run_config config (program_ids set))))"

fun is_accounts_role :: "subscription_role \<Rightarrow> bool" where
  "is_accounts_role (Main _ _ stream) = (stream = Accounts)"
| "is_accounts_role (Entries _) = False"

definition plan_has_one_spec_per_endpoint_per_commitment_per_stream :: bool where
  "plan_has_one_spec_per_endpoint_per_commitment_per_stream \<longleftrightarrow>
     planned plan_cli small_program_set
       (\<lambda>specs. length specs = 10
          \<and> (\<forall>spec\<in>set specs. let r = sp_request spec
               in of_bool (sr_slots r \<noteq> []) + of_bool (sr_accounts r \<noteq> []) + of_bool (sr_transactions r \<noteq> [])
                + of_bool (sr_blocks r \<noteq> []) + of_bool (sr_entry r \<noteq> []) = (1 :: nat)))"

definition plan_accounts_chunked_per_filter_size :: bool where
  "plan_accounts_chunked_per_filter_size \<longleftrightarrow>
     planned (plan_cli\<lparr>cli_accounts_programs_per_filter := 2\<rparr>) small_non_heavy_program_set
       (\<lambda>specs. length specs = 6
          \<and> (case find (\<lambda>s. is_accounts_role (sp_role s)) specs of
               None \<Rightarrow> False
             | Some s \<Rightarrow> has_filter (sr_accounts (sp_request s)) ACCOUNTS_FILTER (\<lambda>a. length (fa_owner a) = 2)))"

text \<open>The loop over the accounts subscriptions: it panics on owners of neither kind, and both kinds must be seen.\<close>

definition heavy_owners :: "string list \<Rightarrow> bool" where
  "heavy_owners owners \<longleftrightarrow> length owners = 1 \<and> is_known_heavy_program (owners ! 0)"

definition rest_owners :: "string list \<Rightarrow> bool" where
  "rest_owners owners \<longleftrightarrow> length owners = 2 \<and> list_all (\<lambda>p. \<not> is_known_heavy_program p) owners"

definition plan_heavy_programs_always_split_out_under_large_chunk_size :: bool where
  "plan_heavy_programs_always_split_out_under_large_chunk_size \<longleftrightarrow>
     planned (plan_cli\<lparr>cli_accounts_programs_per_filter := 10\<rparr>) mixed_program_set
       (\<lambda>specs. let accounts = filter (\<lambda>s. is_accounts_role (sp_role s)) specs;
                    owners_satisfy = (\<lambda>P s. has_filter (sr_accounts (sp_request s)) ACCOUNTS_FILTER (\<lambda>a. P (fa_owner a)))
          in length specs = 10
           \<and> list_all (owners_satisfy (\<lambda>p. heavy_owners p \<or> rest_owners p)) accounts
           \<and> list_ex (owners_satisfy heavy_owners) accounts \<and> list_ex (owners_satisfy rest_owners) accounts)"

definition plan_with_blocks_and_transactions_yields_more_streams :: bool where
  "plan_with_blocks_and_transactions_yields_more_streams \<longleftrightarrow>
     planned (plan_cli\<lparr>cli_with_blocks := True, cli_with_transactions := True\<rparr>) small_program_set (\<lambda>specs. length specs = 18)"

definition plan_includes_entries_when_endpoints_configured :: bool where
  "plan_includes_entries_when_endpoints_configured \<longleftrightarrow>
     planned (plan_cli\<lparr>cli_entries_endpoint2 := Some ''ent2:10000'', cli_entries_x_token2 := Some ''etok2''\<rparr>) small_program_set
       (\<lambda>specs. length specs = 11
          \<and> (let entries_specs = filter (\<lambda>s. is_entries (sp_role s)) specs
             in length entries_specs = 1 \<and> sp_role (entries_specs ! 0) = Entries Two
              \<and> es_url (sp_endpoint (entries_specs ! 0)) = ''ent2:10000''))"

definition plan_ordering_is_deterministic :: bool where
  "plan_ordering_is_deterministic \<longleftrightarrow>
     planned plan_cli small_program_set
       (\<lambda>specs. sp_role (specs ! 0) = Main One Com_Processed Slots
          \<and> sp_role (specs ! 1) = Main One Com_Processed Accounts
          \<and> sp_role (specs ! 2) = Main One Com_Processed Accounts
          \<and> sp_role (specs ! 3) = Main One Com_Confirmed Accounts
          \<and> (case sp_role (specs ! 5) of Main Two _ Slots \<Rightarrow> True | _ \<Rightarrow> False))"

definition accounts_stream_carries_program_ids :: bool where
  "accounts_stream_carries_program_ids \<longleftrightarrow>
     planned plan_cli small_program_set
       (\<lambda>specs. let chosen = filter (\<lambda>s. sp_role s = Main One Com_Processed Accounts) specs;
                    owners = concat (map (\<lambda>s. case hm_get (sr_accounts (sp_request s)) ACCOUNTS_FILTER of
                      Some a \<Rightarrow> fa_owner a | None \<Rightarrow> []) chosen)
          in ok_and small_program_set (\<lambda>programs. sort owners = sort (program_ids programs)))"

lemma plan_tests:
  slots_request_carries_only_slots_filter
  accounts_request_carries_only_accounts_filter_with_owners
  transactions_request_includes_account_include
  blocks_request_carries_only_blocks_filter
  main_request_propagates_commitment
  slots_filter_disables_commitment_filter_per_spec
  slot_request_omits_top_level_commitment
  entries_request_has_only_entry_and_slots_filters
  plan_has_one_spec_per_endpoint_per_commitment_per_stream
  plan_accounts_chunked_per_filter_size
  plan_heavy_programs_always_split_out_under_large_chunk_size
  plan_with_blocks_and_transactions_yields_more_streams
  plan_includes_entries_when_endpoints_configured
  plan_ordering_is_deterministic
  accounts_stream_carries_program_ids
  by code_simp+

end
