(* ===== verification/Tests_Text.thy ===== *)
theory Tests_Text
  imports Tests_Collect Client Run_Output
begin

text \<open>
  The unit tests of \<open>proto.rs\<close>, \<open>env.rs\<close>, \<open>subscribe/yellowstone.rs\<close> and the endpoint hints of
  \<open>summary.rs\<close>, replayed on the model. What \<open>serde_json\<close> makes of a version string is the blob the test spells out;
  the harness versions are those of \<open>Cargo.lock\<close>; the host is one of two examples. Left out are the tests of
  what \<open>serde_json\<close> and \<open>time\<close> print.
\<close>

section \<open>Version strings\<close>

definition semver_parses_plain_triple :: bool where
  "semver_parses_plain_triple \<longleftrightarrow>
     ok_and (parse_semver ''12.3.0'') (\<lambda>v. v = \<lparr>sv_major = 12, sv_minor = 3, sv_patch = 0\<rparr>)"

definition semver_strips_build_metadata :: bool where
  "semver_strips_build_metadata \<longleftrightarrow>
     ok_and (parse_semver ''12.2.0+solana.3.1.13'') (\<lambda>v. sv_patch v = 0 \<and> sv_major v = 12 \<and> sv_minor v = 2)"

definition semver_strips_v_prefix :: bool where
  "semver_strips_v_prefix \<longleftrightarrow>
     ok_and (parse_semver ''v12.2.0+triton-ext.solana.3.1.11'') (\<lambda>v. sv_major v = 12 \<and> sv_minor v = 2)"

definition semver_strips_prerelease :: bool where
  "semver_strips_prerelease \<longleftrightarrow> ok_and (parse_semver ''2.1.0-rc.4'') (\<lambda>v. sv_patch v = 0)"

definition semver_rejects_non_numeric :: bool where
  "semver_rejects_non_numeric \<longleftrightarrow> err_and (parse_semver ''12.x.0'') (\<lambda>e. case e of Component _ _ \<Rightarrow> True | _ \<Rightarrow> False)"

definition semver_rejects_short_input :: bool where
  "semver_rejects_short_input \<longleftrightarrow> err_and (parse_semver ''12.3'') (\<lambda>e. case e of Shape _ \<Rightarrow> True | _ \<Rightarrow> False)"

section \<open>Classification\<close>

definition sv :: "u32 \<Rightarrow> u32 \<Rightarrow> u32 \<Rightarrow> semver" where
  "sv major minor patch = \<lparr>sv_major = major, sv_minor = minor, sv_patch = patch\<rparr>"

fun is_warn :: "compatibility \<Rightarrow> bool" where
  "is_warn (Warn _) = True"
| "is_warn _ = False"

fun is_baseline_refusal :: "compatibility \<Rightarrow> bool" where
  "is_baseline_refusal (RefuseBaseline _ _ _) = True"
| "is_baseline_refusal _ = False"

definition classify_accepts_same_version :: bool where
  "classify_accepts_same_version \<longleftrightarrow>
     (let h = sv 12 3 0 in classify h (Some h) (Some h) (Some ''yellowstone-grpc-geyser'') = Accept)"

definition classify_warns_on_newer_server :: bool where
  "classify_warns_on_newer_server \<longleftrightarrow>
     (let h = sv 12 3 0; s = sv 12 4 0 in is_warn (classify h (Some s) (Some s) (Some ''yellowstone-grpc-geyser'')))"

definition classify_refuses_older_major :: bool where
  "classify_refuses_older_major \<longleftrightarrow>
     (let h = sv 12 3 0; s = sv 11 9 9
      in classify h (Some s) (Some s) (Some ''yellowstone-grpc-geyser'') = RefuseOlderMajor 12 11)"

definition classify_warns_on_older_minor_same_major :: bool where
  "classify_warns_on_older_minor_same_major \<longleftrightarrow>
     (let h = sv 12 3 0; s = sv 12 1 0
      in is_warn (classify h (Some s) (Some (sv 12 2 0)) (Some ''yellowstone-grpc-geyser'')))"

definition classify_refuses_baseline_when_plugin_below_minimum :: bool where
  "classify_refuses_baseline_when_plugin_below_minimum \<longleftrightarrow>
     (let h = sv 12 3 0; proto = sv 12 3 0; plugin = sv 12 1 5
      in is_baseline_refusal (classify h (Some proto) (Some plugin) (Some ''yellowstone-grpc-geyser'')))"

definition classify_accepts_baseline_plugin_with_older_proto :: bool where
  "classify_accepts_baseline_plugin_with_older_proto \<longleftrightarrow>
     (let harness_build = sv 12 3 0; server_proto = sv 12 1 0; server_plugin = sv 12 2 0
      in is_warn (classify harness_build (Some server_proto) (Some server_plugin) (Some ''yellowstone-grpc-geyser'')))"

definition classify_refuses_baseline_for_richat_when_below_minimum :: bool where
  "classify_refuses_baseline_for_richat_when_below_minimum \<longleftrightarrow>
     (let h = sv 12 3 0; proto = sv 12 3 0; plugin = sv 2 0 9
      in is_baseline_refusal (classify h (Some proto) (Some plugin) (Some ''richat'')))"

section \<open>Evaluation\<close>

text \<open>The environment in which every string parses to the given nested and flat blobs.\<close>

definition harness_env :: "version_blob option \<Rightarrow> version_blob option \<Rightarrow> proto_env" where
  "harness_env nested flat = \<lparr>pe_harness_proto = ''12.3.0'', pe_harness_client = ''13.1.0'',
     pe_json_nested = (\<lambda>_. nested), pe_json_flat = (\<lambda>_. flat), pe_dbg = id\<rparr>"

definition blob :: "string option \<Rightarrow> string option \<Rightarrow> string option \<Rightarrow> string option \<Rightarrow> version_blob" where
  "blob package version proto solana =
     \<lparr>vb_package = package, vb_version = version, vb_proto = proto, vb_solana = solana\<rparr>"

definition some_and :: "'a option \<Rightarrow> ('a \<Rightarrow> bool) \<Rightarrow> bool" where
  "some_and x P = (case x of Some y \<Rightarrow> P y | None \<Rightarrow> False)"

definition evaluate_accepts_json_with_proto_field :: bool where
  "evaluate_accepts_json_with_proto_field \<longleftrightarrow>
     some_and (evaluate (harness_env None
           (Some (blob (Some ''yellowstone-grpc-geyser'') (Some ''12.3.0'') (Some ''12.3.0'') (Some ''3.1.13'')))) ''{}'')
       (\<lambda>v. ev_package v = Some ''yellowstone-grpc-geyser'' \<and> ev_proto_version v = Some ''12.3.0'' \<and> ev_compatibility v = Accept)"

definition evaluate_handles_qn_nested_version_blob :: bool where
  "evaluate_handles_qn_nested_version_blob \<longleftrightarrow>
     some_and (evaluate (harness_env
           (Some (blob (Some ''yellowstone-grpc-geyser'') (Some ''12.2.0+solana.3.1.13'') (Some ''12.1.0+solana.3.1.13'') (Some ''3.1.13'')))
           None) ''{}'')
       (\<lambda>v. ev_package v = Some ''yellowstone-grpc-geyser'' \<and> ev_plugin_version v = Some ''12.2.0+solana.3.1.13''
          \<and> ev_proto_version v = Some ''12.1.0+solana.3.1.13''
          \<and> \<not> is_refusal (ev_compatibility v) \<and> is_warn (ev_compatibility v))"

definition evaluate_falls_back_to_version_when_proto_missing :: bool where
  "evaluate_falls_back_to_version_when_proto_missing \<longleftrightarrow>
     some_and (evaluate (harness_env None
           (Some (blob (Some ''yellowstone-grpc-geyser'') (Some ''12.3.0'') None (Some ''3.1.13'')))) ''{}'')
       (\<lambda>v. ev_proto_version v = Some ''12.3.0'')"

definition evaluate_handles_non_json_version_string :: bool where
  "evaluate_handles_non_json_version_string \<longleftrightarrow>
     some_and (evaluate (harness_env None None) ''12.3.0'')
       (\<lambda>v. ev_plugin_version v = Some ''12.3.0'' \<and> ev_compatibility v = Accept
          \<and> list_ex (str_contains ''not JSON'') (ev_warnings v))"

definition evaluate_refuses_plugin_below_baseline :: bool where
  "evaluate_refuses_plugin_below_baseline \<longleftrightarrow>
     some_and (evaluate (harness_env None (Some (blob (Some ''yellowstone-grpc-geyser'') (Some ''12.1.0'') (Some ''12.1.0'') None))) ''{}'')
       (\<lambda>v. is_refusal (ev_compatibility v))"

definition proto_metadata_collates_warnings_with_endpoint_labels :: bool where
  "proto_metadata_collates_warnings_with_endpoint_labels \<longleftrightarrow>
     (let E = harness_env None None;
          E2 = harness_env None (Some (blob (Some ''yellowstone-grpc-geyser'') (Some ''12.3.0'') (Some ''12.3.0'') None))
      in some_and (evaluate E ''12.3.0'') (\<lambda>e1. some_and (evaluate E2 ''{}'') (\<lambda>e2.
           let m = metadata_from_endpoints E e1 e2; starts_with = (\<lambda>p w. strip_prefix p w \<noteq> None)
           in pm_endpoint1_plugin m = ''12.3.0''
            \<and> list_ex (starts_with ''endpoint1:'') (pm_warnings m) \<and> \<not> list_ex (starts_with ''endpoint2:'') (pm_warnings m))))"

definition harness_versions_are_populated_by_build_script :: bool where
  "harness_versions_are_populated_by_build_script \<longleftrightarrow>
     (let E = harness_env None None
      in ok_and (parse_semver (pe_harness_proto E)) (\<lambda>_. True) \<and> ok_and (parse_semver (pe_harness_client E)) (\<lambda>_. True))"

section \<open>The gRPC client\<close>

definition invalid_url_is_invalid_endpoint_error :: bool where
  "invalid_url_is_invalid_endpoint_error \<longleftrightarrow>
     (let T = \<lparr>tr_parse_token = (\<lambda>_. None), tr_parse_url = (\<lambda>u. if u = '''' then Some ''empty'' else None),
               tr_tls_config = (\<lambda>_. None), tr_connect = (\<lambda>_. None)\<rparr>
      in err_and (connect T \<lparr>es_url = '''', es_x_token = ''tok'', es_tls_forced = False\<rparr>)
           (\<lambda>e. case e of InvalidEndpoint _ _ \<Rightarrow> True | _ \<Rightarrow> False))"

definition version_refused_when_plugin_below_baseline :: bool where
  "version_refused_when_plugin_below_baseline \<longleftrightarrow>
     some_and (evaluate (harness_env None (Some (blob (Some ''yellowstone-grpc-geyser'') (Some ''12.1.0'') (Some ''12.1.0'') None))) ''{}'')
       (\<lambda>ev. is_refusal (ev_compatibility ev))"

lemma version_tests:
  semver_parses_plain_triple
  semver_strips_build_metadata
  semver_strips_v_prefix
  semver_strips_prerelease
  semver_rejects_non_numeric
  semver_rejects_short_input
  classify_accepts_same_version
  classify_warns_on_newer_server
  classify_refuses_older_major
  classify_warns_on_older_minor_same_major
  classify_refuses_baseline_when_plugin_below_minimum
  classify_accepts_baseline_plugin_with_older_proto
  classify_refuses_baseline_for_richat_when_below_minimum
  evaluate_accepts_json_with_proto_field
  evaluate_handles_qn_nested_version_blob
  evaluate_falls_back_to_version_when_proto_missing
  evaluate_handles_non_json_version_string
  evaluate_refuses_plugin_below_baseline
  proto_metadata_collates_warnings_with_endpoint_labels
  harness_versions_are_populated_by_build_script
  invalid_url_is_invalid_endpoint_error
  version_refused_when_plugin_below_baseline
  by code_simp+

section \<open>Host metadata\<close>

definition dev_host :: host where
  "dev_host = \<lparr>ho_linux = False, ho_os = ''macos'', ho_jemalloc_target = True, ho_uname = Some (True, ''Darwin 23''),
     ho_cpuinfo = File_NotFound ''no such file'', ho_sysinfo_brand = Some ''Apple M2'', ho_sysctl_brand = None,
     ho_governor = File_NotFound ''no such file'', ho_thp = File_NotFound ''no such file'', ho_timedatectl = None, ho_chronyc = None\<rparr>"

definition linux_host :: host where
  "linux_host = \<lparr>ho_linux = True, ho_os = ''linux'', ho_jemalloc_target = True, ho_uname = Some (True, ''Linux 6.1''),
     ho_cpuinfo = File_Ok ''model name : Xeon'', ho_sysinfo_brand = None, ho_sysctl_brand = None,
     ho_governor = File_Ok ''performance'', ho_thp = File_Ok ''always [madvise] never'',
     ho_timedatectl = Some (True, ''NTPSynchronized=yes''), ho_chronyc = None\<rparr>"

definition warns :: "string \<Rightarrow> host_metadata \<Rightarrow> bool" where
  "warns what m = list_ex (str_contains what) (hmd_warnings m)"

definition collect_produces_warnings_for_dev_host :: "host \<Rightarrow> bool" where
  "collect_produces_warnings_for_dev_host H \<longleftrightarrow>
     (let m = env_collect H False False False affinity_spec_default
      in warns ''SO_TIMESTAMPNS unavailable'' m \<and> (ho_linux H \<or> warns ''Linux-only'' m))"

definition realtime_rejected_warning_only_when_requested :: "host \<Rightarrow> bool" where
  "realtime_rejected_warning_only_when_requested H \<longleftrightarrow>
     warns ''SCHED_FIFO requested'' (env_collect H True False True affinity_spec_default)
   \<and> \<not> warns ''SCHED_FIFO requested'' (env_collect H False False True affinity_spec_default)"

definition cpu_affinity_round_trips_into_metadata :: "host \<Rightarrow> bool" where
  "cpu_affinity_round_trips_into_metadata H \<longleftrightarrow>
     ok_and (from_flat_vec [2, 3, 4, 5]) (\<lambda>spec.
       let m = env_collect H False False True spec
       in hmd_cpu_affinity m = [2, 3, 4, 5] \<and> as_endpoint1 (hmd_cpu_affinity_plan m) = [2]
        \<and> as_processor (hmd_cpu_affinity_plan m) = Some 4)"

definition structured_cpu_affinity_round_trips_plan :: "host \<Rightarrow> bool" where
  "structured_cpu_affinity_round_trips_plan H \<longleftrightarrow>
     ok_and (affinity_parse None ''ep1=2,3:ep2=4,5:proc=6:ctrl=7'') (\<lambda>spec.
       let m = env_collect H False False True spec; plan = hmd_cpu_affinity_plan m
       in hmd_cpu_affinity m = [2, 3, 4, 5, 6, 7] \<and> as_endpoint1 plan = [2, 3] \<and> as_endpoint2 plan = [4, 5]
        \<and> as_processor plan = Some 6 \<and> as_control plan = Some 7)"

definition nominal_realtime_and_timestamps_emit_no_precision_warnings :: "host \<Rightarrow> bool" where
  "nominal_realtime_and_timestamps_emit_no_precision_warnings H \<longleftrightarrow>
     ok_and (from_flat_vec [2, 3, 4, 5]) (\<lambda>spec.
       let m = env_collect H True True True spec
       in hmd_realtime_priority m \<and> hmd_kernel_timestamps m
        \<and> \<not> warns ''SO_TIMESTAMPNS unavailable'' m \<and> \<not> warns ''SCHED_FIFO requested'' m)"

section \<open>Endpoint hints\<close>

definition qn_detect_endpoint1_first :: bool where
  "qn_detect_endpoint1_first \<longleftrightarrow> detect_qn_role ''https://x.quiknode.pro'' (Some ''https://other'') = QN_Endpoint1"

definition qn_detect_endpoint2_first :: bool where
  "qn_detect_endpoint2_first \<longleftrightarrow> detect_qn_role ''https://other'' (Some ''https://x.quicknode.pro'') = QN_Endpoint2"

definition qn_detect_both :: bool where
  "qn_detect_both \<longleftrightarrow> detect_qn_role ''https://x.quiknode.pro'' (Some ''https://y.quicknode.pro'') = QN_Both"

definition qn_detect_neither_defaults_to_endpoint2 :: bool where
  "qn_detect_neither_defaults_to_endpoint2 \<longleftrightarrow> detect_qn_role ''https://helius.x'' (Some ''https://other.y'') = QN_Endpoint2"

definition qn_detect_solo_endpoint1_is_qn :: bool where
  "qn_detect_solo_endpoint1_is_qn \<longleftrightarrow> detect_qn_role ''https://x.quiknode.pro'' None = QN_Endpoint1"

definition qn_detect_solo_endpoint1_not_qn_defaults_to_endpoint2 :: bool where
  "qn_detect_solo_endpoint1_not_qn_defaults_to_endpoint2 \<longleftrightarrow> detect_qn_role ''https://helius.x'' None = QN_Endpoint2"

lemma host_and_hint_tests:
  "collect_produces_warnings_for_dev_host dev_host"
  "realtime_rejected_warning_only_when_requested dev_host"
  "cpu_affinity_round_trips_into_metadata dev_host"
  "structured_cpu_affinity_round_trips_plan dev_host"
  "nominal_realtime_and_timestamps_emit_no_precision_warnings dev_host"
  "collect_produces_warnings_for_dev_host linux_host"
  "realtime_rejected_warning_only_when_requested linux_host"
  "cpu_affinity_round_trips_into_metadata linux_host"
  "structured_cpu_affinity_round_trips_plan linux_host"
  "nominal_realtime_and_timestamps_emit_no_precision_warnings linux_host"
  qn_detect_endpoint1_first
  qn_detect_endpoint2_first
  qn_detect_both
  qn_detect_neither_defaults_to_endpoint2
  qn_detect_solo_endpoint1_is_qn
  qn_detect_solo_endpoint1_not_qn_defaults_to_endpoint2
  by code_simp+

end
