(* ===== verification/Tests_Raw.thy ===== *)
theory Tests_Raw
  imports Tests_Collect Raw Run_Output
begin

text \<open>The unit tests of \<open>raw.rs\<close>, replayed on the model of the writer.\<close>

text \<open>
  An instance of the parameters: two letters a byte in the place of \<open>bs58::encode\<close>, and what \<open>serde_json\<close> prints
  of strings without special characters.
\<close>

definition letter_pairs :: "u8 list \<Rightarrow> string" where
  "letter_pairs bytes = concat (map (\<lambda>b. [BS58_ALPHABET ! nat (uint b div 16), BS58_ALPHABET ! nat (uint b mod 16)]) bytes)"

fun decimal :: "nat \<Rightarrow> int \<Rightarrow> string \<Rightarrow> string" where
  "decimal 0 n acc = acc"
| "decimal (Suc fuel) n acc =
     (let acc' = ''0123456789'' ! nat (n mod 10) # acc in if n < 10 then acc' else decimal fuel (n div 10) acc')"

definition quoted :: "string \<Rightarrow> string" where
  "quoted s = CHR 0x22 # s @ [CHR 0x22]"

fun comma_separated :: "string list \<Rightarrow> string" where
  "comma_separated [] = []"
| "comma_separated [s] = s"
| "comma_separated (s # ss) = s @ CHR '','' # comma_separated ss"

fun json_text :: "json \<Rightarrow> string" where
  "json_text J_Null = ''null''"
| "json_text (J_Num n) = decimal 20 (uint n) []"
| "json_text (J_Str s) = quoted s"
| "json_text (J_Object m) = ''{'' @ comma_separated (map (\<lambda>(k, v). quoted k @ CHR '':'' # json_text v) m) @ ''}''"

definition raw_reference :: raw_env where
  "raw_reference = \<lparr>re_to_string = (\<lambda>j. Some (json_text j)), re_bs58_encode = letter_pairs\<rparr>"

definition ev_slot :: "u64 \<Rightarrow> slot_stage \<Rightarrow> event" where
  "ev_slot slot stage = \<lparr>ev_ts = \<lparr>mono_ns = 1000, wall_ms = 2\<rparr>, ev_subscription = Main One Com_Processed Slots,
     ev_payload = Slot_Payload slot stage\<rparr>"

definition ev_account :: "u64 \<Rightarrow> event" where
  "ev_account slot = \<lparr>ev_ts = \<lparr>mono_ns = 1000, wall_ms = 2\<rparr>, ev_subscription = Main Two Com_Confirmed Accounts,
     ev_payload = Account_Payload slot (replicate 32 1) (replicate 32 2) 5 (Some (replicate 64 3)) 1000\<rparr>"

text \<open>Every file operation succeeds; the file is created, the events are written, the writer is flushed.\<close>

definition written :: "event list \<Rightarrow> (raw_writer \<Rightarrow> bool) \<Rightarrow> bool" where
  "written evs P = ok_and (rw_create None ''raw.jsonl'')
     (\<lambda>w. P (rw_flush None (fold (rw_write raw_reference None) evs w)))"

definition key_value :: "string \<Rightarrow> string \<Rightarrow> string" where
  "key_value k v = quoted k @ CHR '':'' # quoted v"

definition writes_one_json_per_event_and_reports_bytes :: bool where
  "writes_one_json_per_event_and_reports_bytes \<longleftrightarrow>
     written [ev_slot 100 Processed, ev_account 101]
       (\<lambda>w. let contains = (\<lambda>p. list_ex (str_contains p) (rw_lines w))
          in length (rw_lines w) = 2 \<and> rw_bytes_written w > 0
           \<and> contains (key_value ''kind'' ''slot'') \<and> contains (key_value ''kind'' ''account'')
           \<and> contains (key_value ''endpoint'' ''endpoint1'') \<and> contains (key_value ''endpoint'' ''endpoint2''))"

definition account_emits_base58_keys :: bool where
  "account_emits_base58_keys \<longleftrightarrow>
     written [ev_account 7] (\<lambda>w. \<not> list_ex (str_contains ''[1, 1, 1'') (rw_lines w) \<and> length (rw_lines w) = 1)
   \<and> (case event_to_json raw_reference (ev_account 7) of
        J_Object v \<Rightarrow>
          (case hm_get v ''pubkey'' of
             Some (J_Str pubkey) \<Rightarrow> list_all (\<lambda>c. ws_len [c] = 0) pubkey \<and> length pubkey > 30
           | _ \<Rightarrow> False)
      | _ \<Rightarrow> False)"

definition open_failure_returns_typed_error :: bool where
  "open_failure_returns_typed_error \<longleftrightarrow> err_and (rw_create (Some ''Is a directory'') ''/tmp'') (\<lambda>_. True)"

definition subscription_label_distinguishes_main_and_entries :: bool where
  "subscription_label_distinguishes_main_and_entries \<longleftrightarrow>
     subscription_label (Main One Com_Confirmed Accounts) = ''main:confirmed''
   \<and> subscription_label (Entries One) = ''entries''"

lemma raw_tests:
  writes_one_json_per_event_and_reports_bytes
  account_emits_base58_keys
  open_failure_returns_typed_error
  subscription_label_distinguishes_main_and_entries
  by code_simp+

end
