(* ===== verification/Tests_Platform.thy ===== *)
theory Tests_Platform
  imports Program
begin

text \<open>
  The unit tests that are compiled on hosts other than Linux, replayed on the scheduler and socket calls: whatever
  the system calls would answer, they are not made.
\<close>

definition apply_cpu_affinity_unsupported_off_linux :: "string option \<Rightarrow> string option \<Rightarrow> bool" where
  "apply_cpu_affinity_unsupported_off_linux set_error call_error \<longleftrightarrow>
     apply_cpu_affinity False 0 set_error call_error = Sched_Unsupported"

definition apply_realtime_unsupported_off_linux :: "string option \<Rightarrow> bool" where
  "apply_realtime_unsupported_off_linux call_error \<longleftrightarrow> apply_realtime False call_error = Sched_Unsupported"

definition enable_returns_unsupported_off_linux :: "string option \<Rightarrow> bool" where
  "enable_returns_unsupported_off_linux call_error \<longleftrightarrow>
     (case enable_so_timestampns False call_error of Inl err \<Rightarrow> err = Timestamps_Unsupported | Inr _ \<Rightarrow> False)"

lemma off_linux_tests:
  "apply_cpu_affinity_unsupported_off_linux set_error call_error"
  "apply_realtime_unsupported_off_linux call_error"
  "enable_returns_unsupported_off_linux call_error"
  by (simp_all add: apply_cpu_affinity_unsupported_off_linux_def apply_cpu_affinity_def
      apply_realtime_unsupported_off_linux_def apply_realtime_def
      enable_returns_unsupported_off_linux_def enable_so_timestampns_def)

end
