(* ===== verification/Spec2Isabelle.thy ===== *)
theory Spec2Isabelle
  imports Matcher_Correct Quantiles Cross_Stream_Correct Proto_Correct Program
    Tests_Matching Tests_Plan Tests_Text Tests_Raw Tests_Platform
begin

text \<open>
  grpc-bench, a comparative benchmark of Yellowstone gRPC endpoints: verification of \<open>src/src\<close>.

  The program. A configuration (\<open>config.rs\<close>) and a list of programs (\<open>programs.rs\<close>) determine a plan of
  subscriptions (\<open>subscribe/mod.rs\<close>) on one or two endpoints. After the version gate (\<open>proto.rs\<close>,
  \<open>subscribe/yellowstone.rs\<close>) each subscription gets a receiver thread (\<open>run.rs\<close>), which decodes updates
  (\<open>collect/mod.rs\<close>) and puts events into a bounded ring of its own (\<open>collect/ring.rs\<close>). One dispatcher thread
  per endpoint drains the rings and feeds every event to the shared matchers (\<open>matching/\<close>) and to the endpoint's
  stability tracker (\<open>stability.rs\<close>) and cross-stream tracker (\<open>crossstream.rs\<close>). A coordinator stops the run, and
  the matchers' digests, the counters and the host's metadata (\<open>env.rs\<close>) become the output (\<open>summary.rs\<close>).

  Theories, in the order of the data's way.
  \<^item> \<open>Prelude\<close>: Rust integers and hash maps (an association list without duplicates; iteration order is a
    parameter of the model, \<open>hm_iter\<close>), list lemmas. \<open>Float64\<close>: binary64 by exact rationals and explicit rounding.
    \<open>Strings\<close>: the string functions of the standard library. \<open>Interfaces\<close>, \<open>Digest\<close>, \<open>Ring\<close>: the locales
    \<open>pairing_pool\<close> (an arrival meets its partner or waits), \<open>endpoint_tracker\<close> (an observer ignores the other
    endpoint), \<open>buffered_digest\<close> (values reach the t-digest in full batches) and \<open>bounded_fifo\<close>, each interpreted
    on the components that implement it.
  \<^item> \<open>Timing\<close>, \<open>Event_Types\<close>: timestamps on two axes; roles, stages and events.
  \<^item> \<open>Pair_Matcher\<close>, \<open>Matcher_Correct\<close>: \<open>PairMatcher\<close> with eviction; conservation of observations, meaning of the
    counters, absence of endpoint bias, independence of the interleaving, the eviction window.
  \<^item> \<open>Stream_Matchers\<close>, \<open>Streams_Correct\<close>: slots, blocks, transactions and sharded accounts; routing, isolation of the
    shards, the totals of the summaries. \<open>Quantiles\<close>: under the contract of the t-digest, every latency the
    summaries report lies between the extreme delays of the messages both endpoints delivered.
  \<^item> \<open>Cross_Stream\<close>, \<open>Cross_Stream_Correct\<close>: the pairer of transactions and account writes; its invariant, and that
    it refines a pair matcher. \<open>Stability\<close>: gaps, stalls and drift.
  \<^item> \<open>Decode\<close>, \<open>Ring\<close>, \<open>Receiver\<close>, \<open>Dispatcher\<close>, \<open>Raw\<close>: the way of one event; \<open>Run_System\<close>: all threads as an
    interleaving step relation. A step is one iteration of a receiver's loop up to an await, one access of a
    dispatcher to something shared (take an event from a ring, count it as received, match it, log it, count it by
    kind), the end of its pass, or a tick of the coordinator. Invariants of all reachable states give the
    accounting of events and the agreement of the concurrent run with a sequential one; the two dispatchers may
    reach the matchers and the log in different orders, each keeps its own.
  \<^item> \<open>Config\<close>, \<open>Programs\<close>, \<open>Affinity\<close>, \<open>Subscribe\<close>, \<open>Proto\<close>, \<open>Proto_Correct\<close>, \<open>Client\<close>: what happens before the run.
  \<^item> \<open>Ping\<close>, \<open>Host_Env\<close>, \<open>Run_Output\<close>: the ping task, the host's metadata, start and end of \<open>execute\<close>.
    \<open>Realtime\<close>: which threads run at real-time priority and what is reported of it.
  \<^item> \<open>Shutdown\<close>: once the flag is set, receivers and dispatchers stop after boundedly many steps. \<open>Joins\<close>: the
    waits for dispatchers and receivers end by their deadlines. \<open>Graceful\<close>: a
    dispatcher that leaves after an empty pass has lost nothing of receivers that had finished. \<open>Run_End\<close>: the numbers
    of the output as functions of the events the dispatchers took. \<open>Program\<close>: \<open>main\<close> and \<open>execute\<close> as one function of the command line
    and of a \<open>world\<close> (files, servers, clocks, schedule) with the exit code and the report as its result. The end of
    \<open>execute\<close> looks at the run three times: when it stops waiting for the dispatchers, when it takes their state
    back, and after the receivers' deadline; threads may go on between any two of them.
  \<^item> \<open>Reference_Env\<close> and \<open>Tests_Matching\<close>, \<open>Tests_Collect\<close>, \<open>Tests_Config\<close>, \<open>Tests_Plan\<close>, \<open>Tests_Text\<close>,
    \<open>Tests_Raw\<close>, \<open>Tests_Platform\<close>: the unit tests of the repository as propositions on the model, each under the name
    of its function, all proved. They show that the model answers the tests as the code does. No property rests on them.
  This theory joins the plan with the run: no configuration measures drift.

  Conventions. A struct is a record with prefixed fields, an enum a datatype, \<open>u64\<close> and \<open>usize\<close> are 64-bit words; a
  panic is \<open>None\<close>, an error \<open>Inl\<close>. Atomics with relaxed ordering are plain fields of the state, because each is
  written by one thread or only added to. Outside the sources and hence parameters: the t-digest and hash order
  (\<open>runtime\<close>), protobuf and base58 (\<open>decode_env\<close>), serialisation (\<open>raw_env\<close>), JSON and debug printing of the
  version gate (\<open>proto_env\<close>), the transport (\<open>transport\<close>), the host (\<open>host\<close>), results of I/O and clock readings
  (arguments of the steps).

  Bounds and fuel. No definition uses fuel: the loops of threads are single steps, composed by \<open>run_exec\<close> along a
  schedule, and one pass of a dispatcher is bounded by its budget (1024 events a ring). Counts of observations
  stay below two to the 64 where a theorem says so; elsewhere counters are modulo two to the 64, as in the code.

  Not modelled: logging, the creation of threads and runtimes (a thread is there from the start of the run, its first step is what it
  does before its loop; one that does not finish takes no more steps), the system calls themselves (their outcomes are arguments), the text of the output file (serde), the
  parsing of the command line by clap, four unit tests (the accuracy of the
  t-digest, three on printed JSON and time), scripts and sample data. Mutexes, the
  shards of \<open>DashMap\<close> and atomics appear as atomic steps; an event needs one lock at the matchers and one at the
  log, each taken in a step of its own.
\<close>

section \<open>Drift across the whole program\<close>

text \<open>What a server may send on a subscription: an update of a kind the request has a filter for.\<close>

fun request_admits :: "subscribe_request \<Rightarrow> event_payload \<Rightarrow> bool" where
  "request_admits r (Slot_Payload _ _) = (sr_slots r \<noteq> [])"
| "request_admits r (Account_Payload _ _ _ _ _ _) = (sr_accounts r \<noteq> [])"
| "request_admits r (Transaction_Payload _ _ _) = (sr_transactions r \<noteq> [])"
| "request_admits r (Block_Payload _ _ _ _ _) = (sr_blocks r \<noteq> [])"
| "request_admits r (Entry_Payload _ _ _ _) = (sr_entry r \<noteq> [])"

text \<open>C17. No run ever measures the processed-to-confirmed drift. For every configuration and program list, in every
  reachable state of a run of the plan, with servers that only send what the request has a filter for, the
  drift digest of either endpoint is the empty one: the slot subscriptions all carry the label of the first
  configured commitment, entries subscriptions carry none, and drift needs both.\<close>

theorem no_run_measures_drift:
  assumes "specs = plan_from_run_config c ids" and "run_start c R specs names raw = Some s0"
    and "run_trace c R D E s0 ls hs s"
    and "\<And>e i ev. i < length (lane_specs specs e) \<Longrightarrow> ev \<in> set (delivered_to D (lane_roles specs) e i ls) \<Longrightarrow>
      request_admits (sp_request (lane_specs specs e ! i)) (ev_payload ev)"
  shows "drift_digest (ds_stability (dispatcher_states s e)) = dd_new R"
proof -
  have inv: "run_inv c R D E specs names raw ls hs s" by (rule run_inv_trace [OF assms(3,2)])
  let ?evs = "matched_events hs"
  have st: "ds_stability (dispatcher_states s e) = fold (st_observe R) ?evs (st_new R e)" by (rule run_stability [OF inv])
  have label: "com = first_commitment c"
    if "ev \<in> set ?evs" and "ev_subscription ev = Main f com str" and "ev_payload ev = Slot_Payload n g" for ev f com str n g
  proof (rule matched_event_origin [OF inv that(1)])
    fix f' i
    assume i: "i < length (lane_specs specs f')" "ev \<in> set (delivered_to D (lane_roles specs) f' i ls)"
      "ev_subscription ev = sp_role (lane_specs specs f' ! i)" "lane_specs specs f' ! i \<in> set specs"
    have "sr_slots (sp_request (lane_specs specs f' ! i)) \<noteq> []" using assms(4) [OF i(1,2)] that(3) by simp
    then show ?thesis using plan_slots_filter [of "lane_specs specs f' ! i" c ids f com str] i(3,4) that(2) assms(1) by simp
  qed
  show ?thesis
  proof (cases "first_commitment c = Com_Confirmed")
    case True
    have "\<forall>ev \<in> set ?evs. \<not> processed_slot_event ev"
    proof (intro ballI notI)
      fix ev
      assume ev: "ev \<in> set ?evs" "processed_slot_event ev"
      then obtain f str n where "ev_subscription ev = Main f Com_Processed str" "ev_payload ev = Slot_Payload n Processed"
        unfolding processed_slot_event_def
        by (auto split: event_payload.splits slot_stage.splits subscription_role.splits commitment.splits)
      then show False using label [OF ev(1)] True by fastforce
    qed
    then show ?thesis unfolding st by (rule no_processed_no_drift)
  next
    case False
    have "\<forall>ev \<in> set ?evs. \<not> confirmed_slot_event ev"
    proof (intro ballI notI)
      fix ev
      assume ev: "ev \<in> set ?evs" "confirmed_slot_event ev"
      then obtain f str n where "ev_subscription ev = Main f Com_Confirmed str" "ev_payload ev = Slot_Payload n Confirmed"
        unfolding confirmed_slot_event_def
        by (auto split: event_payload.splits slot_stage.splits subscription_role.splits commitment.splits)
      then show False using label [OF ev(1)] False by fastforce
    qed
    then show ?thesis unfolding st by (rule no_confirmed_no_drift)
  qed
qed

theorem no_run_measures_drift_witness:
  "drift_digest (ds_stability (dispatcher_states (snd slots_run) One)) = dd_new list_runtime
   \<and> map ev_payload (matched_events (fst slots_run)) = [Slot_Payload 5 Processed]"
proof -
  have len: "length (lane_specs slots_plan One) = 1" "length (lane_specs slots_plan Two) = 0" by code_simp+
  have adm: "list_all (\<lambda>ev. request_admits (sp_request (lane_specs slots_plan One ! 0)) (ev_payload ev))
      (delivered_to slots_env (lane_roles slots_plan) One 0 slots_schedule)"
    by code_simp
  have admits: "request_admits (sp_request (lane_specs slots_plan e ! i)) (ev_payload ev)"
    if "i < length (lane_specs slots_plan e)" "ev \<in> set (delivered_to slots_env (lane_roles slots_plan) e i slots_schedule)" for e i ev
  proof (cases e)
    case One
    then have "i = 0" using that(1) len(1) by simp
    then show ?thesis using that(2) adm One by (simp add: list_all_iff)
  next
    case Two
    then show ?thesis using that(1) len(2) by simp
  qed
  have "map ev_payload (matched_events (fst slots_run)) = [Slot_Payload 5 Processed]" by code_simp
  then show ?thesis
    using no_run_measures_drift [OF slots_plan_def slots_start slots_trace admits, of One] by blast
qed

end
